(* ===== verification/Prelude.thy ===== *)
theory Prelude
  imports Main "HOL-Library.Word"
begin

text \<open>
  Shared vocabulary of the development: bytes, the error type that stands for
  \<open>anyhow::Error\<close>, the result type and its sequencing operator (Rust's \<open>?\<close>), the
  casts between \<open>i64\<close> and \<open>u64\<close>, saturating subtraction, byte slices, and the list
  lemmas that more than one component uses.
\<close>

named_theorems res_iff \<open>rules that say when a fallible computation returns\<close>
named_theorems list_split \<open>facts about filtering and counting rows of a table\<close>

section \<open>Bytes, errors and results\<close>

type_synonym byte = "8 word"
type_synonym bytes = "byte list"

text \<open>
  Every way an operation of the program fails, one constructor per error site, grouped by
  component. The payload is what the source's message carries. \<open>Panicked\<close> is a panic
  (an index or slice out of range), which unwinds the task that runs the code.
\<close>

datatype db_error = MutexPoisoned | UniqueViolation | ForeignKeyViolation

datatype storage_error = ObjectMissing string | DecodeFailed string

datatype chunk_error =
    RequestError nat nat \<comment> \<open>chunk index, attempts\<close>
  | ServerError nat nat nat \<comment> \<open>chunk index, status, attempts\<close>
  | StatusError nat nat \<comment> \<open>chunk index, status\<close>
  | DownloadError nat nat
  | Incomplete nat nat nat nat \<comment> \<open>chunk index, attempts, expected and received length\<close>
  | ChecksumMismatch nat string string
  | DownloadClosed nat
  | ReceiverLagged nat nat

datatype stream_error =
    FileNotFound string
  | FileDisappeared
  | InvalidRange nat nat nat
  | ActorStopped
  | CachedChecksumMismatch int

datatype upstream_error =
    SendFailed
  | UpstreamReturned nat
  | RedirectFollowFailed string
  | SizeUnknown string
  | EtagValidationTimeout
  | WaiterDropped
  | ReconcileNotPersisted string
  | BodyFailed
  | JsonFailed
  | InvalidHeader

datatype config_error =
    UnknownCompression string
  | EnvParseFailed string
  | EnvNotUnicode string
  | FileUnreadable string
  | S3BucketMissing
  | S3RegionMissing

datatype anyhow =
    Panicked
  | DbError db_error
  | StorageError storage_error
  | ChunkError chunk_error
  | StreamError stream_error
  | UpstreamError upstream_error
  | ConfigError config_error

type_synonym 'a res = "anyhow + 'a"

text \<open>Rust's \<open>?\<close>: an error leaves the function at once, a value goes on.\<close>

fun res_bind :: "'a res \<Rightarrow> ('a \<Rightarrow> 'b res) \<Rightarrow> 'b res" where
  "res_bind (Inl e) f = Inl e"
| "res_bind (Inr x) f = f x"

lemma res_bind_Inr_iff [res_iff]:
  "res_bind m f = Inr y \<longleftrightarrow> (\<exists>x. m = Inr x \<and> f x = Inr y)"
  by (cases m) auto

lemma res_bind_Inl_iff [res_iff]:
  "res_bind m f = Inl e \<longleftrightarrow> m = Inl e \<or> (\<exists>x. m = Inr x \<and> f x = Inl e)"
  by (cases m) auto

lemma res_bind_assoc: "res_bind (res_bind m f) g = res_bind m (\<lambda>x. res_bind (f x) g)"
  by (cases m) auto

definition is_ok :: "'a res \<Rightarrow> bool" where
  "is_ok r = (case r of Inl _ \<Rightarrow> False | Inr _ \<Rightarrow> True)"

lemma is_ok_simps [simp]: "is_ok (Inl e) = False" "is_ok (Inr x) = True"
  by (simp_all add: is_ok_def)

lemma is_ok_iff: "is_ok r \<longleftrightarrow> (\<exists>x. r = Inr x)"
  by (cases r) auto

section \<open>Integer casts\<close>

text \<open>
  \<open>x as u64\<close> of an \<open>i64\<close> and \<open>x as i64\<close> of a \<open>u64\<close> keep the 64 bits and read them
  again. Values that fit both types are unchanged.
\<close>

definition i64_as_u64 :: "int \<Rightarrow> nat" where
  "i64_as_u64 i = unat (word_of_int i :: 64 word)"

definition u64_as_i64 :: "nat \<Rightarrow> int" where
  "u64_as_i64 n = sint (word_of_nat n :: 64 word)"

lemma i64_as_u64_nonneg: "0 \<le> i \<Longrightarrow> i < 2 ^ 64 \<Longrightarrow> i64_as_u64 i = nat i"
  by (simp add: i64_as_u64_def unat_eq_nat_uint uint_word_of_int take_bit_int_eq_self)

lemma u64_as_i64_small: "n < 2 ^ 63 \<Longrightarrow> u64_as_i64 n = int n"
  by (simp add: u64_as_i64_def sint_uint uint_nat unat_of_nat signed_take_bit_int_eq_self)

lemma i64_u64_roundtrip: "n < 2 ^ 63 \<Longrightarrow> i64_as_u64 (u64_as_i64 n) = n"
  by (simp add: u64_as_i64_small i64_as_u64_nonneg)

text \<open>\<open>saturating_sub\<close> on an unsigned type is truncated subtraction on \<open>nat\<close>.\<close>

definition saturating_sub :: "nat \<Rightarrow> nat \<Rightarrow> nat" where
  "saturating_sub a b = (if a < b then 0 else a - b)"

lemma saturating_sub_eq [simp]: "saturating_sub a b = a - b"
  by (simp add: saturating_sub_def)

text \<open>\<open>a.div_ceil(b)\<close> for \<open>b > 0\<close>.\<close>

definition div_ceil :: "nat \<Rightarrow> nat \<Rightarrow> nat" where
  "div_ceil a b = (let q = a div b in if a mod b > 0 then q + 1 else q)"

lemma div_ceil_upper:
  assumes "0 < b"
  shows "a \<le> div_ceil a b * b"
proof (cases "a mod b > 0")
  case True
  have "a \<le> a div b * b + b"
    using div_mult_mod_eq [of a b] mod_less_divisor [OF assms, of a] by linarith
  with True show ?thesis by (simp add: div_ceil_def add.commute)
next
  case False
  then show ?thesis using div_mult_mod_eq [of a b] by (simp add: div_ceil_def)
qed

lemma div_ceil_lower:
  assumes "0 < b" "0 < a"
  shows "(div_ceil a b - 1) * b < a"
proof (cases "a mod b = 0")
  case True
  then have "a = a div b * b" using div_mult_mod_eq [of a b] by simp
  moreover from this assms have "0 < a div b" by (metis mult_zero_left neq0_conv)
  ultimately show ?thesis
    using assms True by (simp add: div_ceil_def diff_mult_distrib)
next
  case False
  then have "a div b * b < a" using div_mult_mod_eq [of a b] by linarith
  with False show ?thesis by (simp add: div_ceil_def)
qed

lemma div_ceil_index_less:
  assumes "0 < b" "x < a"
  shows "x div b < div_ceil a b"
proof -
  have "x < div_ceil a b * b" using assms div_ceil_upper [of b a] by simp
  then show ?thesis using assms by (simp add: less_mult_imp_div_less)
qed

section \<open>Slices\<close>

text \<open>\<open>&data[a..b]\<close>: the bytes from \<open>a\<close> up to but not including \<open>b\<close>; out of range panics.\<close>

definition slice_of :: "nat \<Rightarrow> nat \<Rightarrow> 'a list \<Rightarrow> 'a list" where
  "slice_of a b xs = drop a (take b xs)"

definition checked_slice :: "nat \<Rightarrow> nat \<Rightarrow> 'a list \<Rightarrow> 'a list option" where
  "checked_slice a b xs = (if a \<le> b \<and> b \<le> length xs then Some (slice_of a b xs) else None)"

lemma length_slice [simp]: "length (slice_of a b xs) = min b (length xs) - a"
  by (simp add: slice_of_def)

lemma slice_full [simp]: "slice_of 0 (length xs) xs = xs"
  by (simp add: slice_of_def)

lemma slice_empty [simp]: "b \<le> a \<Longrightarrow> slice_of a b xs = []"
  by (simp add: slice_of_def)

lemma slice_append_slice:
  assumes "a \<le> b" "b \<le> c"
  shows "slice_of a b xs @ slice_of b c xs = slice_of a c xs"
proof -
  have "take c xs = take b xs @ drop b (take c xs)"
    using assms by (metis append_take_drop_id min.absorb1 take_take)
  then have "drop a (take c xs) = drop a (take b xs) @ drop (a - length (take b xs)) (drop b (take c xs))"
    by (metis drop_append)
  moreover have "drop (a - length (take b xs)) (drop b (take c xs)) = drop b (take c xs)"
    using assms by (cases "b \<le> length xs") auto
  ultimately show ?thesis by (simp add: slice_of_def)
qed

lemma slice_slice: "slice_of a b (slice_of c d xs) = slice_of (c + a) (min d (c + b)) xs"
  by (simp add: slice_of_def take_drop drop_drop add.commute min.commute)

lemma checked_slice_Some_iff [res_iff]:
  "checked_slice a b xs = Some ys \<longleftrightarrow> a \<le> b \<and> b \<le> length xs \<and> ys = slice_of a b xs"
  by (auto simp: checked_slice_def)

section \<open>Rows of a table\<close>

text \<open>Counting the rows that satisfy a condition, as \<open>COUNT(*)\<close> does.\<close>

definition count_rows :: "('a \<Rightarrow> bool) \<Rightarrow> 'a list \<Rightarrow> int" where
  "count_rows P xs = int (length (filter P xs))"

lemma count_rows_simps [simp]:
  "count_rows P [] = 0"
  "count_rows P (x # xs) = (if P x then 1 else 0) + count_rows P xs"
  "count_rows P (xs @ ys) = count_rows P xs + count_rows P ys"
  by (simp_all add: count_rows_def)

lemma count_rows_nonneg [simp]: "0 \<le> count_rows P xs"
  by (simp add: count_rows_def)

lemma count_rows_eq_0 [list_split]: "count_rows P xs = 0 \<longleftrightarrow> (\<forall>x \<in> set xs. \<not> P x)"
  by (auto simp: count_rows_def filter_empty_conv)

lemma count_rows_pos [list_split]: "0 < count_rows P xs \<longleftrightarrow> (\<exists>x \<in> set xs. P x)"
  by (auto simp: count_rows_def filter_empty_conv)

lemma count_rows_filter: "count_rows P (filter Q xs) = count_rows (\<lambda>x. Q x \<and> P x) xs"
  by (induction xs) auto

lemma count_rows_split: "count_rows P xs = count_rows (\<lambda>x. Q x \<and> P x) xs + count_rows (\<lambda>x. \<not> Q x \<and> P x) xs"
  by (induction xs) auto

lemma count_rows_cong:
  "(\<And>x. x \<in> set xs \<Longrightarrow> P x = Q x) \<Longrightarrow> count_rows P xs = count_rows Q xs"
  by (induction xs) auto

lemma count_rows_map: "count_rows P (map f xs) = count_rows (P \<circ> f) xs"
  by (induction xs) auto

text \<open>A key that identifies rows identifies them in a filtered table too.\<close>

lemma distinct_map_filter_key: "distinct (map k xs) \<Longrightarrow> distinct (map k (filter P xs))"
  by (rule distinct_map_filter)

lemma find_key_unique:
  assumes "distinct (map k xs)" "x \<in> set xs" "k x = y"
  shows "find (\<lambda>r. k r = y) xs = Some x"
  using assms by (induction xs) (auto simp: rev_image_eqI)

lemma find_None_map: "find (\<lambda>r. k r = y) xs = None \<longleftrightarrow> y \<notin> k ` set xs"
  by (auto simp: find_None_iff)

lemma map_if_key:
  "(\<And>x. k (f x) = k x) \<Longrightarrow> map k (map (\<lambda>x. if P x then f x else x) xs) = map k xs"
  by (induction xs) auto

text \<open>A key that identifies rows selects at most one, the one \<open>find\<close> returns.\<close>

lemma count_rows_key:
  assumes "distinct (map k xs)"
  shows "count_rows (\<lambda>x. k x = y \<and> P x) xs =
    (case find (\<lambda>x. k x = y) xs of None \<Rightarrow> 0 | Some x \<Rightarrow> if P x then 1 else 0)"
  using assms
proof (induction xs)
  case (Cons x xs)
  show ?case
  proof (cases "k x = y")
    case True
    with Cons.prems have "find (\<lambda>x. k x = y) xs = None"
      by (auto simp: find_None_map)
    with True Cons show ?thesis by simp
  next
    case False
    with Cons show ?thesis by simp
  qed
qed simp

lemma find_pair_key: "find (\<lambda>r. a r = x \<and> b r = y) xs = find (\<lambda>r. (a r, b r) = (x, y)) xs"
  by (rule arg_cong [of _ _ "\<lambda>P. find P xs"]) auto

end
