(* ===== verification/Rust_Str.thy ===== *)
theory Rust_Str
  imports Prelude "HOL-Library.Sublist"
begin

text \<open>
  The operations of Rust's \<open>str\<close> that the program uses, on strings of ASCII characters:
  prefixes, searching, splitting, trimming, and the decimal parser and printer of the
  integer types. Header values, URLs, entity tags and file names of the protocol are ASCII;
  offsets are byte offsets, which on ASCII are character offsets.
\<close>

named_theorems str_defs \<open>definitions of the string operations\<close>

section \<open>Prefixes and searching\<close>

definition starts_with :: "string \<Rightarrow> string \<Rightarrow> bool" where
  "starts_with s p = (take (length p) s = p)"

definition strip_prefix :: "string \<Rightarrow> string \<Rightarrow> string option" where
  "strip_prefix s p = (if starts_with s p then Some (drop (length p) s) else None)"

text \<open>\<open>s.find(pat)\<close>: the offset of the first occurrence.\<close>

fun find_str :: "string \<Rightarrow> string \<Rightarrow> nat option" where
  "find_str [] p = (if p = [] then Some 0 else None)"
| "find_str (c # s) p =
     (if starts_with (c # s) p then Some 0 else map_option Suc (find_str s p))"

definition contains :: "string \<Rightarrow> string \<Rightarrow> bool" where
  "contains s p = (find_str s p \<noteq> None)"

text \<open>\<open>s.rfind(c)\<close>: the offset of the last occurrence.\<close>

fun rfind_char :: "char \<Rightarrow> string \<Rightarrow> nat option" where
  "rfind_char c [] = None"
| "rfind_char c (x # s) =
     (case rfind_char c s of
        Some n \<Rightarrow> Some (Suc n)
      | None \<Rightarrow> if x = c then Some 0 else None)"

lemma starts_with_iff: "starts_with s p \<longleftrightarrow> (\<exists>r. s = p @ r)"
  by (metis append_eq_conv_conj append_take_drop_id starts_with_def)

lemma starts_with_append [simp]: "starts_with (p @ r) p"
  by (simp add: starts_with_def)

lemma strip_prefix_Some_iff: "strip_prefix s p = Some r \<longleftrightarrow> s = p @ r"
  by (auto simp: strip_prefix_def starts_with_iff)

lemma strip_prefix_append [simp]: "strip_prefix (p @ r) p = Some r"
  by (simp add: strip_prefix_Some_iff)

lemma find_str_bound: "find_str s p = Some n \<Longrightarrow> n + length p \<le> length s"
proof (induction s arbitrary: n)
  case Nil
  then show ?case by (auto split: if_splits)
next
  case (Cons c s)
  show ?case
  proof (cases "starts_with (c # s) p")
    case True
    then have "length (take (length p) (c # s)) = length p" by (simp add: starts_with_def)
    with True Cons.prems show ?thesis by simp
  next
    case False
    with Cons show ?thesis by auto
  qed
qed

lemma find_str_at: "find_str s p = Some n \<Longrightarrow> starts_with (drop n s) p"
  by (induction s arbitrary: n) (auto simp: starts_with_def split: if_splits)

section \<open>Splitting\<close>

text \<open>\<open>s.split_once(c)\<close>\<close>

fun split_once :: "char \<Rightarrow> string \<Rightarrow> (string \<times> string) option" where
  "split_once c [] = None"
| "split_once c (x # s) =
     (if x = c then Some ([], s)
      else map_option (\<lambda>(a, b). (x # a, b)) (split_once c s))"

lemma split_once_Some_iff:
  "split_once c s = Some (a, b) \<longleftrightarrow> s = a @ c # b \<and> c \<notin> set a"
proof (induction s arbitrary: a b)
  case Nil
  then show ?case by simp
next
  case (Cons x s)
  then show ?case by (cases a) (auto split: if_splits)
qed

lemma split_once_None_iff: "split_once c s = None \<longleftrightarrow> c \<notin> set s"
  by (induction s) auto

text \<open>\<open>s.split(c)\<close>: never empty, the separators are dropped.\<close>

fun split_char :: "char \<Rightarrow> string \<Rightarrow> string list" where
  "split_char c [] = [[]]"
| "split_char c (x # s) =
     (if x = c then [] # split_char c s
      else case split_char c s of [] \<Rightarrow> [[x]] | w # ws \<Rightarrow> (x # w) # ws)"

text \<open>\<open>s.splitn(n, c)\<close>: at most \<open>n\<close> pieces, the last one holds the rest.\<close>

fun splitn :: "nat \<Rightarrow> char \<Rightarrow> string \<Rightarrow> string list" where
  "splitn 0 c s = []"
| "splitn (Suc 0) c s = [s]"
| "splitn (Suc (Suc n)) c s =
     (case split_once c s of None \<Rightarrow> [s] | Some (a, b) \<Rightarrow> a # splitn (Suc n) c b)"

lemma split_char_nonempty: "split_char c s \<noteq> []"
  by (induction s) (auto split: list.splits)

text \<open>\<open>parts.join(sep)\<close>\<close>

fun join :: "string \<Rightarrow> string list \<Rightarrow> string" where
  "join sep [] = []"
| "join sep [x] = x"
| "join sep (x # y # xs) = x @ sep @ join sep (y # xs)"

lemma join_split_char: "join [c] (split_char c s) = s"
proof (induction s)
  case Nil
  then show ?case by simp
next
  case (Cons x s)
  obtain w ws where w: "split_char c s = w # ws"
    using split_char_nonempty by (cases "split_char c s") auto
  with Cons.IH show ?case by (cases ws) auto
qed

lemma split_char_no_sep: "w \<in> set (split_char c s) \<Longrightarrow> c \<notin> set w"
proof (induction s arbitrary: w)
  case (Cons x s)
  then show ?case
    using split_char_nonempty [of c s] by (cases "split_char c s") (auto split: if_splits)
qed simp

section \<open>Trimming\<close>

definition is_space :: "char \<Rightarrow> bool" where
  "is_space c = (c = CHR '' '' \<or> c \<in> {CHR 0x09, CHR 0x0A, CHR 0x0B, CHR 0x0C, CHR 0x0D})"

definition trim :: "string \<Rightarrow> string" where
  "trim s = rev (dropWhile is_space (rev (dropWhile is_space s)))"

text \<open>\<open>s.trim_matches(c)\<close>: the character is dropped from both ends.\<close>

definition trim_matches :: "char \<Rightarrow> string \<Rightarrow> string" where
  "trim_matches c s = rev (dropWhile (\<lambda>x. x = c) (rev (dropWhile (\<lambda>x. x = c) s)))"

text \<open>\<open>s.trim_start_matches("W/")\<close>: the two characters are dropped as often as they lead.\<close>

fun trim_weak :: "string \<Rightarrow> string" where
  "trim_weak (a # b # s) = (if a = CHR ''W'' \<and> b = CHR ''/'' then trim_weak s else a # b # s)"
| "trim_weak s = s"

lemma trim_weak_id: "\<not> starts_with s ''W/'' \<Longrightarrow> trim_weak s = s"
  by (cases s rule: trim_weak.cases) (auto simp: starts_with_def)

lemma trim_weak_fix: "\<not> starts_with (trim_weak s) ''W/''"
  by (induction s rule: trim_weak.induct) (auto simp: starts_with_def)

lemma trim_weak_W [simp]: "trim_weak (CHR ''W'' # CHR ''/'' # s) = trim_weak s"
  by simp

definition to_lower_char :: "char \<Rightarrow> char" where
  "to_lower_char c =
     (let n = (of_char c :: nat) in if 65 \<le> n \<and> n \<le> 90 then char_of (n + 32) else c)"

definition to_lowercase :: "string \<Rightarrow> string" where
  "to_lowercase s = map to_lower_char s"

section \<open>Decimal numbers\<close>

definition digit_val :: "char \<Rightarrow> nat option" where
  "digit_val c = (let n = (of_char c :: nat) in if 48 \<le> n \<and> n \<le> 57 then Some (n - 48) else None)"

definition digit_char :: "nat \<Rightarrow> char" where
  "digit_char d = char_of (48 + d)"

lemma digit_val_char: "d < 10 \<Longrightarrow> digit_val (digit_char d) = Some d"
  by (simp add: digit_val_def digit_char_def)

fun parse_digits :: "nat \<Rightarrow> string \<Rightarrow> nat option" where
  "parse_digits acc [] = Some acc"
| "parse_digits acc (c # s) =
     (case digit_val c of None \<Rightarrow> None | Some d \<Rightarrow> parse_digits (acc * 10 + d) s)"

text \<open>
  \<open>s.parse::<uN>()\<close>: an optional plus sign, at least one digit, digits only, and a value
  that fits. The overflow check at every digit of the library's loop gives the same result
  as one check of the value, since the accumulated value never decreases.
\<close>

definition parse_unsigned :: "nat \<Rightarrow> string \<Rightarrow> nat option" where
  "parse_unsigned w s =
     (let t = (case s of c # r \<Rightarrow> if c = CHR ''+'' then r else s | [] \<Rightarrow> s)
      in if t = [] then None
         else case parse_digits 0 t of
                None \<Rightarrow> None
              | Some n \<Rightarrow> if n < 2 ^ w then Some n else None)"

definition parse_u64 :: "string \<Rightarrow> nat option" where
  "parse_u64 = parse_unsigned 64"

text \<open>\<open>s.parse::<i64>()\<close>: an optional sign and digits within the range of the type.\<close>

definition parse_i64 :: "string \<Rightarrow> int option" where
  "parse_i64 s =
     (case s of
        [] \<Rightarrow> None
      | c # r \<Rightarrow>
          if c = CHR ''-'' then
            (if r = [] then None
             else case parse_digits 0 r of
                    None \<Rightarrow> None
                  | Some n \<Rightarrow> if n \<le> 2 ^ 63 then Some (- int n) else None)
          else map_option int (parse_unsigned 63 s))"

fun show_nat :: "nat \<Rightarrow> string" where
  "show_nat n = (if n < 10 then [digit_char n] else show_nat (n div 10) @ [digit_char (n mod 10)])"

declare show_nat.simps [simp del]

definition show_int :: "int \<Rightarrow> string" where
  "show_int i = (if i < 0 then CHR ''-'' # show_nat (nat (- i)) else show_nat (nat i))"

lemma show_nat_nonempty [simp]: "show_nat n \<noteq> []"
  by (subst show_nat.simps) simp

lemma parse_digits_append:
  "parse_digits acc (s @ t) =
     (case parse_digits acc s of None \<Rightarrow> None | Some n \<Rightarrow> parse_digits n t)"
  by (induction s arbitrary: acc) (auto split: option.splits)

lemma parse_digits_show: "parse_digits 0 (show_nat n) = Some n"
proof (induction n rule: show_nat.induct)
  case (1 n)
  show ?case
  proof (cases "n < 10")
    case True
    then show ?thesis by (subst show_nat.simps) (simp add: digit_val_char)
  next
    case False
    with 1 show ?thesis
      by (subst show_nat.simps) (simp add: parse_digits_append digit_val_char)
  qed
qed

lemma show_nat_digits: "c \<in> set (show_nat n) \<Longrightarrow> digit_val c \<noteq> None"
proof (induction n rule: show_nat.induct)
  case (1 n)
  show ?case
  proof (cases "n < 10")
    case True
    with "1.prems" show ?thesis
      by (subst (asm) show_nat.simps) (auto simp: digit_val_char)
  next
    case False
    with 1 show ?thesis
      by (subst (asm) show_nat.simps) (auto simp: digit_val_char)
  qed
qed

lemma digit_val_special [simp]:
  "digit_val (CHR ''+'') = None" "digit_val (CHR ''-'') = None"
  by (simp_all add: digit_val_def)

lemma show_nat_no_char: "digit_val c = None \<Longrightarrow> c \<notin> set (show_nat n)"
  using show_nat_digits by blast

lemma show_nat_hd: "hd (show_nat n) \<noteq> CHR ''+''"
proof
  assume "hd (show_nat n) = CHR ''+''"
  then have "CHR ''+'' \<in> set (show_nat n)" by (metis list.set_sel(1) show_nat_nonempty)
  then show False using show_nat_no_char [OF digit_val_special(1)] by blast
qed

lemma parse_unsigned_show: "n < 2 ^ w \<Longrightarrow> parse_unsigned w (show_nat n) = Some n"
proof -
  assume n: "n < 2 ^ w"
  obtain c r where cr: "show_nat n = c # r" by (cases "show_nat n") auto
  with show_nat_hd [of n] have "c \<noteq> CHR ''+''" by simp
  with cr n parse_digits_show [of n] show ?thesis
    by (simp add: parse_unsigned_def)
qed

lemma parse_unsigned_bound: "parse_unsigned w s = Some n \<Longrightarrow> n < 2 ^ w"
  by (auto simp: parse_unsigned_def Let_def split: if_splits option.splits list.splits)

lemma parse_u64_show: "n < 2 ^ 64 \<Longrightarrow> parse_u64 (show_nat n) = Some n"
  unfolding parse_u64_def by (rule parse_unsigned_show)

lemma parse_u64_bound: "parse_u64 s = Some n \<Longrightarrow> n < 2 ^ 64"
  unfolding parse_u64_def by (rule parse_unsigned_bound)

lemmas str_basic = starts_with_def strip_prefix_def contains_def trim_def trim_matches_def
  is_space_def to_lowercase_def to_lower_char_def digit_val_def digit_char_def
  parse_unsigned_def parse_u64_def

declare str_basic [str_defs]

section \<open>HTTP header maps\<close>

text \<open>
  A \<open>HeaderMap\<close> as the list of its fields in insertion order, names in lower case as the
  \<open>http\<close> crate keeps them. \<open>get\<close> gives the first field of a name; \<open>to_str\<close> fails
  when the value holds a character that is not visible ASCII.
\<close>

type_synonym headers = "(string \<times> string) list"

definition header_get :: "headers \<Rightarrow> string \<Rightarrow> string option" where
  "header_get hs k = map_of hs k"

definition visible_ascii :: "char \<Rightarrow> bool" where
  "visible_ascii c = (let n = (of_char c :: nat) in (32 \<le> n \<and> n < 127) \<or> n = 9)"

definition to_str :: "string \<Rightarrow> string option" where
  "to_str v = (if list_all visible_ascii v then Some v else None)"

definition header_str :: "headers \<Rightarrow> string \<Rightarrow> string option" where
  "header_str hs k = Option.bind (header_get hs k) to_str"

text \<open>A header map without the hop-by-hop \<open>transfer-encoding\<close>, unreadable values emptied.\<close>

definition forwardable_headers :: "headers \<Rightarrow> headers" where
  "forwardable_headers hs =
     map (\<lambda>(n, v). (n, case to_str v of None \<Rightarrow> [] | Some w \<Rightarrow> w))
       (filter (\<lambda>(n, v). n \<noteq> ''transfer-encoding'') hs)"

end
