(* ===== verification/Storage.thy ===== *)
theory Storage
  imports Rust_Str
begin

text \<open>
  \<open>src/storage/\<close>: the \<open>StorageBackend\<close> trait and its two implementations. A trait object is
  the record of its operations over the state \<open>'s\<close> they act on. \<open>LocalBackend\<close> acts on the
  files of a directory tree (a map from paths to contents; directories are not modelled),
  \<open>S3Backend\<close> on a bucket reached through the \<open>aws-sdk-s3\<close> client, which is a parameter, as
  are the two functions of the \<open>zstd\<close> crate. The locale \<open>storage_laws\<close> is what the rest of
  the program relies on: a content-addressed map from keys to bytes.
\<close>

section \<open>The trait and the compression setting\<close>

datatype compression = Zstd | CompNone

definition compression_default :: compression where
  "compression_default = Zstd"

definition compression_from_str :: "string \<Rightarrow> compression res" where
  "compression_from_str s =
     (let l = to_lowercase s
      in if l = ''zstd'' then Inr Zstd
         else if l = ''none'' then Inr CompNone
         else Inl (ConfigError (UnknownCompression l)))"

record 's backend =
  b_put :: "string \<Rightarrow> bytes \<Rightarrow> 's \<Rightarrow> nat res \<times> 's"
  b_get :: "string \<Rightarrow> 's \<Rightarrow> bytes res"
  b_exists :: "string \<Rightarrow> 's \<Rightarrow> bool res"
  b_delete :: "string \<Rightarrow> 's \<Rightarrow> unit res \<times> 's"

section \<open>The local backend\<close>

type_synonym fs = "string \<rightharpoonup> bytes"

definition COMPRESS_THRESHOLD :: nat where
  "COMPRESS_THRESHOLD = 4096"

record local_backend =
  lb_root :: string
  lb_compression :: compression

text \<open>\<open>&sha256[0..2]\<close> and \<open>&sha256[2..4]\<close> panic on a key of fewer than four bytes.\<close>

definition chunk_path :: "local_backend \<Rightarrow> string \<Rightarrow> string option" where
  "chunk_path b sha =
     (case (checked_slice 0 2 sha, checked_slice 2 4 sha) of
        (Some d1, Some d2) \<Rightarrow> Some (lb_root b @ ''/'' @ d1 @ ''/'' @ d2 @ ''/'' @ sha)
      | _ \<Rightarrow> None)"

definition compressed_path :: "local_backend \<Rightarrow> string \<Rightarrow> string option" where
  "compressed_path b sha = map_option (\<lambda>p. p @ ''.zst'') (chunk_path b sha)"

definition local_put ::
  "(bytes \<Rightarrow> bytes) \<Rightarrow> local_backend \<Rightarrow> string \<Rightarrow> bytes \<Rightarrow> fs \<Rightarrow> nat res \<times> fs" where
  "local_put enc b sha d fs =
     (case (chunk_path b sha, compressed_path b sha) of
        (Some p, Some z) \<Rightarrow>
          if lb_compression b = Zstd \<and> length d > COMPRESS_THRESHOLD
          then let c = enc d in (Inr (length c), fs(z \<mapsto> c))
          else (Inr (length d), fs(p \<mapsto> d))
      | _ \<Rightarrow> (Inl Panicked, fs))"

definition local_get ::
  "(bytes \<Rightarrow> bytes option) \<Rightarrow> local_backend \<Rightarrow> string \<Rightarrow> fs \<Rightarrow> bytes res" where
  "local_get dec b sha fs =
     (case (chunk_path b sha, compressed_path b sha) of
        (Some p, Some z) \<Rightarrow>
          (case (if lb_compression b \<noteq> CompNone then fs z else None) of
             Some c \<Rightarrow>
               (case dec c of
                  Some d \<Rightarrow> Inr d
                | None \<Rightarrow> Inl (StorageError (DecodeFailed sha)))
           | None \<Rightarrow>
               (case fs p of
                  Some d \<Rightarrow> Inr d
                | None \<Rightarrow> Inl (StorageError (ObjectMissing sha))))
      | _ \<Rightarrow> Inl Panicked)"

definition local_exists :: "local_backend \<Rightarrow> string \<Rightarrow> fs \<Rightarrow> bool res" where
  "local_exists b sha fs =
     (case (chunk_path b sha, compressed_path b sha) of
        (Some p, Some z) \<Rightarrow>
          if fs p \<noteq> None then Inr True
          else if lb_compression b \<noteq> CompNone then Inr (fs z \<noteq> None)
          else Inr False
      | _ \<Rightarrow> Inl Panicked)"

definition local_delete :: "local_backend \<Rightarrow> string \<Rightarrow> fs \<Rightarrow> unit res \<times> fs" where
  "local_delete b sha fs =
     (case (chunk_path b sha, compressed_path b sha) of
        (Some p, Some z) \<Rightarrow>
          let fs1 = (if fs p \<noteq> None then fs(p := None) else fs);
              fs2 = (if lb_compression b \<noteq> CompNone \<and> fs1 z \<noteq> None then fs1(z := None) else fs1)
          in (Inr (), fs2)
      | _ \<Rightarrow> (Inl Panicked, fs))"

definition local_ops ::
  "(bytes \<Rightarrow> bytes) \<Rightarrow> (bytes \<Rightarrow> bytes option) \<Rightarrow> local_backend \<Rightarrow> fs backend" where
  "local_ops enc dec b =
     \<lparr>b_put = local_put enc b, b_get = local_get dec b,
      b_exists = local_exists b, b_delete = local_delete b\<rparr>"

section \<open>The S3 backend\<close>

text \<open>The four requests of the client that the backend sends, over the bucket's state.\<close>

record 's s3_client =
  put_object :: "string \<Rightarrow> string \<Rightarrow> bytes \<Rightarrow> 's \<Rightarrow> unit res \<times> 's"
  get_object :: "string \<Rightarrow> string \<Rightarrow> 's \<Rightarrow> bytes res"
  head_object :: "string \<Rightarrow> string \<Rightarrow> 's \<Rightarrow> unit res"
  delete_object :: "string \<Rightarrow> string \<Rightarrow> 's \<Rightarrow> unit res \<times> 's"

record s3_backend =
  s3_bucket :: string
  s3_prefix :: string

definition s3_new :: "string \<Rightarrow> string option \<Rightarrow> s3_backend" where
  "s3_new bucket pre =
     \<lparr>s3_bucket = bucket, s3_prefix = (case pre of None \<Rightarrow> [] | Some p \<Rightarrow> p)\<rparr>"

definition s3_key :: "s3_backend \<Rightarrow> string \<Rightarrow> string" where
  "s3_key b sha = (if s3_prefix b = [] then sha else s3_prefix b @ ''/'' @ sha)"

definition s3_put :: "'s s3_client \<Rightarrow> s3_backend \<Rightarrow> string \<Rightarrow> bytes \<Rightarrow> 's \<Rightarrow> nat res \<times> 's" where
  "s3_put cl b sha d s =
     (case put_object cl (s3_bucket b) (s3_key b sha) d s of
        (Inl e, s') \<Rightarrow> (Inl e, s')
      | (Inr _, s') \<Rightarrow> (Inr (length d), s'))"

definition s3_get :: "'s s3_client \<Rightarrow> s3_backend \<Rightarrow> string \<Rightarrow> 's \<Rightarrow> bytes res" where
  "s3_get cl b sha s = get_object cl (s3_bucket b) (s3_key b sha) s"

definition s3_exists :: "'s s3_client \<Rightarrow> s3_backend \<Rightarrow> string \<Rightarrow> 's \<Rightarrow> bool res" where
  "s3_exists cl b sha s =
     (case head_object cl (s3_bucket b) (s3_key b sha) s of Inl _ \<Rightarrow> Inr False | Inr _ \<Rightarrow> Inr True)"

definition s3_delete :: "'s s3_client \<Rightarrow> s3_backend \<Rightarrow> string \<Rightarrow> 's \<Rightarrow> unit res \<times> 's" where
  "s3_delete cl b sha s = delete_object cl (s3_bucket b) (s3_key b sha) s"

definition s3_ops :: "'s s3_client \<Rightarrow> s3_backend \<Rightarrow> 's backend" where
  "s3_ops cl b =
     \<lparr>b_put = s3_put cl b, b_get = s3_get cl b,
      b_exists = s3_exists cl b, b_delete = s3_delete cl b\<rparr>"

lemma ops_sel [simp]:
  "b_put (local_ops enc dec b) = local_put enc b" "b_get (local_ops enc dec b) = local_get dec b"
  "b_exists (local_ops enc dec b) = local_exists b" "b_delete (local_ops enc dec b) = local_delete b"
  "b_put (s3_ops cl c) = s3_put cl c" "b_get (s3_ops cl c) = s3_get cl c"
  "b_exists (s3_ops cl c) = s3_exists cl c" "b_delete (s3_ops cl c) = s3_delete cl c"
  by (simp_all add: local_ops_def s3_ops_def)

section \<open>What a backend promises\<close>

text \<open>Keys are the hexadecimal names of the chunker: 64 characters.\<close>

definition sha_key :: "string \<Rightarrow> bool" where
  "sha_key k = (length k = 64)"

text \<open>
  The contract of the trait as the program uses it. Because a key is the hash of its
  content, \<open>put\<close> is only ever called on a key that is absent or already holds the same
  bytes; on that condition the backend is a map. \<open>invar\<close> is the backend's own invariant.
\<close>

locale storage_laws =
  fixes B :: "'s backend"
    and contents :: "'s \<Rightarrow> string \<Rightarrow> bytes option"
    and invar :: "'s \<Rightarrow> bool"
  assumes get_found: "invar s \<Longrightarrow> sha_key k \<Longrightarrow> contents s k = Some d \<Longrightarrow> b_get B k s = Inr d"
    and get_absent: "invar s \<Longrightarrow> sha_key k \<Longrightarrow> contents s k = None \<Longrightarrow> \<exists>e. b_get B k s = Inl e"
    and exists_iff: "invar s \<Longrightarrow> sha_key k \<Longrightarrow> b_exists B k s = Inr (contents s k \<noteq> None)"
    and put_stores: "invar s \<Longrightarrow> sha_key k \<Longrightarrow> contents s k = None \<or> contents s k = Some d \<Longrightarrow>
      \<exists>n s'. b_put B k d s = (Inr n, s') \<and> invar s' \<and>
        (\<forall>j. sha_key j \<longrightarrow> contents s' j = ((contents s)(k \<mapsto> d)) j)"
    and delete_removes: "invar s \<Longrightarrow> sha_key k \<Longrightarrow>
      \<exists>s'. b_delete B k s = (Inr (), s') \<and> invar s' \<and>
        (\<forall>j. sha_key j \<longrightarrow> contents s' j = ((contents s)(k := None)) j)"
begin

lemma get_ok_iff: "invar s \<Longrightarrow> sha_key k \<Longrightarrow> b_get B k s = Inr d \<longleftrightarrow> contents s k = Some d"
  using get_found get_absent by (cases "contents s k") fastforce+

lemma get_after_put:
  assumes "invar s" "sha_key k" "contents s k = None \<or> contents s k = Some d"
    and "b_put B k d s = (r, s')"
  shows "is_ok r" "invar s'" "b_get B k s' = Inr d"
    and "\<And>j. sha_key j \<Longrightarrow> j \<noteq> k \<Longrightarrow> contents s' j = contents s j"
  using put_stores [OF assms(1-3)] assms(2,4) by (auto intro: get_found)

lemma get_after_delete:
  assumes "invar s" "sha_key k" "b_delete B k s = (r, s')"
  shows "r = Inr ()" "invar s'" "contents s' k = None" "b_exists B k s' = Inr False"
    and "\<And>j. sha_key j \<Longrightarrow> j \<noteq> k \<Longrightarrow> contents s' j = contents s j"
  using delete_removes [OF assms(1,2)] assms(2,3) by (auto simp: exists_iff)

text \<open>The operations of a backend together: it is a map from hashes to contents.\<close>

lemma map_laws:
  assumes "invar s" "sha_key k" "sha_key j" "b_get B k s = Inr d \<or> b_exists B k s = Inr False"
  shows "\<exists>n s' s''. b_put B k d s = (Inr n, s') \<and>
    b_get B k s' = Inr d \<and> b_exists B k s' = Inr True \<and>
    b_delete B k s' = (Inr (), s'') \<and> b_exists B k s'' = Inr False \<and>
    (j \<noteq> k \<longrightarrow> (\<forall>x. (b_get B j s' = Inr x) = (b_get B j s = Inr x) \<and>
       (b_get B j s'' = Inr x) = (b_get B j s = Inr x)))"
proof -
  have fresh: "contents s k = None \<or> contents s k = Some d"
    using assms by (auto simp: get_ok_iff exists_iff)
  obtain n s' where put: "b_put B k d s = (Inr n, s')" "invar s'"
    and c': "\<forall>j. sha_key j \<longrightarrow> contents s' j = ((contents s)(k \<mapsto> d)) j"
    using put_stores [OF assms(1,2) fresh] by auto
  obtain s'' where del: "b_delete B k s' = (Inr (), s'')" "invar s''"
    and c'': "\<forall>j. sha_key j \<longrightarrow> contents s'' j = ((contents s')(k := None)) j"
    using delete_removes [OF put(2) assms(2)] by auto
  show ?thesis using put del c' c'' assms(1-3) by (auto simp: get_ok_iff exists_iff)
qed

end

section \<open>The local backend keeps the contract\<close>

definition local_contents ::
  "(bytes \<Rightarrow> bytes option) \<Rightarrow> local_backend \<Rightarrow> fs \<Rightarrow> string \<Rightarrow> bytes option" where
  "local_contents dec b fs k =
     (case (chunk_path b k, compressed_path b k) of
        (Some p, Some z) \<Rightarrow>
          (case (if lb_compression b \<noteq> CompNone then fs z else None) of
             Some c \<Rightarrow> dec c
           | None \<Rightarrow> fs p)
      | _ \<Rightarrow> None)"

text \<open>No key has a compressed file that fails to decode.\<close>

definition local_invar :: "(bytes \<Rightarrow> bytes option) \<Rightarrow> local_backend \<Rightarrow> fs \<Rightarrow> bool" where
  "local_invar dec b fs =
     (lb_compression b \<noteq> CompNone \<longrightarrow>
        (\<forall>k z c. sha_key k \<longrightarrow> compressed_path b k = Some z \<longrightarrow> fs z = Some c \<longrightarrow> dec c \<noteq> None))"

definition local_path :: "local_backend \<Rightarrow> string \<Rightarrow> string" where
  "local_path b k = lb_root b @ ''/'' @ slice_of 0 2 k @ ''/'' @ slice_of 2 4 k @ ''/'' @ k"

lemma local_paths:
  assumes "sha_key k"
  shows "chunk_path b k = Some (local_path b k)"
    and "compressed_path b k = Some (local_path b k @ ''.zst'')"
  using assms by (simp_all add: chunk_path_def compressed_path_def local_path_def
      checked_slice_def sha_key_def)

lemma length_local_path: "sha_key k \<Longrightarrow> length (local_path b k) = length (lb_root b) + 71"
  by (simp add: local_path_def sha_key_def)

lemma local_path_inj: "sha_key j \<Longrightarrow> sha_key k \<Longrightarrow> local_path b j = local_path b k \<longleftrightarrow> j = k"
  by (auto simp: local_path_def sha_key_def)

lemma local_path_not_zst:
  assumes "sha_key j" "sha_key k"
  shows "local_path b j \<noteq> local_path b k @ ''.zst''" "local_path b k @ ''.zst'' \<noteq> local_path b j"
proof -
  have "length (local_path b j) \<noteq> length (local_path b k @ ''.zst'')"
    using assms by (simp add: length_local_path)
  then show "local_path b j \<noteq> local_path b k @ ''.zst''"
    "local_path b k @ ''.zst'' \<noteq> local_path b j" by metis+
qed

lemmas local_key_defs = local_paths local_path_inj local_path_not_zst

text \<open>The documented contract of \<open>zstd\<close>: decoding an encoded block gives it back.\<close>

definition zstd_ok :: "(bytes \<Rightarrow> bytes) \<Rightarrow> (bytes \<Rightarrow> bytes option) \<Rightarrow> bool" where
  "zstd_ok enc dec = (\<forall>d. dec (enc d) = Some d)"

lemma local_put_stores:
  assumes "lb_compression b = CompNone \<or> zstd_ok enc dec"
    and inv: "local_invar dec b fs" and k: "sha_key k"
    and fresh: "local_contents dec b fs k = None \<or> local_contents dec b fs k = Some d"
  shows "\<exists>n fs'. local_put enc b k d fs = (Inr n, fs') \<and> local_invar dec b fs' \<and>
    (\<forall>j. sha_key j \<longrightarrow> local_contents dec b fs' j = ((local_contents dec b fs)(k \<mapsto> d)) j)"
proof (cases "lb_compression b = Zstd \<and> length d > COMPRESS_THRESHOLD")
  case True
  with assms(1) have "dec (enc d) = Some d" by (auto simp: zstd_ok_def)
  with True k inv show ?thesis
    by (auto simp: local_put_def local_contents_def local_invar_def local_key_defs Let_def
        split: option.splits)
next
  case False
  let ?fs' = "fs(local_path b k \<mapsto> d)"
  have put: "local_put enc b k d fs = (Inr (length d), ?fs')"
    using False k by (auto simp: local_put_def local_key_defs)
  have inv': "local_invar dec b ?fs'"
    using inv k by (auto simp: local_invar_def local_key_defs)
  have "local_contents dec b ?fs' j = ((local_contents dec b fs)(k \<mapsto> d)) j" if j: "sha_key j" for j
  proof (cases "lb_compression b \<noteq> CompNone \<and> fs (local_path b k @ ''.zst'') \<noteq> None")
    case True
    with inv k have "local_contents dec b fs k \<noteq> None"
      by (auto simp: local_contents_def local_invar_def local_key_defs split: option.splits)
    with fresh have "local_contents dec b fs k = Some d" by simp
    with True j k show ?thesis
      by (auto simp: local_contents_def local_key_defs split: option.splits)
  next
    case False
    with j k show ?thesis
      by (auto simp: local_contents_def local_key_defs split: option.splits)
  qed
  with put inv' show ?thesis by blast
qed

lemma local_storage_laws:
  assumes "lb_compression b = CompNone \<or> zstd_ok enc dec"
  shows "storage_laws (local_ops enc dec b) (local_contents dec b) (local_invar dec b)"
proof (unfold_locales, goal_cases)
  case (1 s k d)
  then show ?case
    by (auto simp: local_get_def local_contents_def local_key_defs split: option.splits if_splits)
next
  case (2 s k)
  then show ?case
    by (auto simp: local_get_def local_contents_def local_invar_def local_key_defs
        split: option.splits if_splits)
next
  case (3 s k)
  then show ?case
    by (auto simp: local_exists_def local_contents_def local_invar_def local_key_defs
        split: option.splits if_splits)
next
  case (4 s k d)
  with local_put_stores [OF assms] show ?case by simp
next
  case (5 s k)
  then show ?case
    by (auto simp: local_delete_def local_contents_def local_invar_def local_key_defs Let_def
        split: option.splits if_splits)
qed

text \<open>
  Without compression the contract needs nothing of \<open>zstd\<close>: the interpretation is on the
  model of \<open>LocalBackend\<close> itself, for every root.
\<close>

definition plain_backend :: "string \<Rightarrow> local_backend" where
  "plain_backend root = \<lparr>lb_root = root, lb_compression = CompNone\<rparr>"

interpretation plain_local: storage_laws "local_ops enc dec (plain_backend root)"
  "local_contents dec (plain_backend root)" "local_invar dec (plain_backend root)"
  for enc dec root
  by (rule local_storage_laws) (simp add: plain_backend_def)

section \<open>The S3 backend keeps the contract\<close>

text \<open>
  What the object store documents: an object that was put is returned until it is deleted,
  requests on one key do not touch others, and \<open>HEAD\<close> succeeds exactly on objects that exist.
  \<open>objs\<close> reads the bucket's objects off the state.
\<close>

definition s3_service_ok ::
  "'s s3_client \<Rightarrow> ('s \<Rightarrow> string \<times> string \<Rightarrow> bytes option) \<Rightarrow> bool" where
  "s3_service_ok cl objs =
     (\<forall>s bucket key d.
        get_object cl bucket key s =
          (case objs s (bucket, key) of
             Some x \<Rightarrow> Inr x | None \<Rightarrow> Inl (StorageError (ObjectMissing key))) \<and>
        (head_object cl bucket key s = Inr ()) = (objs s (bucket, key) \<noteq> None) \<and>
        fst (put_object cl bucket key d s) = Inr () \<and>
        objs (snd (put_object cl bucket key d s)) = (objs s)((bucket, key) \<mapsto> d) \<and>
        fst (delete_object cl bucket key s) = Inr () \<and>
        objs (snd (delete_object cl bucket key s)) = (objs s)((bucket, key) := None))"

definition s3_contents ::
  "('s \<Rightarrow> string \<times> string \<Rightarrow> bytes option) \<Rightarrow> s3_backend \<Rightarrow> 's \<Rightarrow> string \<Rightarrow> bytes option" where
  "s3_contents objs b s k = objs s (s3_bucket b, s3_key b k)"

lemma s3_key_inj: "s3_key b j = s3_key b k \<longleftrightarrow> j = k"
  by (simp add: s3_key_def)

lemma s3_storage_laws:
  assumes "s3_service_ok cl objs"
  shows "storage_laws (s3_ops cl b) (s3_contents objs b) (\<lambda>_. True)"
proof -
  note ok = assms [unfolded s3_service_ok_def, rule_format]
  have get: "get_object cl (s3_bucket b) key s = (case objs s (s3_bucket b, key) of
      Some x \<Rightarrow> Inr x | None \<Rightarrow> Inl (StorageError (ObjectMissing key)))"
    and head: "(head_object cl (s3_bucket b) key s = Inr ()) = (objs s (s3_bucket b, key) \<noteq> None)"
    and put: "fst (put_object cl (s3_bucket b) key d s) = Inr ()"
      "objs (snd (put_object cl (s3_bucket b) key d s)) = (objs s)((s3_bucket b, key) \<mapsto> d)"
    and del: "fst (delete_object cl (s3_bucket b) key s) = Inr ()"
      "objs (snd (delete_object cl (s3_bucket b) key s)) = (objs s)((s3_bucket b, key) := None)"
    for key d s
    using ok by blast+
  show ?thesis
  proof (unfold_locales, goal_cases)
    case (1 s k d)
    then show ?case by (simp add: s3_get_def get s3_contents_def)
  next
    case (2 s k)
    then show ?case by (simp add: s3_get_def get s3_contents_def)
  next
    case (3 s k)
    then show ?case
      using head [of "s3_key b k" s]
      by (auto simp: s3_exists_def s3_contents_def split: sum.splits)
  next
    case (4 s k d)
    then show ?case
      using put [of "s3_key b k" d s]
      by (cases "put_object cl (s3_bucket b) (s3_key b k) d s")
        (auto simp: s3_put_def s3_contents_def s3_key_inj)
  next
    case (5 s k)
    then show ?case
      using del [of "s3_key b k" s]
      by (cases "delete_object cl (s3_bucket b) (s3_key b k) s")
        (auto simp: s3_delete_def s3_contents_def s3_key_inj)
  qed
qed

end
