(* ===== verification/Chunker.thy ===== *)
theory Chunker
  imports Rust_Str
begin

text \<open>
  \<open>src/chunker.rs\<close>: splitting a file into chunks, joining them again, and naming each chunk by
  the hexadecimal SHA-256 of its bytes. The hash function itself is the \<open>sha2\<close> crate: it is the
  parameter \<open>dg\<close> (bytes to digest bytes) of every definition that hashes.
\<close>

section \<open>Definitions\<close>

record chunk_with_hash =
  chunk_index :: nat
  cwh_sha256 :: string
  chunk_size :: nat
  data :: bytes

text \<open>\<open>format!("{b:02x}")\<close>\<close>

definition hex_digit :: "nat \<Rightarrow> char" where
  "hex_digit n = (if n < 10 then char_of (48 + n) else char_of (87 + n))"

definition hex_byte :: "byte \<Rightarrow> string" where
  "hex_byte b = [hex_digit (unat b div 16), hex_digit (unat b mod 16)]"

definition sha256_hex :: "(bytes \<Rightarrow> bytes) \<Rightarrow> bytes \<Rightarrow> string" where
  "sha256_hex dg d = concat (map hex_byte (dg d))"

text \<open>\<open>slice::chunks\<close>, which panics on a chunk size of zero.\<close>

function chunks_of :: "nat \<Rightarrow> 'a list \<Rightarrow> 'a list list" where
  "chunks_of n xs = (if xs = [] \<or> n = 0 then [] else take n xs # chunks_of n (drop n xs))"
  by pat_completeness auto
termination
  by (relation "measure (\<lambda>(n, xs). length xs)") auto

declare chunks_of.simps [simp del]

definition chunk_data :: "bytes \<Rightarrow> nat \<Rightarrow> bytes list option" where
  "chunk_data d n = (if n = 0 then None else Some (chunks_of n d))"

fun assemble_chunks :: "bytes list \<Rightarrow> bytes" where
  "assemble_chunks [] = []"
| "assemble_chunks (c # cs) = c @ assemble_chunks cs"

definition chunk_with_hashes ::
  "(bytes \<Rightarrow> bytes) \<Rightarrow> bytes \<Rightarrow> nat \<Rightarrow> chunk_with_hash list option" where
  "chunk_with_hashes dg d n =
     (if n = 0 then None
      else Some (map (\<lambda>(i, c). \<lparr>chunk_index = i, cwh_sha256 = sha256_hex dg c,
                                 chunk_size = length c, data = c\<rparr>)
                   (enumerate 0 (chunks_of n d))))"

section \<open>Splitting and joining\<close>

lemma chunks_of_Nil [simp]: "chunks_of n [] = []"
  by (simp add: chunks_of.simps)

lemma concat_chunks_of: "0 < n \<Longrightarrow> concat (chunks_of n xs) = xs"
proof (induction n xs rule: chunks_of.induct)
  case (1 n xs)
  then show ?case by (cases "xs = []") (simp_all add: chunks_of.simps [of n xs])
qed

lemma assemble_chunks_concat: "assemble_chunks cs = concat cs"
  by (induction cs) auto

lemma div_ceil_step: "0 < n \<Longrightarrow> 0 < a \<Longrightarrow> div_ceil a n = Suc (div_ceil (a - n) n)"
proof (cases "a < n")
  case False
  moreover assume "0 < n"
  ultimately show ?thesis
    by (simp add: div_ceil_def Let_def le_div_geq le_mod_geq)
qed (auto simp: div_ceil_def)

lemma length_chunks_of: "0 < n \<Longrightarrow> length (chunks_of n xs) = div_ceil (length xs) n"
proof (induction n xs rule: chunks_of.induct)
  case (1 n xs)
  show ?case
  proof (cases "xs = []")
    case True
    then show ?thesis by (simp add: div_ceil_def)
  next
    case False
    with 1 show ?thesis
      by (simp add: chunks_of.simps [of n xs] div_ceil_step [of n "length xs"])
  qed
qed

text \<open>The chunk with index \<open>i\<close> holds the bytes from \<open>i * n\<close> on, at most \<open>n\<close> of them.\<close>

lemma nth_chunks_of:
  "0 < n \<Longrightarrow> i < length (chunks_of n xs) \<Longrightarrow>
     chunks_of n xs ! i = slice_of (i * n) (i * n + n) xs"
proof (induction n xs arbitrary: i rule: chunks_of.induct)
  case (1 n xs)
  then have ne: "xs \<noteq> []" by auto
  show ?case
  proof (cases i)
    case 0
    with ne 1 show ?thesis by (simp add: chunks_of.simps [of n xs] slice_of_def)
  next
    case (Suc j)
    with ne 1 have "chunks_of n (drop n xs) ! j = slice_of (j * n) (j * n + n) (drop n xs)"
      by (simp add: chunks_of.simps [of n xs])
    with Suc ne 1 show ?thesis
      by (simp add: chunks_of.simps [of n xs] slice_of_def take_drop add.commute add.left_commute)
  qed
qed

lemma chunks_of_lengths: "c \<in> set (chunks_of n xs) \<Longrightarrow> 0 < length c \<and> length c \<le> n"
proof (induction n xs rule: chunks_of.induct)
  case (1 n xs)
  then show ?case by (auto simp: chunks_of.simps [of n xs] split: if_splits)
qed

section \<open>The hexadecimal name\<close>

lemma length_hex_byte [simp]: "length (hex_byte b) = 2"
  by (simp add: hex_byte_def)

lemma length_sha256_hex: "length (sha256_hex dg d) = 2 * length (dg d)"
proof -
  have "length (concat (map hex_byte bs)) = 2 * length bs" for bs
    by (induction bs) auto
  then show ?thesis by (simp add: sha256_hex_def)
qed

lemma of_char_hex_digit:
  assumes "k < 16"
  shows "(of_char (hex_digit k) :: nat) = (if k < 10 then 48 + k else 87 + k)"
  using assms by (auto simp only: hex_digit_def of_char_of split: if_splits) simp_all

lemma hex_digit_inj:
  assumes "n < 16" "m < 16" "hex_digit n = hex_digit m"
  shows "n = m"
proof -
  have "(if n < 10 then 48 + n else 87 + n) = (if m < 10 then 48 + m else 87 + m)"
    using of_char_hex_digit [OF assms(1)] of_char_hex_digit [OF assms(2)] assms(3) by simp
  with assms(1,2) show ?thesis by (auto split: if_splits)
qed

lemma hex_byte_inj:
  assumes "hex_byte a = hex_byte b"
  shows "a = b"
proof -
  have bound: "unat c div 16 < 16 \<and> unat c mod 16 < 16" for c :: byte
    using unsigned_less [of c, where ?'a = nat] by simp
  have hi: "hex_digit (unat a div 16) = hex_digit (unat b div 16)"
    and lo: "hex_digit (unat a mod 16) = hex_digit (unat b mod 16)"
    using assms by (simp_all only: hex_byte_def list.inject)
  have "unat a div 16 = unat b div 16" using hex_digit_inj [OF _ _ hi] bound by blast
  moreover have "unat a mod 16 = unat b mod 16" using hex_digit_inj [OF _ _ lo] bound by blast
  ultimately have "unat a = unat b" by (metis div_mult_mod_eq)
  then show ?thesis by (simp only: unsigned_word_eqI)
qed

lemma hex_concat_inj:
  "length as = length bs \<Longrightarrow> concat (map hex_byte as) = concat (map hex_byte bs) \<Longrightarrow> as = bs"
  by (induction as bs rule: list_induct2) (auto dest: hex_byte_inj)

lemma sha256_hex_inj:
  assumes "length (dg a) = length (dg b)" "sha256_hex dg a = sha256_hex dg b"
  shows "dg a = dg b"
  using hex_concat_inj [OF assms(1)] assms(2) by (simp add: sha256_hex_def)

end
