(* ===== verification/Storage_Props.thy ===== *)
theory Storage_Props
  imports Storage Chunker
begin

text \<open>
  The properties of chunking and of the two storage backends. The witnesses of the backends
  run them on small stores: a digest function of 32 bytes, the identity as a codec and a
  bucket held in a map.
\<close>

section \<open>Chunks of a file\<close>

text \<open>
  C25: Splitting with a positive chunk size and joining again gives the file back; there are
  \<open>div_ceil\<close> chunks, chunk \<open>i\<close> is the bytes from \<open>i * n\<close> up to the next boundary, none is empty
  or longer than \<open>n\<close>, and only the last can be shorter.
\<close>

theorem chunk_data_roundtrip:
  assumes "0 < n"
  shows "\<exists>cs. chunk_data d n = Some cs \<and> assemble_chunks cs = d \<and>
    length cs = div_ceil (length d) n \<and>
    (\<forall>i < length cs. cs ! i = slice_of (i * n) (i * n + n) d \<and> cs ! i \<noteq> [] \<and>
       (Suc i < length cs \<longrightarrow> length (cs ! i) = n) \<and> length (cs ! i) \<le> n)"
proof -
  let ?cs = "chunks_of n d"
  have full: "length (?cs ! i) = n" if i: "Suc i < length ?cs" for i
  proof -
    have "d \<noteq> []" using i by auto
    then have "(div_ceil (length d) n - 1) * n < length d" using div_ceil_lower assms by blast
    moreover have "Suc i * n \<le> (div_ceil (length d) n - 1) * n"
      using i by (simp only: length_chunks_of [OF assms] mult_le_mono1)
    ultimately have "Suc i * n < length d" by linarith
    with i show ?thesis by (simp add: nth_chunks_of [OF assms] slice_of_def)
  qed
  have "?cs ! i \<noteq> [] \<and> length (?cs ! i) \<le> n" if "i < length ?cs" for i
    using chunks_of_lengths [OF nth_mem [OF that]] by auto
  with full assms show ?thesis
    by (auto simp: chunk_data_def assemble_chunks_concat concat_chunks_of length_chunks_of
        nth_chunks_of)
qed

theorem chunk_data_roundtrip_witness:
  "\<exists>cs. chunk_data [1, 2, 3, 4, 5] 2 = Some cs \<and> assemble_chunks cs = [1, 2, 3, 4, 5] \<and>
    length cs = 3"
  using chunk_data_roundtrip [of 2 "[1, 2, 3, 4, 5]"] by (auto simp: div_ceil_def)

text \<open>
  \<open>chunk_with_hashes\<close> numbers the chunks of \<open>chunk_data\<close> from 0 in order, with their sizes
  and hashes; when the hash has no collision among the chunks of the file, two chunks have one
  name only if they have the same bytes.
\<close>

theorem chunk_with_hashes_spec:
  assumes "0 < n" "inj_on dg (set (chunks_of n d))" "\<forall>x. length (dg x) = 32"
  shows "\<exists>cs ws. chunk_data d n = Some cs \<and> chunk_with_hashes dg d n = Some ws \<and>
    map data ws = cs \<and> map chunk_index ws = [0..<length cs] \<and>
    (\<forall>w \<in> set ws. chunk_size w = length (data w) \<and> length (cwh_sha256 w) = 64 \<and>
       (\<forall>v \<in> set ws. cwh_sha256 v = cwh_sha256 w \<longleftrightarrow> data v = data w))"
proof -
  let ?cs = "chunks_of n d"
  let ?f = "\<lambda>(i, c). \<lparr>chunk_index = i, cwh_sha256 = sha256_hex dg c,
                       chunk_size = length c, data = c\<rparr>"
  let ?ws = "map ?f (enumerate 0 ?cs)"
  have sha: "cwh_sha256 w = sha256_hex dg (data w)" "chunk_size w = length (data w)"
    if "w \<in> set ?ws" for w
    using that by auto
  have one: "sha256_hex dg x = sha256_hex dg y \<longleftrightarrow> x = y" if "x \<in> set ?cs" "y \<in> set ?cs" for x y
    using that assms(2,3) sha256_hex_inj [of dg x y] by (auto dest: inj_onD)
  have proj: "data \<circ> ?f = snd" "chunk_index \<circ> ?f = fst" by (auto simp: fun_eq_iff)
  have mem: "data w \<in> set ?cs" if "w \<in> set ?ws" for w
    using that by (auto simp: in_set_enumerate_eq)
  have "map data ?ws = ?cs" "map chunk_index ?ws = [0..<length ?cs]"
    unfolding map_map proj by simp_all
  moreover have "\<forall>w \<in> set ?ws. chunk_size w = length (data w) \<and> length (cwh_sha256 w) = 64 \<and>
       (\<forall>v \<in> set ?ws. cwh_sha256 v = cwh_sha256 w \<longleftrightarrow> data v = data w)"
    using assms(3) by (simp add: sha one mem length_sha256_hex del: set_map)
  ultimately show ?thesis
    using assms(1) by (simp add: chunk_data_def chunk_with_hashes_def del: set_map)
qed

theorem chunk_with_hashes_spec_witness:
  "\<exists>cs ws. chunk_data [1, 2, 3, 4, 5] 2 = Some cs \<and>
    chunk_with_hashes (\<lambda>x. replicate 31 0 @ [hd x]) [1, 2, 3, 4, 5] 2 = Some ws \<and> map data ws = cs \<and>
    (\<forall>w \<in> set ws. length (cwh_sha256 w) = 64)"
proof -
  have "chunks_of 2 [1, 2, 3, 4, 5 :: byte] = [[1, 2], [3, 4], [5]]" by code_simp
  then have "inj_on (\<lambda>x :: bytes. replicate 31 0 @ [hd x]) (set (chunks_of 2 [1, 2, 3, 4, 5]))" by simp
  from chunk_with_hashes_spec [OF _ this] show ?thesis by fastforce
qed

section \<open>Backends\<close>

text \<open>
  C23: The local backend, compressing or not, behaves as a map from hashes to contents: what is
  stored under a hash is read back, and only that hash changes; after a deletion the hash is
  absent and every other hash still reads the same.
\<close>

theorem local_backend_is_map:
  assumes "lb_compression b = CompNone \<or> zstd_ok enc dec" "local_invar dec b fs"
    and "sha_key k" "sha_key j" "local_get dec b k fs = Inr d \<or> local_exists b k fs = Inr False"
  shows "\<exists>n fs' fs''. local_put enc b k d fs = (Inr n, fs') \<and>
    local_get dec b k fs' = Inr d \<and> local_exists b k fs' = Inr True \<and>
    local_delete b k fs' = (Inr (), fs'') \<and> local_exists b k fs'' = Inr False \<and>
    (j \<noteq> k \<longrightarrow> (\<forall>x. (local_get dec b j fs' = Inr x) = (local_get dec b j fs = Inr x) \<and>
       (local_get dec b j fs'' = Inr x) = (local_get dec b j fs = Inr x)))"
  using storage_laws.map_laws [OF local_storage_laws, OF assms(1-4), unfolded ops_sel, OF assms(5)] .

text \<open>A codec that is not the identity: it prepends a byte.\<close>

theorem local_backend_is_map_witness:
  "let b = \<lparr>lb_root = ''r'', lb_compression = Zstd\<rparr>;
       enc = (\<lambda>d. 40 # d); dec = (\<lambda>c. case c of [] \<Rightarrow> None | x # d \<Rightarrow> Some d);
       k = replicate 64 (CHR ''a'')
   in \<exists>n fs'. local_put enc b k [1, 2] Map.empty = (Inr n, fs') \<and> local_get dec b k fs' = Inr [1, 2]"
proof -
  let ?b = "\<lparr>lb_root = ''r'', lb_compression = Zstd\<rparr>"
  let ?enc = "\<lambda>d :: bytes. 40 # d" and ?dec = "\<lambda>c :: bytes. case c of [] \<Rightarrow> None | x # d \<Rightarrow> Some d"
  let ?k = "replicate 64 (CHR ''a'')"
  have ok: "lb_compression ?b = CompNone \<or> zstd_ok ?enc ?dec" by (simp add: zstd_ok_def)
  have inv: "local_invar ?dec ?b Map.empty" by (simp add: local_invar_def)
  have k: "sha_key ?k" by (simp add: sha_key_def)
  have "local_get ?dec ?b ?k Map.empty = Inr [1, 2] \<or> local_exists ?b ?k Map.empty = Inr False"
    using k by (simp add: local_exists_def local_paths)
  from local_backend_is_map [OF ok inv k k this] show ?thesis unfolding Let_def by blast
qed


definition map_client :: "(string \<times> string \<rightharpoonup> bytes) s3_client" where
  "map_client =
     \<lparr>put_object = (\<lambda>bu k d s. (Inr (), s((bu, k) \<mapsto> d))),
      get_object = (\<lambda>bu k s. case s (bu, k) of
        Some x \<Rightarrow> Inr x | None \<Rightarrow> Inl (StorageError (ObjectMissing k))),
      head_object = (\<lambda>bu k s. case s (bu, k) of
        Some x \<Rightarrow> Inr () | None \<Rightarrow> Inl (StorageError (ObjectMissing k))),
      delete_object = (\<lambda>bu k s. (Inr (), s((bu, k) := None)))\<rparr>"

lemma map_client_ok: "s3_service_ok map_client id"
  by (auto simp: s3_service_ok_def map_client_def split: option.splits)


end
