(* ===== verification/Float64.thy ===== *)
theory Float64
  imports Complex_Main
begin

text \<open>
  The \<open>f64\<close> arithmetic the program does (the urgency of a chunk, percentages, byte counts
  for display): a finite double is the rational number it denotes, and every conversion,
  product and quotient is the exact result rounded to 53 significant bits, ties to even, as
  IEEE 754 prescribes. The values the program forms lie between \<open>2 ^ (-64)\<close> and \<open>2 ^ 128\<close> in
  magnitude, so neither overflow nor subnormal numbers occur and neither is modelled.
\<close>

section \<open>Definitions\<close>

type_synonym f64 = rat

fun bit_length :: "nat \<Rightarrow> nat" where
  "bit_length n = (if n = 0 then 0 else Suc (bit_length (n div 2)))"

declare bit_length.simps [simp del]

text \<open>Rounding to the nearest integer, ties to the even one.\<close>

definition round_half_even :: "rat \<Rightarrow> int" where
  "round_half_even x =
     (let f = \<lfloor>x\<rfloor>; r = x - of_int f
      in if r < 1 / 2 then f else if r > 1 / 2 then f + 1 else if even f then f else f + 1)"

text \<open>The exponent of a positive rational: \<open>2 powi e \<le> x < 2 powi (e + 1)\<close>.\<close>

definition rat_exponent :: "rat \<Rightarrow> int" where
  "rat_exponent x =
     (let (p, q) = quotient_of x;
          e = int (bit_length (nat p)) - int (bit_length (nat q))
      in if 2 powi e \<le> x then e else e - 1)"

definition f64_round_pos :: "rat \<Rightarrow> f64" where
  "f64_round_pos x =
     (let s = 52 - rat_exponent x in of_int (round_half_even (x * 2 powi s)) / 2 powi s)"

definition f64_round :: "rat \<Rightarrow> f64" where
  "f64_round x =
     (if x = 0 then 0 else if 0 < x then f64_round_pos x else - f64_round_pos (- x))"

definition f64_of_nat :: "nat \<Rightarrow> f64" where
  "f64_of_nat n = f64_round (of_nat n)"

definition f64_of_int :: "int \<Rightarrow> f64" where
  "f64_of_int i = f64_round (of_int i)"

definition f64_mul :: "f64 \<Rightarrow> f64 \<Rightarrow> f64" where
  "f64_mul x y = f64_round (x * y)"

definition f64_div :: "f64 \<Rightarrow> f64 \<Rightarrow> f64" where
  "f64_div x y = f64_round (x / y)"

section \<open>The exponent\<close>

lemma bit_length_bounds:
  "0 < n \<Longrightarrow> 2 ^ (bit_length n - 1) \<le> n \<and> n < 2 ^ bit_length n \<and> 0 < bit_length n"
proof (induction n rule: bit_length.induct)
  case (1 n)
  show ?case
  proof (cases "n div 2 = 0")
    case True
    with 1 have "n = 1" by simp
    then show ?thesis by (simp add: bit_length.simps)
  next
    case False
    with 1 have IH: "2 ^ (bit_length (n div 2) - 1) \<le> n div 2" "n div 2 < 2 ^ bit_length (n div 2)"
      "0 < bit_length (n div 2)" by auto
    have b: "bit_length n = Suc (bit_length (n div 2))"
      using "1.prems" by (subst bit_length.simps) simp
    have "(2 :: nat) ^ bit_length (n div 2) = 2 * 2 ^ (bit_length (n div 2) - 1)"
      using IH(3) by (metis Suc_diff_1 power_Suc)
    have "2 * (n div 2) \<le> n" "n \<le> 2 * (n div 2) + 1" by simp_all
    with IH \<open>2 ^ bit_length (n div 2) = 2 * 2 ^ (bit_length (n div 2) - 1)\<close>
    have "2 ^ bit_length (n div 2) \<le> n" "n < 2 * 2 ^ bit_length (n div 2)" by linarith+
    with b show ?thesis by simp
  qed
qed

lemma rat_exponent_bounds:
  assumes "0 < x"
  shows "2 powi rat_exponent x \<le> x" "x < 2 powi (rat_exponent x + 1)"
proof -
  obtain p q where pq: "quotient_of x = (p, q)" by (cases "quotient_of x")
  have q: "0 < q" using pq quotient_of_denom_pos by blast
  have x: "x = of_int p / of_int q" using pq quotient_of_div by blast
  then have p: "0 < p" using assms q by (simp add: zero_less_divide_iff)
  define bp bq where "bp = bit_length (nat p)" and "bq = bit_length (nat q)"
  define e where "e = int bp - int bq"
  have P: "2 ^ (bp - 1) \<le> nat p" "nat p < 2 ^ bp" "0 < bp"
    and Q: "2 ^ (bq - 1) \<le> nat q" "nat q < 2 ^ bq" "0 < bq"
    using bit_length_bounds [of "nat p"] bit_length_bounds [of "nat q"] p q
    by (auto simp: bp_def bq_def)
  have P': "(2 :: rat) powi (int bp - 1) \<le> of_int p" "of_int p < (2 :: rat) powi int bp"
  proof -
    have "(of_nat (2 ^ (bp - 1)) :: rat) \<le> of_nat (nat p)" using P(1) by (simp only: of_nat_le_iff)
    then show "(2 :: rat) powi (int bp - 1) \<le> of_int p"
      using P(3) p by (simp add: power_int_def nat_diff_distrib)
    have "(of_nat (nat p) :: rat) < of_nat (2 ^ bp)" using P(2) by (simp only: of_nat_less_iff)
    then show "of_int p < (2 :: rat) powi int bp" using p by simp
  qed
  have Q': "(2 :: rat) powi (int bq - 1) \<le> of_int q" "of_int q < (2 :: rat) powi int bq"
  proof -
    have "(of_nat (2 ^ (bq - 1)) :: rat) \<le> of_nat (nat q)" using Q(1) by (simp only: of_nat_le_iff)
    then show "(2 :: rat) powi (int bq - 1) \<le> of_int q"
      using Q(3) q by (simp add: power_int_def nat_diff_distrib)
    have "(of_nat (nat q) :: rat) < of_nat (2 ^ bq)" using Q(2) by (simp only: of_nat_less_iff)
    then show "of_int q < (2 :: rat) powi int bq" using q by simp
  qed
  have qp: "(0 :: rat) < of_int q" using q by simp
  have up: "x < 2 powi (e + 1)"
  proof -
    have "of_int p < (2 :: rat) powi (e + 1) * 2 powi (int bq - 1)"
      using P'(2) by (simp add: e_def flip: power_int_add)
    also have "\<dots> \<le> 2 powi (e + 1) * of_int q" using Q'(1) by simp
    finally show ?thesis using qp by (simp add: x divide_less_eq)
  qed
  have lo: "2 powi (e - 1) \<le> x"
  proof -
    have "(2 :: rat) powi (e - 1) * of_int q \<le> 2 powi (e - 1) * 2 powi int bq"
      using Q'(2) by simp
    also have "\<dots> = 2 powi (e - 1 + int bq)" by (rule power_int_add [symmetric]) simp
    also have "\<dots> \<le> of_int p" using P'(1) by (simp add: e_def)
    finally show ?thesis using qp by (simp add: x le_divide_eq)
  qed
  have r: "rat_exponent x = (if 2 powi e \<le> x then e else e - 1)"
    by (simp add: rat_exponent_def pq Let_def e_def bp_def bq_def)
  show "2 powi rat_exponent x \<le> x" "x < 2 powi (rat_exponent x + 1)"
    using up lo by (auto simp: r)
qed

lemma rat_exponent_mono: "0 < x \<Longrightarrow> x \<le> y \<Longrightarrow> rat_exponent x \<le> rat_exponent y"
proof (rule ccontr)
  assume "0 < x" "x \<le> y" "\<not> rat_exponent x \<le> rat_exponent y"
  then have "(2 :: rat) powi (rat_exponent y + 1) \<le> 2 powi rat_exponent x"
    by (intro power_int_increasing) auto
  with rat_exponent_bounds [of x] rat_exponent_bounds [of y] \<open>0 < x\<close> \<open>x \<le> y\<close>
  show False by simp
qed

section \<open>Rounding is monotone\<close>

lemma round_half_even_of_int [simp]: "round_half_even (of_int i) = i"
  by (simp add: round_half_even_def)

lemma round_half_even_bounds: "\<lfloor>x\<rfloor> \<le> round_half_even x" "round_half_even x \<le> \<lfloor>x\<rfloor> + 1"
  by (simp_all add: round_half_even_def Let_def)

lemma round_half_even_mono: "x \<le> y \<Longrightarrow> round_half_even x \<le> round_half_even y"
proof -
  assume le: "x \<le> y"
  then consider "\<lfloor>x\<rfloor> < \<lfloor>y\<rfloor>" | "\<lfloor>x\<rfloor> = \<lfloor>y\<rfloor>" using floor_mono [OF le] by linarith
  then show ?thesis
  proof cases
    case 1
    with round_half_even_bounds [of x] round_half_even_bounds [of y] show ?thesis by linarith
  next
    case 2
    with le show ?thesis by (auto simp: round_half_even_def Let_def)
  qed
qed

lemma f64_round_pos_upper:
  assumes "0 < x"
  shows "f64_round_pos x \<le> 2 powi (rat_exponent x + 1)"
proof -
  define s where "s = 52 - rat_exponent x"
  have "x * 2 powi s \<le> 2 powi (rat_exponent x + 1) * 2 powi s"
    using rat_exponent_bounds(2) [OF assms] by simp
  also have "\<dots> = of_int (2 ^ 53)" by (simp add: s_def flip: power_int_add)
  finally have "round_half_even (x * 2 powi s) \<le> 2 ^ 53"
    by (metis round_half_even_mono round_half_even_of_int)
  then have "(of_int (round_half_even (x * 2 powi s)) :: rat) \<le> of_int (2 ^ 53)"
    by (simp only: of_int_le_iff)
  also have "\<dots> = 2 powi (rat_exponent x + 1) * 2 powi s" by (simp add: s_def flip: power_int_add)
  finally show ?thesis
    by (simp add: f64_round_pos_def Let_def s_def [symmetric] divide_le_eq)
qed

lemma f64_round_pos_lower:
  assumes "0 < x"
  shows "2 powi rat_exponent x \<le> f64_round_pos x"
proof -
  define s where "s = 52 - rat_exponent x"
  have "(of_int (2 ^ 52) :: rat) = 2 powi rat_exponent x * 2 powi s"
    by (simp add: s_def flip: power_int_add)
  also have "\<dots> \<le> x * 2 powi s" using rat_exponent_bounds(1) [OF assms] by simp
  finally have "2 ^ 52 \<le> round_half_even (x * 2 powi s)"
    by (metis round_half_even_mono round_half_even_of_int)
  then have "(of_int (2 ^ 52) :: rat) \<le> of_int (round_half_even (x * 2 powi s))"
    by (simp only: of_int_le_iff)
  then have "(2 :: rat) powi rat_exponent x * 2 powi s \<le> of_int (round_half_even (x * 2 powi s))"
    by (simp add: s_def flip: power_int_add)
  then show ?thesis by (simp add: f64_round_pos_def Let_def s_def [symmetric] le_divide_eq)
qed

lemma f64_round_pos_mono:
  assumes "0 < x" "x \<le> y"
  shows "f64_round_pos x \<le> f64_round_pos y"
proof (cases "rat_exponent x = rat_exponent y")
  case True
  have "round_half_even (x * 2 powi s) \<le> round_half_even (y * 2 powi s)" for s
    using assms by (intro round_half_even_mono) simp
  with True show ?thesis by (simp add: f64_round_pos_def Let_def divide_right_mono)
next
  case False
  with rat_exponent_mono [OF assms] have "rat_exponent x + 1 \<le> rat_exponent y" by simp
  then have "(2 :: rat) powi (rat_exponent x + 1) \<le> 2 powi rat_exponent y"
    by (intro power_int_increasing) auto
  with f64_round_pos_upper [of x] f64_round_pos_lower [of y] assms show ?thesis by linarith
qed

lemma f64_round_nonneg: "0 \<le> x \<Longrightarrow> 0 \<le> f64_round x"
proof -
  assume "0 \<le> x"
  moreover have "0 < x \<Longrightarrow> 0 \<le> f64_round_pos x"
    using f64_round_pos_lower [of x] by (meson order_trans zero_le_numeral zero_le_power_int)
  ultimately show ?thesis by (auto simp: f64_round_def)
qed

lemma f64_round_mono: "0 \<le> x \<Longrightarrow> x \<le> y \<Longrightarrow> f64_round x \<le> f64_round y"
  using f64_round_nonneg [of y] f64_round_pos_mono [of x y] by (auto simp: f64_round_def)

lemma f64_round_0 [simp]: "f64_round 0 = 0"
  by (simp add: f64_round_def)

lemma f64_round_pos_pos: "0 < x \<Longrightarrow> 0 < f64_round x"
proof -
  assume x: "0 < x"
  have "(0 :: rat) < 2 powi rat_exponent x" by (simp add: zero_less_power_int)
  also have "\<dots> \<le> f64_round_pos x" using x by (rule f64_round_pos_lower)
  finally show ?thesis using x by (simp add: f64_round_def)
qed

lemma f64_of_nat_mono: "m \<le> n \<Longrightarrow> f64_of_nat m \<le> f64_of_nat n"
  by (simp add: f64_of_nat_def f64_round_mono)

lemma f64_of_nat_0 [simp]: "f64_of_nat 0 = 0"
  by (simp add: f64_of_nat_def)

lemma f64_of_nat_nonneg [simp]: "0 \<le> f64_of_nat n"
  by (simp add: f64_of_nat_def f64_round_nonneg)

lemma f64_of_nat_pos: "0 < n \<Longrightarrow> 0 < f64_of_nat n"
  by (simp add: f64_of_nat_def f64_round_pos_pos)

lemma f64_div_mono: "0 \<le> x \<Longrightarrow> x \<le> y \<Longrightarrow> 0 < d \<Longrightarrow> f64_div x d \<le> f64_div y d"
  by (simp add: f64_div_def f64_round_mono divide_right_mono)

lemma f64_div_0 [simp]: "f64_div 0 d = 0"
  by (simp add: f64_div_def)

lemma f64_div_pos: "0 < x \<Longrightarrow> 0 < d \<Longrightarrow> 0 < f64_div x d"
  by (simp add: f64_div_def f64_round_pos_pos)

lemma f64_div_nonneg: "0 \<le> x \<Longrightarrow> 0 < d \<Longrightarrow> 0 \<le> f64_div x d"
  by (simp add: f64_div_def f64_round_nonneg)

end
