(* ===== verification/Metadata.thy ===== *)
theory Metadata
  imports Rust_Str Float64 "HOL-Library.List_Lexorder" "HOL-Library.Char_ord"
    "HOL-Library.Product_Lexorder"
begin

text \<open>
  \<open>src/metadata.rs\<close>: the SQLite tables and every operation of \<open>MetadataStore\<close>.
  A table is the list of its rows in rowid order; a statement is the list operation its SQL
  text says. \<open>ORDER BY\<close> is a stable sort, so rows that compare equal stay in rowid order, as
  SQLite returns them. \<open>datetime('now')\<close> is the argument \<open>now\<close>. A statement that violates a
  \<open>UNIQUE\<close> or \<open>FOREIGN KEY\<close> constraint fails and changes nothing, and a failed transaction
  rolls back. The connection's mutex may be poisoned, which every operation checks first.
  Failures of the disk below SQLite are not modelled.
\<close>

section \<open>Rows and tables\<close>

record file_row =
  f_id :: int
  f_name :: string
  f_repo :: string
  f_total_size :: int
  f_created_at :: string
  f_last_accessed :: string
  f_source :: string
  f_etag :: "string option"
  f_x_repo_commit :: "string option"
  f_x_linked_size :: "int option"
  f_x_linked_etag :: "string option"
  f_content_type :: "string option"

record chunk =
  c_sha256 :: string
  c_backend :: string
  c_path :: string
  c_size :: int
  c_compressed_size :: "int option"
  c_ref_count :: int
  c_orphaned_at :: "string option"

record file_chunk =
  fc_file_id :: int
  fc_sha256 :: string
  fc_chunk_index :: int
  fc_chunk_size :: int

record stats =
  repo_count :: int
  file_count :: int
  chunk_count :: int
  original_bytes :: int
  stored_bytes :: int
  bytes_saved :: int
  saved_percent :: f64
  st_fetched_bytes :: nat
  st_served_bytes :: nat

record reconcile_result =
  scanned_chunks :: nat
  mismatched_chunks :: nat
  refcount_fixed :: nat
  orphaned_marked :: nat
  orphaned_cleared :: nat

text \<open>The database. \<open>last_file_id\<close> is the \<open>AUTOINCREMENT\<close> counter of \<open>files\<close>.\<close>

record db =
  files :: "file_row list"
  chunks :: "chunk list"
  file_chunks :: "file_chunk list"
  last_file_id :: int
  poisoned :: bool

definition empty_db :: db where
  "empty_db = \<lparr>files = [], chunks = [], file_chunks = [], last_file_id = 0, poisoned = False\<rparr>"

definition reconcile_default :: reconcile_result where
  "reconcile_default = \<lparr>scanned_chunks = 0, mismatched_chunks = 0, refcount_fixed = 0,
     orphaned_marked = 0, orphaned_cleared = 0\<rparr>"

text \<open>\<open>self.conn()?\<close> for operations that read and for operations that write.\<close>

definition with_conn :: "db \<Rightarrow> 'a res \<Rightarrow> 'a res" where
  "with_conn d r = (if poisoned d then Inl (DbError MutexPoisoned) else r)"

definition with_conn_mut :: "db \<Rightarrow> 'a res \<times> db \<Rightarrow> 'a res \<times> db" where
  "with_conn_mut d r = (if poisoned d then (Inl (DbError MutexPoisoned), d) else r)"

text \<open>\<open>UPDATE chunks SET ... WHERE ...\<close>\<close>

definition update_chunks :: "(chunk \<Rightarrow> bool) \<Rightarrow> (chunk \<Rightarrow> chunk) \<Rightarrow> db \<Rightarrow> db" where
  "update_chunks P f d = d\<lparr>chunks := map (\<lambda>c. if P c then f c else c) (chunks d)\<rparr>"

definition update_files :: "(file_row \<Rightarrow> bool) \<Rightarrow> (file_row \<Rightarrow> file_row) \<Rightarrow> db \<Rightarrow> db" where
  "update_files P f d = d\<lparr>files := map (\<lambda>r. if P r then f r else r) (files d)\<rparr>"

text \<open>\<open>LIMIT n\<close>: a negative limit is no limit.\<close>

definition sql_limit :: "int \<Rightarrow> 'a list \<Rightarrow> 'a list" where
  "sql_limit n xs = (if n < 0 then xs else take (nat n) xs)"

section \<open>Files\<close>

definition add_file :: "string \<Rightarrow> string \<Rightarrow> string \<Rightarrow> int \<Rightarrow> string \<Rightarrow> db \<Rightarrow> file_row res \<times> db" where
  "add_file now name repo total_size source d =
     with_conn_mut d
       (if \<exists>f \<in> set (files d). f_name f = name \<and> f_source f = source
        then (Inl (DbError UniqueViolation), d)
        else
          let i = last_file_id d + 1;
              row = \<lparr>f_id = i, f_name = name, f_repo = repo, f_total_size = total_size,
                      f_created_at = now, f_last_accessed = now, f_source = source,
                      f_etag = None, f_x_repo_commit = None, f_x_linked_size = None,
                      f_x_linked_etag = None, f_content_type = None\<rparr>
          in (Inr (row\<lparr>f_created_at := [], f_last_accessed := []\<rparr>),
              d\<lparr>files := files d @ [row], last_file_id := i\<rparr>))"

definition lookup_file :: "string \<Rightarrow> string \<Rightarrow> db \<Rightarrow> file_row option" where
  "lookup_file name source d = find (\<lambda>f. f_name f = name \<and> f_source f = source) (files d)"

definition get_file_by_name :: "string \<Rightarrow> string \<Rightarrow> db \<Rightarrow> file_row option res" where
  "get_file_by_name name source d = with_conn d (Inr (lookup_file name source d))"

definition set_file_headers ::
  "string \<Rightarrow> string \<Rightarrow> string option \<Rightarrow> string option \<Rightarrow> int option \<Rightarrow> string option \<Rightarrow>
   string option \<Rightarrow> db \<Rightarrow> unit res \<times> db" where
  "set_file_headers name source et commit lsize letag ctype d =
     with_conn_mut d
       (Inr (),
        update_files (\<lambda>f. f_name f = name \<and> f_source f = source)
          (\<lambda>f. f\<lparr>f_etag := et, f_x_repo_commit := commit, f_x_linked_size := lsize,
                  f_x_linked_etag := letag, f_content_type := ctype\<rparr>) d)"

definition touch_repo :: "string \<Rightarrow> string \<Rightarrow> db \<Rightarrow> unit res \<times> db" where
  "touch_repo now repo d =
     with_conn_mut d
       (Inr (), update_files (\<lambda>f. f_repo f = repo) (\<lambda>f. f\<lparr>f_last_accessed := now\<rparr>) d)"

definition refs_lost :: "int \<Rightarrow> string \<Rightarrow> db \<Rightarrow> int" where
  "refs_lost i sha d = count_rows (\<lambda>r. fc_file_id r = i \<and> fc_sha256 r = sha) (file_chunks d)"

text \<open>
  \<open>delete_file_by_id_tx\<close>: one \<open>UPDATE\<close> over the chunks the file references, then the
  file's links and its row are deleted. \<open>refs_lost\<close> is the sub-select of the \<open>UPDATE\<close>.
\<close>

definition delete_file_by_id_tx :: "string \<Rightarrow> int \<Rightarrow> db \<Rightarrow> db" where
  "delete_file_by_id_tx now i d =
     (let d1 = update_chunks (\<lambda>c. refs_lost i (c_sha256 c) d > 0)
                 (\<lambda>c. c\<lparr>c_ref_count := c_ref_count c - refs_lost i (c_sha256 c) d,
                         c_orphaned_at :=
                           (if c_ref_count c - refs_lost i (c_sha256 c) d = 0 then Some now
                            else c_orphaned_at c)\<rparr>) d;
          d2 = d1\<lparr>file_chunks := filter (\<lambda>r. fc_file_id r \<noteq> i) (file_chunks d1)\<rparr>
      in d2\<lparr>files := filter (\<lambda>f. f_id f \<noteq> i) (files d2)\<rparr>)"

definition delete_file :: "string \<Rightarrow> string \<Rightarrow> string \<Rightarrow> db \<Rightarrow> bool res \<times> db" where
  "delete_file now name source d =
     with_conn_mut d
       (case lookup_file name source d of
          Some f \<Rightarrow> (Inr True, delete_file_by_id_tx now (f_id f) d)
        | None \<Rightarrow> (Inr False, d))"

definition delete_files_by_repo :: "string \<Rightarrow> string \<Rightarrow> db \<Rightarrow> nat res \<times> db" where
  "delete_files_by_repo now repo d =
     with_conn_mut d
       (let ids = map f_id (filter (\<lambda>f. f_repo f = repo) (files d))
        in (Inr (length ids), fold (delete_file_by_id_tx now) ids d))"

definition list_files :: "db \<Rightarrow> file_row list res" where
  "list_files d = with_conn d (Inr (sort_key (\<lambda>f. (f_repo f, f_name f)) (files d)))"

definition min_access :: "string \<Rightarrow> db \<Rightarrow> string" where
  "min_access repo d =
     (let ts = map f_last_accessed (filter (\<lambda>f. f_repo f = repo) (files d))
      in fold min ts (hd ts))"

definition list_repos_by_access :: "nat \<Rightarrow> db \<Rightarrow> string list res" where
  "list_repos_by_access limit d =
     with_conn d
       (Inr (sql_limit (u64_as_i64 limit)
              (sort_key (\<lambda>r. min_access r d) (remdups (sort (map f_repo (files d)))))))"

definition list_files_with_missing_headers :: "db \<Rightarrow> file_row list res" where
  "list_files_with_missing_headers d =
     with_conn d (Inr (filter (\<lambda>f. f_etag f = None \<or> f_content_type f = None) (files d)))"

section \<open>Chunks and links\<close>

text \<open>\<open>INSERT OR IGNORE INTO chunks\<close> with the default reference count of zero.\<close>

definition insert_chunk_or_ignore ::
  "string \<Rightarrow> string \<Rightarrow> string \<Rightarrow> string \<Rightarrow> int \<Rightarrow> int \<Rightarrow> db \<Rightarrow> db" where
  "insert_chunk_or_ignore now sha backend path sz csize d =
     (if \<exists>c \<in> set (chunks d). c_sha256 c = sha then d
      else d\<lparr>chunks := chunks d @
                [\<lparr>c_sha256 = sha, c_backend = backend, c_path = path, c_size = sz,
                  c_compressed_size = Some csize, c_ref_count = 0, c_orphaned_at = Some now\<rparr>]\<rparr>)"

definition ensure_chunk ::
  "string \<Rightarrow> string \<Rightarrow> string \<Rightarrow> string \<Rightarrow> int \<Rightarrow> int \<Rightarrow> db \<Rightarrow> unit res \<times> db" where
  "ensure_chunk now sha backend path sz csize d =
     with_conn_mut d (Inr (), insert_chunk_or_ignore now sha backend path sz csize d)"

definition get_chunk :: "string \<Rightarrow> db \<Rightarrow> chunk option res" where
  "get_chunk sha d = with_conn d (Inr (find (\<lambda>c. c_sha256 c = sha) (chunks d)))"

definition link_row :: "int \<Rightarrow> string \<Rightarrow> int \<Rightarrow> int \<Rightarrow> file_chunk" where
  "link_row i sha idx sz =
     \<lparr>fc_file_id = i, fc_sha256 = sha, fc_chunk_index = idx, fc_chunk_size = sz\<rparr>"

text \<open>The two foreign keys of a new row of \<open>file_chunks\<close>.\<close>

definition fk_ok :: "int \<Rightarrow> string \<Rightarrow> db \<Rightarrow> bool" where
  "fk_ok i sha d = ((\<exists>f \<in> set (files d). f_id f = i) \<and> (\<exists>c \<in> set (chunks d). c_sha256 c = sha))"

definition linked_sha :: "int \<Rightarrow> int \<Rightarrow> db \<Rightarrow> string option" where
  "linked_sha i idx d =
     map_option fc_sha256
       (find (\<lambda>r. fc_file_id r = i \<and> fc_chunk_index r = idx) (file_chunks d))"

definition add_ref :: "string \<Rightarrow> db \<Rightarrow> db" where
  "add_ref sha d =
     update_chunks (\<lambda>c. c_sha256 c = sha)
       (\<lambda>c. c\<lparr>c_ref_count := c_ref_count c + 1, c_orphaned_at := None\<rparr>) d"

definition drop_ref :: "string \<Rightarrow> db \<Rightarrow> db" where
  "drop_ref sha d =
     update_chunks (\<lambda>c. c_sha256 c = sha)
       (\<lambda>c. c\<lparr>c_ref_count := max 0 (c_ref_count c - 1)\<rparr>) d"

text \<open>
  \<open>INSERT OR IGNORE\<close> skips a row whose primary key exists; a foreign key violation is an
  error nevertheless. The two statements are not in a transaction.
\<close>

definition link_file_chunk :: "int \<Rightarrow> string \<Rightarrow> int \<Rightarrow> int \<Rightarrow> db \<Rightarrow> unit res \<times> db" where
  "link_file_chunk i sha idx sz d =
     with_conn_mut d
       (if linked_sha i idx d \<noteq> None then (Inr (), d)
        else if \<not> fk_ok i sha d then (Inl (DbError ForeignKeyViolation), d)
        else (Inr (), add_ref sha (d\<lparr>file_chunks := file_chunks d @ [link_row i sha idx sz]\<rparr>)))"

text \<open>
  \<open>ensure_chunk_and_link\<close>: one transaction. \<open>INSERT OR REPLACE\<close> deletes the row with the
  same primary key and inserts the new one. A foreign key violation rolls everything back.
\<close>

definition ensure_chunk_and_link ::
  "string \<Rightarrow> string \<Rightarrow> string \<Rightarrow> string \<Rightarrow> int \<Rightarrow> int \<Rightarrow> int \<Rightarrow> int \<Rightarrow> int \<Rightarrow> db \<Rightarrow> unit res \<times> db" where
  "ensure_chunk_and_link now sha backend path sz csize i idx chsize d =
     with_conn_mut d
       (let d1 = insert_chunk_or_ignore now sha backend path sz csize d;
            old = linked_sha i idx d1;
            d2 = (case old of
                    Some old_sha \<Rightarrow> if old_sha \<noteq> sha then drop_ref old_sha d1 else d1
                  | None \<Rightarrow> d1)
        in if old = Some sha then (Inr (), d2)
           else if \<not> fk_ok i sha d2 then (Inl (DbError ForeignKeyViolation), d)
           else (Inr (),
                 add_ref sha
                   (d2\<lparr>file_chunks :=
                         filter (\<lambda>r. \<not> (fc_file_id r = i \<and> fc_chunk_index r = idx)) (file_chunks d2)
                         @ [link_row i sha idx chsize]\<rparr>)))"

definition mark_chunk_orphaned :: "string \<Rightarrow> string \<Rightarrow> db \<Rightarrow> unit res \<times> db" where
  "mark_chunk_orphaned now sha d =
     with_conn_mut d
       (Inr (), update_chunks (\<lambda>c. c_sha256 c = sha) (\<lambda>c. c\<lparr>c_orphaned_at := Some now\<rparr>) d)"

definition clear_chunk_orphaned :: "string \<Rightarrow> db \<Rightarrow> unit res \<times> db" where
  "clear_chunk_orphaned sha d =
     with_conn_mut d
       (Inr (), update_chunks (\<lambda>c. c_sha256 c = sha) (\<lambda>c. c\<lparr>c_orphaned_at := None\<rparr>) d)"

definition get_file_chunks :: "int \<Rightarrow> db \<Rightarrow> file_chunk list res" where
  "get_file_chunks i d =
     with_conn d (Inr (sort_key fc_chunk_index (filter (\<lambda>r. fc_file_id r = i) (file_chunks d))))"

definition downloaded_size :: "int \<Rightarrow> db \<Rightarrow> int" where
  "downloaded_size i d =
     sum_list (map fc_chunk_size (filter (\<lambda>r. fc_file_id r = i) (file_chunks d)))"

definition get_file_downloaded_size :: "int \<Rightarrow> db \<Rightarrow> int res" where
  "get_file_downloaded_size i d = with_conn d (Inr (downloaded_size i d))"

definition is_chunk_linked :: "int \<Rightarrow> nat \<Rightarrow> db \<Rightarrow> string option res" where
  "is_chunk_linked i idx d = with_conn d (Inr (linked_sha i (u64_as_i64 idx) d))"

section \<open>Orphans, deletion of chunks, statistics\<close>

definition orphan_row :: "chunk \<Rightarrow> bool" where
  "orphan_row c = (c_ref_count c = 0 \<and> c_orphaned_at c \<noteq> None)"

definition orphan_rows :: "db \<Rightarrow> chunk list" where
  "orphan_rows d = sort_key (\<lambda>c. the (c_orphaned_at c)) (filter orphan_row (chunks d))"

definition get_orphan_chunks :: "db \<Rightarrow> chunk list res" where
  "get_orphan_chunks d = with_conn d (Inr (orphan_rows d))"

definition list_orphan_chunks_batch :: "nat \<Rightarrow> db \<Rightarrow> chunk list res" where
  "list_orphan_chunks_batch limit d =
     with_conn d (Inr (sql_limit (u64_as_i64 limit) (orphan_rows d)))"

text \<open>\<open>COALESCE(compressed_size, size)\<close>\<close>

definition stored_size :: "chunk \<Rightarrow> int" where
  "stored_size c = (case c_compressed_size c of Some n \<Rightarrow> n | None \<Rightarrow> c_size c)"

definition list_orphan_chunks_stats :: "db \<Rightarrow> (int \<times> int) res" where
  "list_orphan_chunks_stats d =
     with_conn d
       (Inr (count_rows orphan_row (chunks d),
             sum_list (map stored_size (filter orphan_row (chunks d)))))"

definition referenced :: "string \<Rightarrow> db \<Rightarrow> bool" where
  "referenced sha d = (\<exists>r \<in> set (file_chunks d). fc_sha256 r = sha)"

definition delete_chunk :: "string \<Rightarrow> db \<Rightarrow> bool res \<times> db" where
  "delete_chunk sha d =
     with_conn_mut d
       (let hit = (\<lambda>c. c_sha256 c = sha \<and> c_ref_count c = 0)
        in if \<exists>c \<in> set (chunks d). hit c \<and> referenced (c_sha256 c) d
           then (Inl (DbError ForeignKeyViolation), d)
           else (Inr (\<exists>c \<in> set (chunks d). hit c),
                 d\<lparr>chunks := filter (\<lambda>c. \<not> hit c) (chunks d)\<rparr>))"

definition delete_chunks_batch :: "string list \<Rightarrow> db \<Rightarrow> string list res \<times> db" where
  "delete_chunks_batch shas d =
     (if shas = [] then (Inr [], d)
      else with_conn_mut d
       (let deletable = map c_sha256
              (filter (\<lambda>c. c_ref_count c = 0 \<and> c_sha256 c \<in> set shas) (chunks d));
            hit = (\<lambda>c. c_ref_count c = 0 \<and> c_sha256 c \<in> set deletable)
        in if deletable = [] then (Inr [], d)
           else if \<exists>c \<in> set (chunks d). hit c \<and> referenced (c_sha256 c) d
           then (Inl (DbError ForeignKeyViolation), d)
           else (Inr deletable, d\<lparr>chunks := filter (\<lambda>c. \<not> hit c) (chunks d)\<rparr>)))"

text \<open>\<open>saturating_sub\<close> of two \<open>i64\<close>.\<close>

definition i64_saturating_sub :: "int \<Rightarrow> int \<Rightarrow> int" where
  "i64_saturating_sub a b = max (- (2 ^ 63)) (min (2 ^ 63 - 1) (a - b))"

definition get_stats :: "db \<Rightarrow> stats res" where
  "get_stats d =
     with_conn d
       (let original = sum_list (map f_total_size (files d));
            stored = sum_list (map stored_size (filter (\<lambda>c. c_ref_count c > 0) (chunks d)));
            saved = i64_saturating_sub original stored
        in Inr \<lparr>repo_count = int (length (remdups (map f_repo (files d)))),
                file_count = int (length (files d)),
                chunk_count = int (length (chunks d)),
                original_bytes = original, stored_bytes = stored, bytes_saved = saved,
                saved_percent =
                  (if original > 0
                   then f64_div (f64_mul (f64_of_int saved) 100) (f64_of_int original) else 0),
                st_fetched_bytes = 0, st_served_bytes = 0\<rparr>)"

section \<open>Reconciliation\<close>

definition actual_refs :: "db \<Rightarrow> string \<Rightarrow> int" where
  "actual_refs d sha = count_rows (\<lambda>r. fc_sha256 r = sha) (file_chunks d)"

text \<open>The rows of the \<open>SELECT\<close> at the start of the transaction.\<close>

definition reconcile_rows :: "db \<Rightarrow> (string \<times> int \<times> int \<times> string option) list" where
  "reconcile_rows d =
     map (\<lambda>c. (c_sha256 c, c_ref_count c, actual_refs d (c_sha256 c), c_orphaned_at c)) (chunks d)"

text \<open>One turn of the loop over them.\<close>

fun reconcile_row ::
  "string \<Rightarrow> bool \<Rightarrow> string \<times> int \<times> int \<times> string option \<Rightarrow> reconcile_result \<times> db \<Rightarrow>
   reconcile_result \<times> db" where
  "reconcile_row now dry (sha, ref_count, actual, orphaned) (res, d) =
     (let res = res\<lparr>scanned_chunks := scanned_chunks res + 1\<rparr>;
          ref_mismatch = (ref_count \<noteq> actual);
          should_clear = (actual > 0 \<and> orphaned \<noteq> None);
          should_mark = (actual = 0 \<and> orphaned = None)
      in if \<not> ref_mismatch \<and> \<not> should_clear \<and> \<not> should_mark then (res, d)
         else
           let res = (if ref_mismatch
                      then res\<lparr>mismatched_chunks := mismatched_chunks res + 1,
                               refcount_fixed := refcount_fixed res + 1\<rparr> else res);
               res = (if should_clear
                      then res\<lparr>orphaned_cleared := orphaned_cleared res + 1\<rparr> else res);
               res = (if should_mark
                      then res\<lparr>orphaned_marked := orphaned_marked res + 1\<rparr> else res)
           in if dry then (res, d)
              else
                let d = update_chunks (\<lambda>c. c_sha256 c = sha) (\<lambda>c. c\<lparr>c_ref_count := actual\<rparr>) d;
                    d = (if actual > 0
                         then update_chunks (\<lambda>c. c_sha256 c = sha) (\<lambda>c. c\<lparr>c_orphaned_at := None\<rparr>) d
                         else if orphaned = None
                         then update_chunks (\<lambda>c. c_sha256 c = sha)
                                (\<lambda>c. c\<lparr>c_orphaned_at := Some now\<rparr>) d
                         else d)
                in (res, d))"

definition reconcile_chunk_refs ::
  "string \<Rightarrow> bool \<Rightarrow> db \<Rightarrow> reconcile_result res \<times> db" where
  "reconcile_chunk_refs now dry d =
     with_conn_mut d
       (let (res, d') = fold (reconcile_row now dry) (reconcile_rows d) (reconcile_default, d)
        in (Inr res, if dry then d else d'))"

end
