(* ===== verification/Reach.thy ===== *)
theory Reach
  imports Main
begin

text \<open>
  Runs of the state machines of the development, and what an invariant of a machine is good for:
  the locale \<open>state_invariant\<close> is interpreted on the metadata database, on the table that shares
  downloads and on the single flight of probes.
\<close>

inductive reach :: "('s \<Rightarrow> 's \<Rightarrow> bool) \<Rightarrow> 's \<Rightarrow> 's \<Rightarrow> bool" for step where
  run_start: "reach step s s"
| run_step: "reach step s t \<Longrightarrow> step t u \<Longrightarrow> reach step s u"

text \<open>The step relation of a machine whose function says what an event does, if it can happen.\<close>

definition by_event :: "('e \<Rightarrow> 's \<Rightarrow> 's option) \<Rightarrow> 's \<Rightarrow> 's \<Rightarrow> bool" where
  "by_event f s t \<longleftrightarrow> (\<exists>ev. f ev s = Some t)"

lemma event_step: "reach (by_event f) s t \<Longrightarrow> f ev t = Some u \<Longrightarrow> reach (by_event f) s u"
  by (rule reach.run_step) (auto simp: by_event_def)

locale state_invariant =
  fixes step :: "'s \<Rightarrow> 's \<Rightarrow> bool" and inv :: "'s \<Rightarrow> bool"
  assumes inv_step: "step s t \<Longrightarrow> inv s \<Longrightarrow> inv t"
begin

lemma inv_reach: "reach step s t \<Longrightarrow> inv s \<Longrightarrow> inv t"
  by (induction rule: reach.induct) (auto intro: inv_step)

text \<open>A property that each step keeps in states with the invariant.\<close>

lemma kept:
  assumes "reach step s t" "\<And>u v. inv u \<Longrightarrow> P u \<Longrightarrow> step u v \<Longrightarrow> P v" "inv s" "P s"
  shows "P t"
  using assms(1,3,4) by (induction rule: reach.induct) (auto intro: assms(2) inv_reach)

end

end
