(* ===== verification/Metadata_Inv.thy ===== *)
theory Metadata_Inv
  imports Metadata Reach
begin

text \<open>
  The invariant of the metadata database: the keys of the three tables identify their rows,
  every link points at an existing file and chunk, and the reference count of every chunk is
  the number of links to it. Every operation that writes keeps it; the step relation
  \<open>db_step\<close> has one rule per operation, and the invariant of the reachable databases is the
  rule induction over it.
\<close>

section \<open>The invariant\<close>

definition db_wf :: "db \<Rightarrow> bool" where
  "db_wf d \<longleftrightarrow>
     distinct (map f_id (files d)) \<and>
     distinct (map (\<lambda>f. (f_name f, f_source f)) (files d)) \<and>
     (\<forall>f \<in> set (files d). f_id f \<le> last_file_id d) \<and>
     distinct (map c_sha256 (chunks d)) \<and>
     distinct (map (\<lambda>r. (fc_file_id r, fc_chunk_index r)) (file_chunks d)) \<and>
     (\<forall>r \<in> set (file_chunks d). fk_ok (fc_file_id r) (fc_sha256 r) d)"

definition refs_exact :: "db \<Rightarrow> bool" where
  "refs_exact d \<longleftrightarrow> (\<forall>c \<in> set (chunks d). c_ref_count c = actual_refs d (c_sha256 c))"

definition db_inv :: "db \<Rightarrow> bool" where
  "db_inv d \<longleftrightarrow> db_wf d \<and> refs_exact d"

text \<open>The orphan mark agrees with the reference count, in each direction.\<close>

definition orphans_sound :: "db \<Rightarrow> bool" where
  "orphans_sound d \<longleftrightarrow> (\<forall>c \<in> set (chunks d). c_orphaned_at c \<noteq> None \<longrightarrow> c_ref_count c = 0)"

definition orphans_marked :: "db \<Rightarrow> bool" where
  "orphans_marked d \<longleftrightarrow> (\<forall>c \<in> set (chunks d). c_ref_count c = 0 \<longrightarrow> c_orphaned_at c \<noteq> None)"

lemma with_conn_mut_snd: "snd (with_conn_mut d r) = (if poisoned d then d else snd r)"
  by (simp add: with_conn_mut_def)

lemma with_conn_mut_open [simp]: "\<not> poisoned d \<Longrightarrow> with_conn_mut d r = r"
  by (simp add: with_conn_mut_def)

lemma with_conn_open [simp]: "\<not> poisoned d \<Longrightarrow> with_conn d r = r"
  by (simp add: with_conn_def)

section \<open>Updates of rows\<close>

lemma update_chunks_sel [simp]:
  "files (update_chunks P f d) = files d" "file_chunks (update_chunks P f d) = file_chunks d"
  "last_file_id (update_chunks P f d) = last_file_id d" "poisoned (update_chunks P f d) = poisoned d"
  by (simp_all add: update_chunks_def)

lemma update_files_sel [simp]:
  "chunks (update_files P f d) = chunks d" "file_chunks (update_files P f d) = file_chunks d"
  "last_file_id (update_files P f d) = last_file_id d" "poisoned (update_files P f d) = poisoned d"
  by (simp_all add: update_files_def)

lemma chunks_update_chunks: "chunks (update_chunks P f d) = map (\<lambda>c. if P c then f c else c) (chunks d)"
  by (simp add: update_chunks_def)

lemma sha_update_chunks [simp]:
  "(\<And>c. c_sha256 (f c) = c_sha256 c) \<Longrightarrow>
     map c_sha256 (chunks (update_chunks P f d)) = map c_sha256 (chunks d)"
  by (simp add: update_chunks_def)

lemma actual_refs_update [simp]:
  "actual_refs (update_chunks P f d) = actual_refs d"
  "actual_refs (update_files Q g d) = actual_refs d"
  by (simp_all add: actual_refs_def fun_eq_iff)

lemma fk_ok_keys:
  "fk_ok i sha d \<longleftrightarrow> i \<in> set (map f_id (files d)) \<and> sha \<in> set (map c_sha256 (chunks d))"
  by (auto simp: fk_ok_def)

lemma fk_ok_update_chunks [simp]:
  "(\<And>c. c_sha256 (f c) = c_sha256 c) \<Longrightarrow> fk_ok i sha (update_chunks P f d) = fk_ok i sha d"
  unfolding fk_ok_keys by (simp only: sha_update_chunks update_chunks_sel)

lemma db_wf_update_chunks [simp]:
  "(\<And>c. c_sha256 (f c) = c_sha256 c) \<Longrightarrow> db_wf (update_chunks P f d) = db_wf d"
  by (simp add: db_wf_def)

lemma db_inv_update_chunks:
  "(\<And>c. c_sha256 (f c) = c_sha256 c) \<Longrightarrow> (\<And>c. c_ref_count (f c) = c_ref_count c) \<Longrightarrow>
     db_inv (update_chunks P f d) = db_inv d"
  by (auto simp: db_inv_def refs_exact_def chunks_update_chunks simp del: if_image_distrib)

text \<open>An update of files that keeps their keys.\<close>

lemma db_inv_update_files:
  assumes "\<And>f. f_id (g f) = f_id f" "\<And>f. f_name (g f) = f_name f" "\<And>f. f_source (g f) = f_source f"
  shows "db_inv (update_files P g d) = db_inv d"
proof -
  have keys: "map f_id (files (update_files P g d)) = map f_id (files d)"
    "map (\<lambda>f. (f_name f, f_source f)) (files (update_files P g d)) =
       map (\<lambda>f. (f_name f, f_source f)) (files d)"
    using assms by (simp_all add: update_files_def)
  have bound: "(\<forall>f \<in> set (files (update_files P g d)). f_id f \<le> n) \<longleftrightarrow>
      (\<forall>f \<in> set (files d). f_id f \<le> n)" for n
    using assms(1) by (auto simp: update_files_def simp del: if_image_distrib)
  have "fk_ok i sha (update_files P g d) = fk_ok i sha d" for i sha
    unfolding fk_ok_keys keys by simp
  with keys bound show ?thesis
    by (simp add: db_inv_def db_wf_def refs_exact_def)
qed

section \<open>Operations on files\<close>

lemma add_file_inv: "db_inv d \<Longrightarrow> db_inv (snd (add_file now name repo n src d))"
proof -
  assume inv: "db_inv d"
  then have ids: "\<forall>f \<in> set (files d). f_id f \<noteq> last_file_id d + 1"
    by (fastforce simp: db_inv_def db_wf_def)
  show ?thesis
    using inv ids
    by (auto simp: add_file_def with_conn_mut_def Let_def db_inv_def db_wf_def refs_exact_def
        fk_ok_def actual_refs_def image_iff intro: order_trans)
qed

lemma set_file_headers_inv:
  "db_inv d \<Longrightarrow> db_inv (snd (set_file_headers name src e c ls le ct d))"
  by (simp add: set_file_headers_def with_conn_mut_def db_inv_update_files)

lemma touch_repo_inv: "db_inv d \<Longrightarrow> db_inv (snd (touch_repo now repo d))"
  by (simp add: touch_repo_def with_conn_mut_def db_inv_update_files)

text \<open>What the deletion of a file does to each table.\<close>

lemma delete_tx_sel:
  "files (delete_file_by_id_tx now i d) = filter (\<lambda>f. f_id f \<noteq> i) (files d)"
  "file_chunks (delete_file_by_id_tx now i d) = filter (\<lambda>r. fc_file_id r \<noteq> i) (file_chunks d)"
  "last_file_id (delete_file_by_id_tx now i d) = last_file_id d"
  "poisoned (delete_file_by_id_tx now i d) = poisoned d"
  "map c_sha256 (chunks (delete_file_by_id_tx now i d)) = map c_sha256 (chunks d)"
  by (simp_all add: delete_file_by_id_tx_def Let_def update_chunks_def)

lemma delete_tx_chunks:
  "chunks (delete_file_by_id_tx now i d) =
     map (\<lambda>c. if refs_lost i (c_sha256 c) d > 0
              then c\<lparr>c_ref_count := c_ref_count c - refs_lost i (c_sha256 c) d,
                      c_orphaned_at :=
                        (if c_ref_count c - refs_lost i (c_sha256 c) d = 0 then Some now
                         else c_orphaned_at c)\<rparr>
              else c) (chunks d)"
  by (simp add: delete_file_by_id_tx_def Let_def update_chunks_def)

lemma actual_refs_delete_tx:
  "actual_refs (delete_file_by_id_tx now i d) sha = actual_refs d sha - refs_lost i sha d"
proof -
  have "actual_refs d sha = refs_lost i sha d + actual_refs (delete_file_by_id_tx now i d) sha"
    unfolding actual_refs_def refs_lost_def delete_tx_sel count_rows_filter
    by (rule count_rows_split)
  then show ?thesis by simp
qed

lemma delete_tx_wf: "db_wf d \<Longrightarrow> db_wf (delete_file_by_id_tx now i d)"
  unfolding db_wf_def fk_ok_keys delete_tx_sel
  by (auto intro: distinct_map_filter)

lemma delete_tx_refs: "refs_exact d \<Longrightarrow> refs_exact (delete_file_by_id_tx now i d)"
proof -
  assume "refs_exact d"
  moreover have "refs_lost i sha d = 0" if "\<not> 0 < refs_lost i sha d" for sha
    using that count_rows_nonneg [of _ "file_chunks d"] by (simp add: refs_lost_def order.antisym not_less)
  ultimately show ?thesis
    by (auto simp: refs_exact_def delete_tx_chunks actual_refs_delete_tx)
qed

lemma delete_tx_inv: "db_inv d \<Longrightarrow> db_inv (delete_file_by_id_tx now i d)"
  by (simp add: db_inv_def delete_tx_wf delete_tx_refs)

lemma delete_file_inv: "db_inv d \<Longrightarrow> db_inv (snd (delete_file now name src d))"
  by (auto simp: delete_file_def with_conn_mut_def delete_tx_inv split: option.split)

lemma fold_delete_inv: "db_inv d \<Longrightarrow> db_inv (fold (delete_file_by_id_tx now) ids d)"
  by (induction ids arbitrary: d) (simp_all add: delete_tx_inv)

lemma delete_files_by_repo_inv: "db_inv d \<Longrightarrow> db_inv (snd (delete_files_by_repo now repo d))"
  by (simp add: delete_files_by_repo_def with_conn_mut_def Let_def fold_delete_inv)

section \<open>Operations on chunks and links\<close>

lemma wf_unreferenced: "db_wf d \<Longrightarrow> sha \<notin> c_sha256 ` set (chunks d) \<Longrightarrow> actual_refs d sha = 0"
  by (auto simp: actual_refs_def count_rows_eq_0 db_wf_def fk_ok_keys)

lemma insert_chunk_sel [simp]:
  "files (insert_chunk_or_ignore now sha b p n m d) = files d"
  "file_chunks (insert_chunk_or_ignore now sha b p n m d) = file_chunks d"
  "last_file_id (insert_chunk_or_ignore now sha b p n m d) = last_file_id d"
  "poisoned (insert_chunk_or_ignore now sha b p n m d) = poisoned d"
  "actual_refs (insert_chunk_or_ignore now sha b p n m d) = actual_refs d"
  "linked_sha i idx (insert_chunk_or_ignore now sha b p n m d) = linked_sha i idx d"
  by (simp_all add: insert_chunk_or_ignore_def actual_refs_def linked_sha_def fun_eq_iff)

lemma insert_chunk_keys:
  "c_sha256 ` set (chunks (insert_chunk_or_ignore now sha b p n m d)) =
     insert sha (c_sha256 ` set (chunks d))"
  by (auto simp: insert_chunk_or_ignore_def)

lemma insert_chunk_inv: "db_inv d \<Longrightarrow> db_inv (insert_chunk_or_ignore now sha b p n m d)"
proof (cases "\<exists>c \<in> set (chunks d). c_sha256 c = sha")
  case True
  then show "db_inv d \<Longrightarrow> ?thesis" by (simp add: insert_chunk_or_ignore_def)
next
  case False
  moreover assume inv: "db_inv d"
  ultimately have "actual_refs d sha = 0" by (auto simp: db_inv_def intro!: wf_unreferenced)
  with False inv show ?thesis
    by (auto simp: insert_chunk_or_ignore_def db_inv_def db_wf_def refs_exact_def fk_ok_def
        actual_refs_def)
qed

lemma ensure_chunk_inv: "db_inv d \<Longrightarrow> db_inv (snd (ensure_chunk now sha b p n m d))"
  by (simp add: ensure_chunk_def with_conn_mut_def insert_chunk_inv)

text \<open>
  Replacing or adding the link of one position: the number of links to a chunk changes by
  one for the old chunk and for the new one.
\<close>

definition relink :: "int \<Rightarrow> string \<Rightarrow> int \<Rightarrow> int \<Rightarrow> file_chunk list \<Rightarrow> file_chunk list" where
  "relink i sha idx n rs =
     filter (\<lambda>r. \<not> (fc_file_id r = i \<and> fc_chunk_index r = idx)) rs @ [link_row i sha idx n]"

lemma link_row_sel [simp]:
  "fc_file_id (link_row i sha idx n) = i" "fc_sha256 (link_row i sha idx n) = sha"
  "fc_chunk_index (link_row i sha idx n) = idx" "fc_chunk_size (link_row i sha idx n) = n"
  by (simp_all add: link_row_def)

lemma count_relink:
  assumes "db_wf d"
  shows "count_rows (\<lambda>r. fc_sha256 r = x) (relink i sha idx n (file_chunks d)) =
    actual_refs d x - (if linked_sha i idx d = Some x then 1 else 0) + (if sha = x then 1 else 0)"
proof -
  let ?k = "\<lambda>r. (fc_file_id r, fc_chunk_index r)"
  have "count_rows (\<lambda>r. ?k r = (i, idx) \<and> fc_sha256 r = x) (file_chunks d) =
      (if linked_sha i idx d = Some x then 1 else 0)"
    using assms unfolding linked_sha_def find_pair_key
    by (subst count_rows_key) (auto simp: db_wf_def split: option.split)
  moreover have "actual_refs d x = count_rows (\<lambda>r. ?k r = (i, idx) \<and> fc_sha256 r = x) (file_chunks d)
      + count_rows (\<lambda>r. \<not> ?k r = (i, idx) \<and> fc_sha256 r = x) (file_chunks d)"
    unfolding actual_refs_def by (rule count_rows_split)
  ultimately show ?thesis
    by (simp add: relink_def count_rows_filter)
qed

lemma relink_keys:
  "distinct (map (\<lambda>r. (fc_file_id r, fc_chunk_index r)) rs) \<Longrightarrow>
     distinct (map (\<lambda>r. (fc_file_id r, fc_chunk_index r)) (relink i sha idx n rs))"
  by (auto simp: relink_def intro: distinct_map_filter)

lemma linked_sha_row:
  "linked_sha i idx d = Some sha \<Longrightarrow>
     \<exists>r \<in> set (file_chunks d). fc_file_id r = i \<and> fc_chunk_index r = idx \<and> fc_sha256 r = sha"
  by (auto simp: linked_sha_def find_Some_iff)

lemma linked_sha_refs: "linked_sha i idx d = Some sha \<Longrightarrow> 0 < actual_refs d sha"
  by (auto simp: actual_refs_def count_rows_pos dest: linked_sha_row)

text \<open>The state after a position has been linked to \<open>sha\<close>.\<close>

definition linked_state :: "int \<Rightarrow> string \<Rightarrow> int \<Rightarrow> int \<Rightarrow> db \<Rightarrow> db" where
  "linked_state i sha idx n d =
     (let d2 = (case linked_sha i idx d of Some old_sha \<Rightarrow> drop_ref old_sha d | None \<Rightarrow> d)
      in add_ref sha (d2\<lparr>file_chunks := relink i sha idx n (file_chunks d2)\<rparr>))"

lemma linked_state_sel:
  "files (linked_state i sha idx n d) = files d"
  "file_chunks (linked_state i sha idx n d) = relink i sha idx n (file_chunks d)"
  "last_file_id (linked_state i sha idx n d) = last_file_id d"
  "poisoned (linked_state i sha idx n d) = poisoned d"
  "map c_sha256 (chunks (linked_state i sha idx n d)) = map c_sha256 (chunks d)"
  by (simp_all add: linked_state_def add_ref_def drop_ref_def Let_def update_chunks_def
      split: option.split)

lemma linked_state_wf: "db_wf d \<Longrightarrow> fk_ok i sha d \<Longrightarrow> db_wf (linked_state i sha idx n d)"
  unfolding db_wf_def fk_ok_keys linked_state_sel
  by (auto intro: relink_keys) (auto simp: relink_def)

lemma linked_state_refs:
  assumes inv: "db_inv d" and new: "linked_sha i idx d \<noteq> Some sha"
  shows "refs_exact (linked_state i sha idx n d)"
proof -
  have "actual_refs (linked_state i sha idx n d) x =
      actual_refs d x - (if linked_sha i idx d = Some x then 1 else 0) + (if sha = x then 1 else 0)"
    for x
    using inv by (simp add: actual_refs_def linked_state_sel db_inv_def)
      (simp add: count_relink actual_refs_def)
  moreover have "0 < actual_refs d x" if "linked_sha i idx d = Some x" for x
    using that by (rule linked_sha_refs)
  ultimately show ?thesis
    using inv new
    by (auto simp: refs_exact_def db_inv_def linked_state_def add_ref_def drop_ref_def
        Let_def update_chunks_def simp del: if_image_distrib split: option.splits)
qed

lemma linked_state_inv:
  "db_inv d \<Longrightarrow> fk_ok i sha d \<Longrightarrow> linked_sha i idx d \<noteq> Some sha \<Longrightarrow>
     db_inv (linked_state i sha idx n d)"
  by (simp add: db_inv_def linked_state_wf) (simp add: linked_state_refs db_inv_def)

lemma relink_fresh:
  "linked_sha i idx d = None \<Longrightarrow> relink i sha idx n (file_chunks d) = file_chunks d @ [link_row i sha idx n]"
  by (auto simp: relink_def linked_sha_def find_None_iff filter_id_conv)

lemma link_file_chunk_eq:
  assumes "\<not> poisoned d"
  shows "link_file_chunk i sha idx n d =
    (if linked_sha i idx d \<noteq> None then (Inr (), d)
     else if fk_ok i sha d then (Inr (), linked_state i sha idx n d)
     else (Inl (DbError ForeignKeyViolation), d))"
  using assms by (simp add: link_file_chunk_def linked_state_def relink_fresh)

lemma link_file_chunk_inv: "db_inv d \<Longrightarrow> db_inv (snd (link_file_chunk i sha idx n d))"
  by (cases "poisoned d")
    (simp_all add: link_file_chunk_eq linked_state_inv, simp add: link_file_chunk_def with_conn_mut_def)

text \<open>The transaction in terms of \<open>linked_state\<close>, branch by branch.\<close>

lemma fk_ok_insert [simp]:
  "fk_ok i sha (insert_chunk_or_ignore now sha b p n m d) = (\<exists>f \<in> set (files d). f_id f = i)"
  by (auto simp: fk_ok_def insert_chunk_or_ignore_def)

lemma fk_ok_drop_ref [simp]: "fk_ok i sha (drop_ref x d) = fk_ok i sha d"
  by (simp add: drop_ref_def)

lemma ensure_chunk_and_link_eq:
  fixes d now sha b p sz csz
  defines "d1 \<equiv> insert_chunk_or_ignore now sha b p sz csz d"
  assumes "\<not> poisoned d"
  shows "ensure_chunk_and_link now sha b p sz csz i idx n d =
    (if linked_sha i idx d = Some sha then (Inr (), d1)
     else if \<exists>f \<in> set (files d). f_id f = i then (Inr (), linked_state i sha idx n d1)
     else (Inl (DbError ForeignKeyViolation), d))"
  using assms(2)
  by (auto simp: ensure_chunk_and_link_def linked_state_def relink_def d1_def Let_def
      split: option.split)

lemma ensure_chunk_and_link_inv:
  "db_inv d \<Longrightarrow> db_inv (snd (ensure_chunk_and_link now sha b p sz csz i idx n d))"
  by (cases "poisoned d")
    (simp_all add: ensure_chunk_and_link_eq insert_chunk_inv linked_state_inv,
     simp add: ensure_chunk_and_link_def with_conn_mut_def)

lemma mark_chunk_orphaned_inv: "db_inv d \<Longrightarrow> db_inv (snd (mark_chunk_orphaned now sha d))"
  by (simp add: mark_chunk_orphaned_def with_conn_mut_def db_inv_update_chunks)

lemma clear_chunk_orphaned_inv: "db_inv d \<Longrightarrow> db_inv (snd (clear_chunk_orphaned sha d))"
  by (simp add: clear_chunk_orphaned_def with_conn_mut_def db_inv_update_chunks)

section \<open>Deleting chunks\<close>

lemma referenced_iff: "referenced sha d \<longleftrightarrow> 0 < actual_refs d sha"
  by (simp add: referenced_def actual_refs_def count_rows_pos)

lemma inv_unreferenced:
  "db_inv d \<Longrightarrow> c \<in> set (chunks d) \<Longrightarrow> c_ref_count c = 0 \<Longrightarrow> \<not> referenced (c_sha256 c) d"
  by (simp add: referenced_iff db_inv_def refs_exact_def)

lemma drop_chunks_inv:
  assumes inv: "db_inv d" and un: "\<And>c. c \<in> set (chunks d) \<Longrightarrow> \<not> Q c \<Longrightarrow> \<not> referenced (c_sha256 c) d"
  shows "db_inv (d\<lparr>chunks := filter Q (chunks d)\<rparr>)"
proof -
  have "fk_ok (fc_file_id r) (fc_sha256 r) (d\<lparr>chunks := filter Q (chunks d)\<rparr>)"
    if r: "r \<in> set (file_chunks d)" for r
  proof -
    have "fk_ok (fc_file_id r) (fc_sha256 r) d" using inv r by (simp add: db_inv_def db_wf_def)
    moreover have "referenced (fc_sha256 r) d" using r by (auto simp: referenced_def)
    ultimately show ?thesis using un by (fastforce simp: fk_ok_def)
  qed
  with inv show ?thesis
    by (auto simp: db_inv_def db_wf_def refs_exact_def actual_refs_def intro: distinct_map_filter)
qed

lemma delete_chunk_inv: "db_inv d \<Longrightarrow> db_inv (snd (delete_chunk sha d))"
  by (auto simp: delete_chunk_def with_conn_mut_def Let_def dest: inv_unreferenced
      intro!: drop_chunks_inv)

lemma delete_chunks_batch_inv: "db_inv d \<Longrightarrow> db_inv (snd (delete_chunks_batch shas d))"
  by (auto simp: delete_chunks_batch_def with_conn_mut_def Let_def dest: inv_unreferenced
      intro!: drop_chunks_inv)

text \<open>
  Under the invariant the batch never hits a foreign key: it deletes the unreferenced chunks
  it was asked for and returns their names.
\<close>

lemma delete_chunks_batch_eq:
  assumes "db_inv d" "\<not> poisoned d"
  shows "delete_chunks_batch shas d =
    (Inr (map c_sha256 (filter (\<lambda>c. c_ref_count c = 0 \<and> c_sha256 c \<in> set shas) (chunks d))),
     d\<lparr>chunks := filter (\<lambda>c. \<not> (c_ref_count c = 0 \<and> c_sha256 c \<in> set shas)) (chunks d)\<rparr>)"
proof -
  let ?del = "filter (\<lambda>c. c_ref_count c = 0 \<and> c_sha256 c \<in> set shas) (chunks d)"
  have same: "c_ref_count c = 0 \<and> c_sha256 c \<in> set (map c_sha256 ?del) \<longleftrightarrow>
      c_ref_count c = 0 \<and> c_sha256 c \<in> set shas" if "c \<in> set (chunks d)" for c
    using that by auto
  have filt: "filter (\<lambda>c. \<not> (c_ref_count c = 0 \<and> c_sha256 c \<in> set (map c_sha256 ?del))) (chunks d) =
      filter (\<lambda>c. \<not> (c_ref_count c = 0 \<and> c_sha256 c \<in> set shas)) (chunks d)"
    using same by (intro filter_cong) auto
  have nofk: "\<not> (\<exists>c \<in> set (chunks d). (c_ref_count c = 0 \<and> c_sha256 c \<in> set (map c_sha256 ?del))
      \<and> referenced (c_sha256 c) d)"
    using inv_unreferenced [OF assms(1)] by blast
  show ?thesis
  proof (cases "map c_sha256 ?del = []")
    case True
    then have "filter (\<lambda>c. \<not> (c_ref_count c = 0 \<and> c_sha256 c \<in> set shas)) (chunks d) = chunks d"
      by (auto simp: filter_id_conv filter_empty_conv)
    with True assms(2) show ?thesis
      by (auto simp: delete_chunks_batch_def Let_def)
  next
    case False
    then have "shas \<noteq> []" by auto
    with False nofk filt assms(2) show ?thesis
      unfolding delete_chunks_batch_def Let_def by (simp del: set_map)
  qed
qed

section \<open>Reconciliation\<close>

text \<open>What the repair makes of a row, given the number of links to it.\<close>

definition repaired :: "string \<Rightarrow> db \<Rightarrow> chunk \<Rightarrow> chunk" where
  "repaired now d c =
     c\<lparr>c_ref_count := actual_refs d (c_sha256 c),
       c_orphaned_at := (if actual_refs d (c_sha256 c) > 0 then None
                         else if c_orphaned_at c = None then Some now else c_orphaned_at c)\<rparr>"

definition reconcile_data :: "db \<Rightarrow> chunk \<Rightarrow> string \<times> int \<times> int \<times> string option" where
  "reconcile_data d c = (c_sha256 c, c_ref_count c, actual_refs d (c_sha256 c), c_orphaned_at c)"

definition mismatch :: "db \<Rightarrow> chunk \<Rightarrow> bool" where
  "mismatch d c = (c_ref_count c \<noteq> actual_refs d (c_sha256 c))"

definition stale_mark :: "db \<Rightarrow> chunk \<Rightarrow> bool" where
  "stale_mark d c = (actual_refs d (c_sha256 c) > 0 \<and> c_orphaned_at c \<noteq> None)"

definition missing_mark :: "db \<Rightarrow> chunk \<Rightarrow> bool" where
  "missing_mark d c = (actual_refs d (c_sha256 c) = 0 \<and> c_orphaned_at c = None)"

lemmas reconcile_tests = mismatch_def stale_mark_def missing_mark_def

lemma actual_refs_nonneg [simp]: "0 \<le> actual_refs d sha"
  by (simp add: actual_refs_def)

lemma actual_refs_pos: "0 < actual_refs d sha \<longleftrightarrow> actual_refs d sha \<noteq> 0"
  using actual_refs_nonneg [of d sha] by linarith

lemma repaired_sha [simp]: "c_sha256 (repaired now d c) = c_sha256 c"
  by (simp add: repaired_def)

lemma repaired_id: "\<not> mismatch d c \<Longrightarrow> \<not> stale_mark d c \<Longrightarrow> \<not> missing_mark d c \<Longrightarrow> repaired now d c = c"
  by (cases c) (auto simp: reconcile_tests repaired_def actual_refs_pos)

text \<open>The report of one turn does not depend on the mode or on the table.\<close>

definition report_row :: "db \<Rightarrow> chunk \<Rightarrow> reconcile_result \<Rightarrow> reconcile_result" where
  "report_row d c res =
     \<lparr>scanned_chunks = scanned_chunks res + 1,
      mismatched_chunks = mismatched_chunks res + (if mismatch d c then 1 else 0),
      refcount_fixed = refcount_fixed res + (if mismatch d c then 1 else 0),
      orphaned_marked = orphaned_marked res + (if missing_mark d c then 1 else 0),
      orphaned_cleared = orphaned_cleared res + (if stale_mark d c then 1 else 0)\<rparr>"

lemma reconcile_row_report:
  "fst (reconcile_row now dry (reconcile_data d c) (res, x)) = report_row d c res"
  by (simp add: reconcile_data_def report_row_def reconcile_tests Let_def)

lemma reconcile_row_dry:
  "snd (reconcile_row now True (reconcile_data d c) (res, x)) = x"
  by (simp add: reconcile_data_def Let_def)

lemma update_chunks_twice:
  assumes "\<And>c. c_sha256 (f c) = c_sha256 c"
  shows "update_chunks (\<lambda>c. c_sha256 c = sha) g (update_chunks (\<lambda>c. c_sha256 c = sha) f d) =
    update_chunks (\<lambda>c. c_sha256 c = sha) (g \<circ> f) d"
  using assms by (simp add: update_chunks_def)

lemma reconcile_row_apply:
  assumes "chunks x = xs @ c # ys" "c_sha256 c \<notin> c_sha256 ` (set xs \<union> set ys)"
  shows "snd (reconcile_row now False (reconcile_data d c) (res, x)) =
    x\<lparr>chunks := xs @ repaired now d c # ys\<rparr>"
proof -
  have upd: "update_chunks (\<lambda>r. c_sha256 r = c_sha256 c) f x = x\<lparr>chunks := xs @ f c # ys\<rparr>" for f
  proof -
    have "map (\<lambda>r. if c_sha256 r = c_sha256 c then f r else r) zs = zs"
      if "c_sha256 c \<notin> c_sha256 ` set zs" for zs
      using that by (intro map_idI) (auto simp: image_iff)
    moreover have "c_sha256 c \<notin> c_sha256 ` set xs" "c_sha256 c \<notin> c_sha256 ` set ys"
      using assms(2) by auto
    ultimately show ?thesis using assms(1) by (simp add: update_chunks_def)
  qed
  show ?thesis
  proof (cases "mismatch d c \<or> stale_mark d c \<or> missing_mark d c")
    case True
    moreover have "c\<lparr>c_ref_count := n, c_orphaned_at := c_orphaned_at c\<rparr> = c\<lparr>c_ref_count := n\<rparr>" for n
      by (cases c) simp
    then have keep: "c\<lparr>c_ref_count := n, c_orphaned_at := Some t\<rparr> = c\<lparr>c_ref_count := n\<rparr>"
      if "c_orphaned_at c = Some t" for n t
      using that by metis
    ultimately show ?thesis
      by (auto simp: reconcile_data_def Let_def update_chunks_twice reconcile_tests actual_refs_pos)
        (simp_all add: upd repaired_def keep actual_refs_pos)
  next
    case False
    moreover from this have "repaired now d c = c" by (simp add: repaired_id)
    ultimately show ?thesis
      using assms(1) by (simp add: reconcile_data_def Let_def reconcile_tests)
  qed
qed

lemma reconcile_fold_report:
  "fst (fold (reconcile_row now dry) (map (reconcile_data d) cs) (res, x)) =
     fold (report_row d) cs res"
proof (induction cs arbitrary: res x)
  case (Cons c cs)
  have "reconcile_row now dry (reconcile_data d c) (res, x) =
      (report_row d c res, snd (reconcile_row now dry (reconcile_data d c) (res, x)))"
    by (metis prod.collapse reconcile_row_report)
  with Cons show ?case by (simp del: reconcile_row.simps) metis
qed simp

lemma reconcile_fold_apply:
  assumes "chunks x = xs @ cs" "distinct (map c_sha256 (xs @ cs))"
  shows "snd (fold (reconcile_row now False) (map (reconcile_data d) cs) (res, x)) =
    x\<lparr>chunks := xs @ map (repaired now d) cs\<rparr>"
  using assms
proof (induction cs arbitrary: res x xs)
  case (Cons c cs)
  let ?x = "x\<lparr>chunks := xs @ repaired now d c # cs\<rparr>"
  have step: "reconcile_row now False (reconcile_data d c) (res, x) = (report_row d c res, ?x)"
    using reconcile_row_apply [OF Cons.prems(1), of now d res] Cons.prems(2)
    by (intro prod_eqI) (auto simp: reconcile_row_report simp del: reconcile_row.simps)
  have "snd (fold (reconcile_row now False) (map (reconcile_data d) cs) (report_row d c res, ?x)) =
      ?x\<lparr>chunks := (xs @ [repaired now d c]) @ map (repaired now d) cs\<rparr>"
    using Cons.prems(2) by (intro Cons.IH) auto
  with step show ?case by (simp del: reconcile_row.simps)
qed simp

lemma fold_report:
  "fold (report_row d) cs res =
     \<lparr>scanned_chunks = scanned_chunks res + length cs,
      mismatched_chunks = mismatched_chunks res + length (filter (mismatch d) cs),
      refcount_fixed = refcount_fixed res + length (filter (mismatch d) cs),
      orphaned_marked = orphaned_marked res + length (filter (missing_mark d) cs),
      orphaned_cleared = orphaned_cleared res + length (filter (stale_mark d) cs)\<rparr>"
  by (induction cs arbitrary: res) (simp_all add: report_row_def)

definition reconcile_report :: "db \<Rightarrow> reconcile_result" where
  "reconcile_report d =
     \<lparr>scanned_chunks = length (chunks d),
      mismatched_chunks = length (filter (mismatch d) (chunks d)),
      refcount_fixed = length (filter (mismatch d) (chunks d)),
      orphaned_marked = length (filter (missing_mark d) (chunks d)),
      orphaned_cleared = length (filter (stale_mark d) (chunks d))\<rparr>"

lemma reconcile_rows_data: "reconcile_rows d = map (reconcile_data d) (chunks d)"
  by (simp add: reconcile_rows_def reconcile_data_def fun_eq_iff)

lemma reconcile_dry_eq:
  assumes "\<not> poisoned d"
  shows "reconcile_chunk_refs now True d = (Inr (reconcile_report d), d)"
  using assms reconcile_fold_report [of now True d "chunks d" reconcile_default d]
  by (simp add: reconcile_chunk_refs_def reconcile_rows_data fold_report reconcile_report_def
      reconcile_default_def case_prod_unfold)

lemma reconcile_apply_eq:
  assumes "\<not> poisoned d" "distinct (map c_sha256 (chunks d))"
  shows "reconcile_chunk_refs now False d =
    (Inr (reconcile_report d), d\<lparr>chunks := map (repaired now d) (chunks d)\<rparr>)"
  using assms reconcile_fold_report [of now False d "chunks d" reconcile_default d]
    reconcile_fold_apply [of d "[]" "chunks d" now d reconcile_default]
  by (simp add: reconcile_chunk_refs_def reconcile_rows_data fold_report reconcile_report_def
      reconcile_default_def case_prod_unfold)

lemma repaired_table:
  fixes d :: db and now :: string
  assumes "db_wf d"
  defines "d' \<equiv> d\<lparr>chunks := map (repaired now d) (chunks d)\<rparr>"
  shows "db_inv d'" "orphans_sound d'" "orphans_marked d'"
proof -
  have sha: "map c_sha256 (chunks d') = map c_sha256 (chunks d)" by (simp add: d'_def)
  have refs: "actual_refs d' = actual_refs d" by (simp add: d'_def actual_refs_def fun_eq_iff)
  have "db_wf d'"
    using assms(1) unfolding db_wf_def fk_ok_keys sha by (simp add: d'_def)
  moreover have "refs_exact d'"
    unfolding refs_exact_def refs by (simp add: d'_def) (simp add: repaired_def)
  ultimately show "db_inv d'" by (simp add: db_inv_def)
  show "orphans_sound d'" "orphans_marked d'"
    by (auto simp: orphans_sound_def orphans_marked_def d'_def repaired_def actual_refs_pos
        split: if_splits)
qed

lemma reconcile_inv: "db_inv d \<Longrightarrow> db_inv (snd (reconcile_chunk_refs now dry d))"
proof -
  assume inv: "db_inv d"
  then have "distinct (map c_sha256 (chunks d))" "db_wf d" by (simp_all add: db_inv_def db_wf_def)
  with inv show ?thesis
    by (cases "poisoned d"; cases dry)
      (simp_all add: reconcile_dry_eq reconcile_apply_eq repaired_table,
       simp_all add: reconcile_chunk_refs_def with_conn_mut_def)
qed

section \<open>Reachable databases\<close>

text \<open>One rule per operation of \<open>MetadataStore\<close> that writes.\<close>

inductive db_step :: "db \<Rightarrow> db \<Rightarrow> bool" where
  s_add_file: "db_step d (snd (add_file now name repo n src d))"
| s_headers: "db_step d (snd (set_file_headers name src e c ls le ct d))"
| s_touch: "db_step d (snd (touch_repo now repo d))"
| s_delete_file: "db_step d (snd (delete_file now name src d))"
| s_delete_repo: "db_step d (snd (delete_files_by_repo now repo d))"
| s_reconcile: "db_step d (snd (reconcile_chunk_refs now dry d))"
| s_ensure: "db_step d (snd (ensure_chunk now sha b p n m d))"
| s_link: "db_step d (snd (link_file_chunk i sha idx n d))"
| s_ensure_link: "db_step d (snd (ensure_chunk_and_link now sha b p sz csz i idx n d))"
| s_mark: "db_step d (snd (mark_chunk_orphaned now sha d))"
| s_clear: "db_step d (snd (clear_chunk_orphaned sha d))"
| s_delete_chunk: "db_step d (snd (delete_chunk sha d))"
| s_delete_batch: "db_step d (snd (delete_chunks_batch shas d))"

abbreviation db_reachable :: "db \<Rightarrow> bool" where
  "db_reachable \<equiv> reach db_step empty_db"

lemmas write_invs = add_file_inv set_file_headers_inv touch_repo_inv delete_file_inv
  delete_files_by_repo_inv reconcile_inv ensure_chunk_inv link_file_chunk_inv
  ensure_chunk_and_link_inv mark_chunk_orphaned_inv clear_chunk_orphaned_inv delete_chunk_inv
  delete_chunks_batch_inv

lemma db_step_inv: "db_step d d' \<Longrightarrow> db_inv d \<Longrightarrow> db_inv d'"
  by (induction rule: db_step.induct) (rule write_invs, assumption)+

lemma empty_db_inv: "db_inv empty_db"
  by (simp add: db_inv_def db_wf_def refs_exact_def empty_db_def)

interpretation db_states: state_invariant db_step db_inv
  by unfold_locales (rule db_step_inv)

lemmas db_reachable_start = reach.run_start [of db_step empty_db]
lemmas db_reachable_step = reach.run_step [of db_step empty_db]

lemma db_reachable_inv: "db_reachable d \<Longrightarrow> db_inv d"
  by (rule db_states.inv_reach [OF _ empty_db_inv])

end
