(* ===== verification/Gc.thy ===== *)
theory Gc
  imports Metadata_Inv Storage "HOL-Library.Multiset"
begin

text \<open>
  The maintenance half of \<open>src/service.rs\<close>: completeness of a file, deletion by file and by
  repository, the batched garbage collection and the eviction loop. The state is the pair of
  the metadata database and the store behind the storage backend.
\<close>

section \<open>Definitions\<close>

record delete_result =
  deleted_files :: nat
  dr_sources :: "string list"

record gc_preview =
  candidate_chunks :: nat
  candidate_bytes :: nat

record gc_result =
  deleted_chunks :: nat
  reclaimed_bytes :: nat
  skipped_chunks :: nat
  has_more :: bool

definition get_complete_file :: "string \<Rightarrow> string \<Rightarrow> db \<Rightarrow> file_row option res" where
  "get_complete_file name src d =
     res_bind (get_file_by_name name src d) (\<lambda>fo.
       case fo of
         None \<Rightarrow> Inr None
       | Some f \<Rightarrow>
           res_bind (get_file_downloaded_size (f_id f) d) (\<lambda>downloaded.
             if downloaded \<ge> f_total_size f then Inr (Some f) else Inr None))"

definition is_file_complete :: "string \<Rightarrow> string \<Rightarrow> db \<Rightarrow> bool res" where
  "is_file_complete name src d =
     res_bind (get_complete_file name src d) (\<lambda>fo. Inr (fo \<noteq> None))"

definition info :: "string \<Rightarrow> string \<Rightarrow> db \<Rightarrow> file_row option res" where
  "info name src d = get_file_by_name name src d"

text \<open>
  The loop of \<open>delete_file_all_sources\<close> and \<open>delete_repo_all_sources\<close> over the listed
  files; \<open>P\<close> is the test on repository, name and source. The set of sources is a \<open>BTreeSet\<close>.
\<close>

fun delete_matching ::
  "string \<Rightarrow> (file_row \<Rightarrow> bool) \<Rightarrow> file_row list \<Rightarrow> nat \<times> string list \<Rightarrow> db \<Rightarrow>
   (nat \<times> string list) res \<times> db" where
  "delete_matching now P [] acc d = (Inr acc, d)"
| "delete_matching now P (f # fs) (n, srcs) d =
     (if \<not> P f then delete_matching now P fs (n, srcs) d
      else case delete_file now (f_name f) (f_source f) d of
             (Inl e, d') \<Rightarrow> (Inl e, d')
           | (Inr True, d') \<Rightarrow> delete_matching now P fs (n + 1, insort_key (\<lambda>s. s) (f_source f) (remove1 (f_source f) srcs)) d'
           | (Inr False, d') \<Rightarrow> delete_matching now P fs (n, srcs) d')"

definition source_matches :: "string option \<Rightarrow> file_row \<Rightarrow> bool" where
  "source_matches src f = (case src of None \<Rightarrow> True | Some s \<Rightarrow> s = f_source f)"

definition delete_all_matching ::
  "string \<Rightarrow> (file_row \<Rightarrow> bool) \<Rightarrow> db \<Rightarrow> delete_result res \<times> db" where
  "delete_all_matching now P d =
     (case list_files d of
        Inl e \<Rightarrow> (Inl e, d)
      | Inr fs \<Rightarrow>
          (case delete_matching now P fs (0, []) d of
             (Inl e, d') \<Rightarrow> (Inl e, d')
           | (Inr (n, srcs), d') \<Rightarrow> (Inr \<lparr>deleted_files = n, dr_sources = srcs\<rparr>, d')))"

definition delete_file_all_sources ::
  "string \<Rightarrow> string \<Rightarrow> string \<Rightarrow> string option \<Rightarrow> db \<Rightarrow> delete_result res \<times> db" where
  "delete_file_all_sources now repo fname src d =
     delete_all_matching now
       (\<lambda>f. \<not> (f_repo f \<noteq> repo \<or> f_name f \<noteq> fname) \<and> source_matches src f) d"

definition delete_repo_all_sources ::
  "string \<Rightarrow> string \<Rightarrow> string option \<Rightarrow> db \<Rightarrow> delete_result res \<times> db" where
  "delete_repo_all_sources now repo src d =
     delete_all_matching now (\<lambda>f. f_repo f = repo \<and> source_matches src f) d"

definition gc_dry_run :: "db \<Rightarrow> gc_preview res" where
  "gc_dry_run d =
     res_bind (list_orphan_chunks_stats d) (\<lambda>(n, b).
       Inr \<lparr>candidate_chunks = i64_as_u64 n, candidate_bytes = i64_as_u64 b\<rparr>)"

text \<open>
  The loop of \<open>gc_execute_batch\<close>: a chunk whose row says it is referenced is skipped, the
  object of every other chunk is deleted from the store and remembered with the bytes it frees.
\<close>

fun gc_delete_objects ::
  "'s backend \<Rightarrow> chunk list \<Rightarrow> nat \<Rightarrow> (string \<times> nat) list \<Rightarrow> 's \<Rightarrow>
   (nat \<times> (string \<times> nat) list) res \<times> 's" where
  "gc_delete_objects B [] skipped acc s = (Inr (skipped, acc), s)"
| "gc_delete_objects B (c # cs) skipped acc s =
     (if c_ref_count c \<noteq> 0 then gc_delete_objects B cs (skipped + 1) acc s
      else case b_delete B (c_sha256 c) s of
             (Inl e, s') \<Rightarrow> (Inl e, s')
           | (Inr _, s') \<Rightarrow>
               gc_delete_objects B cs skipped
                 (acc @ [(c_sha256 c, i64_as_u64 (stored_size c))]) s')"

text \<open>The second loop: only chunks whose row was deleted count.\<close>

fun gc_account :: "(string \<times> nat) list \<Rightarrow> string list \<Rightarrow> gc_result \<Rightarrow> gc_result" where
  "gc_account removed [] r = r"
| "gc_account removed (sha # shas) r =
     gc_account removed shas
       (case map_of removed sha of
          Some n \<Rightarrow> r\<lparr>deleted_chunks := deleted_chunks r + 1,
                      reclaimed_bytes := reclaimed_bytes r + n\<rparr>
        | None \<Rightarrow> r)"

text \<open>\<open>batch_size + 1\<close> is computed in \<open>usize\<close> and wraps in a release build.\<close>

definition gc_execute_batch ::
  "'s backend \<Rightarrow> nat \<Rightarrow> db \<times> 's \<Rightarrow> gc_result res \<times> (db \<times> 's)" where
  "gc_execute_batch B batch_size w =
     (case w of (d, s) \<Rightarrow>
      (case list_orphan_chunks_batch ((batch_size + 1) mod 2 ^ 64) d of
         Inl e \<Rightarrow> (Inl e, (d, s))
       | Inr orphans \<Rightarrow>
           let more = (length orphans > batch_size);
               todo = (if more then take batch_size orphans else orphans)
           in case gc_delete_objects B todo 0 [] s of
                (Inl e, s') \<Rightarrow> (Inl e, (d, s'))
              | (Inr (skipped, removed), s') \<Rightarrow>
                  let r = \<lparr>deleted_chunks = 0, reclaimed_bytes = 0, skipped_chunks = skipped,
                           has_more = more\<rparr>
                  in if removed = [] then (Inr r, (d, s'))
                     else case delete_chunks_batch (map fst removed) d of
                            (Inl e, d') \<Rightarrow> (Inl e, (d', s'))
                          | (Inr deleted, d') \<Rightarrow> (Inr (gc_account removed deleted r), (d', s'))))"

section \<open>Progress of one batch\<close>

lemma delete_chunks_batch_frame:
  assumes "delete_chunks_batch shas d = (r, d')"
  shows "files d' = files d \<and> length (chunks d') \<le> length (chunks d)"
  using assms by (auto simp: delete_chunks_batch_def with_conn_mut_def Let_def split: if_splits)

lemma delete_chunks_batch_less:
  assumes "delete_chunks_batch shas d = (Inr del, d')" "del \<noteq> []"
  shows "length (chunks d') < length (chunks d)"
proof -
  let ?P = "\<lambda>c. c_ref_count c = 0 \<and> c_sha256 c \<in> set shas"
  from assms obtain c where c: "c \<in> set (chunks d)" "?P c" and del: "del = map c_sha256 (filter ?P (chunks d))"
    and d': "d' = d\<lparr>chunks := filter (\<lambda>c. \<not> (c_ref_count c = 0 \<and> c_sha256 c \<in> set del)) (chunks d)\<rparr>"
    by (auto simp: delete_chunks_batch_def with_conn_mut_def Let_def filter_empty_conv split: if_splits)
  have "c_sha256 c \<in> set del" using c by (simp add: del)
  then have "length (filter (\<lambda>c. \<not> (c_ref_count c = 0 \<and> c_sha256 c \<in> set del)) (chunks d)) <
      length (chunks d)" using c by (intro length_filter_less [OF c(1)]) simp
  with d' show ?thesis by simp
qed

lemma gc_batch_frame:
  assumes "gc_execute_batch B n (d, s) = (r, (d', s'))"
  shows "files d' = files d \<and> length (chunks d') \<le> length (chunks d)"
  using assms
  by (auto simp: gc_execute_batch_def Let_def split: sum.splits prod.splits if_splits
      dest: delete_chunks_batch_frame)

lemma gc_batch_less:
  assumes "gc_execute_batch B n (d, s) = (Inr r, (d', s'))" "0 < deleted_chunks r"
  shows "length (chunks d') < length (chunks d)"
proof -
  from assms obtain skipped removed deleted r0 where
    "delete_chunks_batch (map fst removed) d = (Inr deleted, d')"
    "r = gc_account removed deleted r0" "deleted_chunks r0 = 0"
    by (auto simp: gc_execute_batch_def Let_def split: sum.splits prod.splits if_splits)
  with assms(2) show ?thesis
    using delete_chunks_batch_less by (cases "deleted = []") auto
qed

section \<open>Eviction\<close>

lemma files_fold_delete:
  "files (fold (delete_file_by_id_tx now) ids d) = filter (\<lambda>f. f_id f \<notin> set ids) (files d)"
  by (induction ids arbitrary: d) (auto simp: delete_tx_sel intro: filter_cong)

lemma length_chunks_delete_tx [simp]:
  "length (chunks (delete_file_by_id_tx now i d)) = length (chunks d)"
  by (simp add: delete_tx_chunks)

lemma length_chunks_fold_delete [simp]:
  "length (chunks (fold (delete_file_by_id_tx now) ids d)) = length (chunks d)"
  by (induction ids arbitrary: d) simp_all

lemma delete_repo_less:
  assumes "delete_files_by_repo now repo d = (Inr n, d')" "repo \<in> f_repo ` set (files d)"
  shows "length (files d') < length (files d)" "length (chunks d') = length (chunks d)"
proof -
  let ?ids = "map f_id (filter (\<lambda>f. f_repo f = repo) (files d))"
  have d': "d' = fold (delete_file_by_id_tx now) ?ids d"
    using assms(1) by (auto simp: delete_files_by_repo_def with_conn_mut_def Let_def split: if_splits)
  from assms(2) obtain f where "f \<in> set (files d)" "f_repo f = repo" by auto
  then have "\<not> f_id f \<notin> set ?ids" by auto
  with \<open>f \<in> set (files d)\<close> show "length (files d') < length (files d)"
    unfolding d' files_fold_delete by (intro length_filter_less)
  show "length (chunks d') = length (chunks d)" by (simp add: d')
qed

lemma list_repos_subset: "list_repos_by_access n d = Inr rs \<Longrightarrow> set rs \<subseteq> f_repo ` set (files d)"
  by (auto simp: list_repos_by_access_def with_conn_def sql_limit_def split: if_splits
      dest: in_set_takeD)

definition row_count :: "db \<times> 's \<Rightarrow> nat" where
  "row_count w = length (chunks (fst w)) + length (files (fst w))"

lemma gc_row_count: "gc_execute_batch B n w = (r, w') \<Longrightarrow> row_count w' \<le> row_count w"
  using gc_batch_frame by (cases w; cases w') (fastforce simp: row_count_def)

lemma gc_row_count_less:
  "gc_execute_batch B n w = (Inr r, w') \<Longrightarrow> 0 < deleted_chunks r \<Longrightarrow> row_count w' < row_count w"
  using gc_batch_less [of B n "fst w" "snd w" r "fst w'" "snd w'"]
    gc_batch_frame [of B n "fst w" "snd w" "Inr r" "fst w'" "snd w'"]
  by (simp add: row_count_def)

lemma evict_row_count_less:
  assumes "gc_execute_batch B n w = (Inr r, (d1, s1))"
    and "list_repos_by_access k d1 = Inr (victim # rest)"
    and "delete_files_by_repo now victim d1 = (Inr m, d2)"
    and "gc_execute_batch B n' (d2, s1) = (Inr r', w')"
  shows "row_count w' < row_count w"
proof -
  have "victim \<in> f_repo ` set (files d1)" using list_repos_subset [OF assms(2)] by auto
  from delete_repo_less [OF assms(3) this] gc_row_count [OF assms(1)] gc_row_count [OF assms(4)]
  show ?thesis by (simp add: row_count_def)
qed

text \<open>
  \<open>evict_if_needed\<close>: collect garbage first, and only when nothing was collected evict the
  repository that was accessed least recently. The loop ends because every turn that goes on
  has removed a chunk row or a file row.
\<close>

function (sequential) evict_if_needed ::
  "'s backend \<Rightarrow> string \<Rightarrow> nat \<Rightarrow> db \<times> 's \<Rightarrow> unit res \<times> (db \<times> 's)" where
  "evict_if_needed B now max_size (d, s) =
     (case gc_execute_batch B 32 (d, s) of
        (Inl e, w) \<Rightarrow> (Inl e, w)
      | (Inr freed, (d1, s1)) \<Rightarrow>
          (case get_stats d1 of
             Inl e \<Rightarrow> (Inl e, (d1, s1))
           | Inr st \<Rightarrow>
               if i64_as_u64 (original_bytes st) \<le> max_size then (Inr (), (d1, s1))
               else if deleted_chunks freed > 0 then evict_if_needed B now max_size (d1, s1)
               else
                 (case list_repos_by_access 10 d1 of
                    Inl e \<Rightarrow> (Inl e, (d1, s1))
                  | Inr [] \<Rightarrow> (Inr (), (d1, s1))
                  | Inr (victim # _) \<Rightarrow>
                      (case delete_files_by_repo now victim d1 of
                         (Inl e, d2) \<Rightarrow> (Inl e, (d2, s1))
                       | (Inr _, d2) \<Rightarrow>
                           (case gc_execute_batch B 32 (d2, s1) of
                              (Inl e, w) \<Rightarrow> (Inl e, w)
                            | (Inr _, w) \<Rightarrow> evict_if_needed B now max_size w)))))"
  by pat_completeness auto
termination
  by (relation "measure (\<lambda>(B, now, m, w). row_count w)")
    (auto simp del: gc_row_count_less dest!: sym [where s = "(Inr _, _)"]
      intro: gc_row_count_less evict_row_count_less)

declare evict_if_needed.simps [simp del]

section \<open>What one batch does\<close>

definition keys_ok :: "db \<Rightarrow> bool" where
  "keys_ok d = (\<forall>c \<in> set (chunks d). sha_key (c_sha256 c))"

lemma set_orphan_rows [simp]: "set (orphan_rows d) = {c \<in> set (chunks d). orphan_row c}"
  by (auto simp: orphan_rows_def)

lemma distinct_orphan_rows: "db_wf d \<Longrightarrow> distinct (orphan_rows d)"
  by (simp add: orphan_rows_def db_wf_def distinct_map)

lemma gc_account_eq:
  "(\<And>x. x \<in> set shas \<Longrightarrow> map_of removed x \<noteq> None) \<Longrightarrow>
     gc_account removed shas r =
       r\<lparr>deleted_chunks := deleted_chunks r + length shas,
         reclaimed_bytes := reclaimed_bytes r + sum_list (map (\<lambda>x. the (map_of removed x)) shas)\<rparr>"
proof (induction shas arbitrary: r)
  case (Cons x shas)
  then obtain n where "map_of removed x = Some n" by fastforce
  with Cons show ?case by simp
qed simp

lemma sum_list_mset_cong:
  fixes f :: "'a \<Rightarrow> nat"
  assumes "mset xs = mset ys"
  shows "sum_list (map f xs) = sum_list (map f ys)"
proof -
  have "sum_mset (mset (map f xs)) = sum_mset (mset (map f ys))" using assms by simp
  then show ?thesis by (simp only: sum_mset_sum_list)
qed

text \<open>The rows a batch selects, and the rows the \<open>DELETE\<close> then matches.\<close>

definition gc_selected :: "nat \<Rightarrow> db \<Rightarrow> chunk list" where
  "gc_selected n d = take n (orphan_rows d)"

lemma gc_selected_rows: "c \<in> set (gc_selected n d) \<Longrightarrow> c \<in> set (chunks d) \<and> orphan_row c"
  by (auto simp: gc_selected_def dest!: in_set_takeD)

lemma gc_matched_rows:
  assumes "db_wf d" "c \<in> set (chunks d)"
  shows "c_ref_count c = 0 \<and> c_sha256 c \<in> c_sha256 ` set (gc_selected n d) \<longleftrightarrow>
    c \<in> set (gc_selected n d)"
proof -
  have "inj_on c_sha256 (set (chunks d))" using assms(1) by (simp add: db_wf_def distinct_map)
  with assms(2) show ?thesis by (auto dest: inj_onD gc_selected_rows simp: orphan_row_def)
qed

lemma gc_matched_mset:
  assumes "db_wf d"
  shows "mset (filter (\<lambda>c. c_ref_count c = 0 \<and> c_sha256 c \<in> c_sha256 ` set (gc_selected n d)) (chunks d)) =
    mset (gc_selected n d)"
proof -
  have "distinct (chunks d)" using assms by (simp add: db_wf_def distinct_map)
  moreover have "distinct (gc_selected n d)"
    using distinct_orphan_rows [OF assms] by (simp add: gc_selected_def)
  moreover have "set (filter (\<lambda>c. c_ref_count c = 0 \<and> c_sha256 c \<in> c_sha256 ` set (gc_selected n d)) (chunks d))
      = set (gc_selected n d)"
    by (auto simp: orphan_row_def dest: gc_selected_rows gc_matched_rows [OF assms, THEN iffD1])
  ultimately show ?thesis by (metis (lifting) distinct_filter set_eq_iff_mset_eq_distinct)
qed

text \<open>
  The rows that the database deletes for a batch, and what the account of their sizes comes to:
  exactly the selected rows.
\<close>

abbreviation gc_pairs :: "nat \<Rightarrow> db \<Rightarrow> (string \<times> nat) list" where
  "gc_pairs n d \<equiv> map (\<lambda>c. (c_sha256 c, i64_as_u64 (stored_size c))) (gc_selected n d)"

abbreviation gc_matched :: "nat \<Rightarrow> db \<Rightarrow> chunk list" where
  "gc_matched n d \<equiv> filter (\<lambda>c. c_ref_count c = 0 \<and> c_sha256 c \<in> c_sha256 ` set (gc_selected n d)) (chunks d)"

lemma gc_rows_deleted:
  assumes "db_inv d" "\<not> poisoned d"
  shows "delete_chunks_batch (map fst (gc_pairs n d)) d =
    (Inr (map c_sha256 (gc_matched n d)), d\<lparr>chunks := filter (\<lambda>c. c \<notin> set (gc_selected n d)) (chunks d)\<rparr>)"
proof -
  have wf: "db_wf d" using assms(1) by (simp add: db_inv_def)
  have "filter (\<lambda>c. \<not> (c_ref_count c = 0 \<and> c_sha256 c \<in> c_sha256 ` set (gc_selected n d))) (chunks d) =
      filter (\<lambda>c. c \<notin> set (gc_selected n d)) (chunks d)"
    using gc_matched_rows [OF wf] by (intro filter_cong) auto
  then show ?thesis by (simp add: delete_chunks_batch_eq [OF assms] comp_def)
qed

lemma gc_account_matched:
  assumes wf: "db_wf d"
  shows "gc_account (gc_pairs n d) (map c_sha256 (gc_matched n d)) r0 =
    r0\<lparr>deleted_chunks := deleted_chunks r0 + length (gc_selected n d), reclaimed_bytes := reclaimed_bytes r0 +
      sum_list (map (\<lambda>c. i64_as_u64 (stored_size c)) (gc_selected n d))\<rparr>"
proof -
  let ?T = "gc_selected n d" and ?M = "gc_matched n d" and ?size = "\<lambda>c. i64_as_u64 (stored_size c)"
  have same: "mset ?M = mset ?T" by (rule gc_matched_mset [OF wf])
  have setM: "set ?M = set ?T" using same by (rule mset_eq_setD)
  have "inj_on c_sha256 (set (chunks d))" using wf by (simp add: db_wf_def distinct_map)
  then have "inj_on c_sha256 (set ?T)" by (rule inj_on_subset) (use gc_selected_rows in blast)
  then have "distinct (map c_sha256 ?T)" using distinct_orphan_rows [OF wf] by (simp add: distinct_map gc_selected_def)
  then have look: "map_of (gc_pairs n d) (c_sha256 c) = Some (?size c)" if "c \<in> set ?T" for c
    using that by (intro map_of_is_SomeI) (auto simp: comp_def)
  have "map ((\<lambda>x. the (map_of (gc_pairs n d) x)) \<circ> c_sha256) ?M = map ?size ?M"
  proof (rule map_cong [OF HOL.refl])
    fix c assume "c \<in> set ?M"
    then have "c \<in> set ?T" using setM by blast
    then show "((\<lambda>x. the (map_of (gc_pairs n d) x)) \<circ> c_sha256) c = ?size c"
      by (simp only: comp_apply look option.sel)
  qed
  then have sums: "sum_list (map (\<lambda>x. the (map_of (gc_pairs n d) x)) (map c_sha256 ?M)) = sum_list (map ?size ?T)"
    unfolding map_map sum_list_mset_cong [OF same, symmetric] by (rule arg_cong)
  have lens: "length (map c_sha256 ?M) = length ?T" using mset_eq_length [OF same] by (simp only: length_map)
  show ?thesis
    unfolding sums [symmetric] lens [symmetric]
  proof (rule gc_account_eq)
    fix x assume "x \<in> set (map c_sha256 ?M)"
    then obtain c where c: "c \<in> set ?T" and x: "x = c_sha256 c" unfolding set_map setM by blast
    show "map_of (gc_pairs n d) x \<noteq> None" unfolding x look [OF c] by (rule option.distinct)
  qed
qed

context storage_laws
begin

lemma gc_delete_objects_ok:
  assumes "invar s" "\<forall>c \<in> set cs. c_ref_count c = 0 \<and> sha_key (c_sha256 c)"
  shows "\<exists>s'. gc_delete_objects B cs k acc s =
      (Inr (k, acc @ map (\<lambda>c. (c_sha256 c, i64_as_u64 (stored_size c))) cs), s') \<and> invar s' \<and>
    (\<forall>j. sha_key j \<longrightarrow> contents s' j = (if j \<in> c_sha256 ` set cs then None else contents s j))"
  using assms
proof (induction cs arbitrary: acc s)
  case (Cons c cs)
  then obtain s1 where s1: "b_delete B (c_sha256 c) s = (Inr (), s1)" "invar s1"
    "\<forall>j. sha_key j \<longrightarrow> contents s1 j = ((contents s)(c_sha256 c := None)) j"
    using delete_removes [of s "c_sha256 c"] by auto
  from Cons.IH [OF s1(2), of "acc @ [(c_sha256 c, i64_as_u64 (stored_size c))]"] Cons.prems
  show ?case using s1 by (auto simp: image_iff)
qed simp

lemma gc_batch_ok:
  assumes inv: "db_inv d" and op: "\<not> poisoned d" and s: "invar s" and keys: "keys_ok d"
    and n: "n + 1 < 2 ^ 63"
  shows "\<exists>s'. gc_execute_batch B n (d, s) =
      (Inr \<lparr>deleted_chunks = length (gc_selected n d),
            reclaimed_bytes = sum_list (map (\<lambda>c. i64_as_u64 (stored_size c)) (gc_selected n d)),
            skipped_chunks = 0, has_more = (n < length (orphan_rows d))\<rparr>,
       (d\<lparr>chunks := filter (\<lambda>c. c \<notin> set (gc_selected n d)) (chunks d)\<rparr>, s')) \<and> invar s' \<and>
    (\<forall>j. sha_key j \<longrightarrow>
       contents s' j = (if j \<in> c_sha256 ` set (gc_selected n d) then None else contents s j))"
proof -
  let ?T = "gc_selected n d"
  let ?pairs = "map (\<lambda>c. (c_sha256 c, i64_as_u64 (stored_size c))) ?T"
  have wf: "db_wf d" using inv by (simp add: db_inv_def)
  have list: "list_orphan_chunks_batch ((n + 1) mod 2 ^ 64) d = Inr (take (n + 1) (orphan_rows d))"
    using n op by (simp add: list_orphan_chunks_batch_def sql_limit_def u64_as_i64_small
        del: of_nat_add of_nat_Suc)
  have todo: "(if n < length (orphan_rows d) then take n (take (n + 1) (orphan_rows d))
      else take (n + 1) (orphan_rows d)) = ?T"
    by (simp add: gc_selected_def min_def)
  have more: "length (take (n + 1) (orphan_rows d)) > n \<longleftrightarrow> n < length (orphan_rows d)" by simp
  have "\<forall>c \<in> set ?T. c_ref_count c = 0 \<and> sha_key (c_sha256 c)"
    using gc_selected_rows [of _ n d] keys by (auto simp: orphan_row_def keys_ok_def)
  from gc_delete_objects_ok [OF s this, of 0 "[]"] obtain s' where
    del: "gc_delete_objects B ?T 0 [] s = (Inr (0, ?pairs), s')" and s': "invar s'"
      "\<forall>j. sha_key j \<longrightarrow> contents s' j = (if j \<in> c_sha256 ` set ?T then None else contents s j)"
    by auto
  let ?M = "gc_matched n d"
  note batch = gc_rows_deleted [OF inv op, of n] and acc = gc_account_matched [OF wf, of n]
  let ?r = "\<lparr>deleted_chunks = 0, reclaimed_bytes = 0, skipped_chunks = 0,
    has_more = n < length (orphan_rows d)\<rparr>"
  have body: "gc_execute_batch B n (d, s) =
      (if ?pairs = [] then (Inr ?r, (d, s'))
       else (Inr (gc_account ?pairs (map c_sha256 ?M) ?r),
             (d\<lparr>chunks := filter (\<lambda>c. c \<notin> set ?T) (chunks d)\<rparr>, s')))"
    unfolding gc_execute_batch_def prod.case list sum.case Let_def more todo del batch ..
  show ?thesis
  proof (cases "?T = []")
    case True
    then have "filter (\<lambda>c. c \<notin> set ?T) (chunks d) = chunks d" by simp
    with True s' show ?thesis by (simp add: body)
  next
    case False
    then have "?pairs \<noteq> []" by simp
    then have "gc_execute_batch B n (d, s) =
        (Inr \<lparr>deleted_chunks = length ?T,
              reclaimed_bytes = sum_list (map (\<lambda>c. i64_as_u64 (stored_size c)) ?T),
              skipped_chunks = 0, has_more = n < length (orphan_rows d)\<rparr>,
         (d\<lparr>chunks := filter (\<lambda>c. c \<notin> set ?T) (chunks d)\<rparr>, s'))"
      unfolding body acc by simp
    with s' show ?thesis by blast
  qed
qed

end

end
