(* ===== verification/Gc_Props.thy ===== *)
theory Gc_Props
  imports Gc
begin

text \<open>
  The properties of collection, eviction and administrative deletion, stated over any
  storage backend that keeps the contract \<open>storage_laws\<close>; the witnesses run them on
  \<open>LocalBackend\<close> through its interpretation \<open>plain_local\<close>.
\<close>

section \<open>Lemmas\<close>

lemma delete_chunks_keep_inv:
  "db_inv d \<Longrightarrow> db_inv (d\<lparr>chunks := filter (\<lambda>c. c \<notin> set (gc_selected n d)) (chunks d)\<rparr>)"
proof (rule drop_chunks_inv)
  fix c assume "db_inv d" "c \<in> set (chunks d)" "\<not> c \<notin> set (gc_selected n d)"
  then show "\<not> referenced (c_sha256 c) d"
    by (auto simp: orphan_row_def dest!: gc_selected_rows inv_unreferenced)
qed

lemma delete_by_repo_eq:
  "\<not> poisoned d \<Longrightarrow> delete_files_by_repo now repo d =
     (Inr (length (filter (\<lambda>f. f_repo f = repo) (files d))),
      fold (delete_file_by_id_tx now) (map f_id (filter (\<lambda>f. f_repo f = repo) (files d))) d)"
  by (simp add: delete_files_by_repo_def Let_def)

lemma fold_delete_frame:
  "poisoned (fold (delete_file_by_id_tx now) ids d) = poisoned d"
  "map c_sha256 (chunks (fold (delete_file_by_id_tx now) ids d)) = map c_sha256 (chunks d)"
  by (induction ids arbitrary: d) (simp_all add: delete_tx_sel)

lemma fold_delete_files: "set (files (fold (delete_file_by_id_tx now) ids d)) \<subseteq> set (files d)"
  by (induction ids arbitrary: d) (force simp: delete_tx_sel)+

lemma keys_ok_keys: "keys_ok d \<longleftrightarrow> (\<forall>k \<in> set (map c_sha256 (chunks d)). sha_key k)"
  by (simp add: keys_ok_def)

lemma list_repos_nonempty:
  assumes "files d \<noteq> []" "\<not> poisoned d"
  shows "\<exists>victim rest. list_repos_by_access 10 d = Inr (victim # rest)"
proof -
  let ?rs = "sort_key (\<lambda>r. min_access r d) (remdups (sort (map f_repo (files d))))"
  have "length ?rs > 0" using assms(1) by (simp add: length_remdups_card_conv card_gt_0_iff)
  then obtain v rest where "?rs = v # rest" by (cases ?rs) auto
  with assms(2) show ?thesis
    by (simp add: list_repos_by_access_def sql_limit_def u64_as_i64_small)
qed

context storage_laws
begin

lemma evict_ok:
  assumes "db_inv d" "\<not> poisoned d" "invar s" "keys_ok d"
  shows "\<exists>d' s'. evict_if_needed B now m (d, s) = (Inr (), (d', s')) \<and> db_inv d' \<and> invar s' \<and>
    i64_as_u64 (sum_list (map f_total_size (files d'))) \<le> m \<and> set (files d') \<subseteq> set (files d) \<and> \<not> poisoned d'"
  using assms
proof (induction "row_count (d, s)" arbitrary: d s rule: less_induct)
  case less
  let ?d1 = "d\<lparr>chunks := filter (\<lambda>c. c \<notin> set (gc_selected 32 d)) (chunks d)\<rparr>"
  let ?total = "i64_as_u64 (sum_list (map f_total_size (files d)))"
  obtain r s1 where g1: "gc_execute_batch B 32 (d, s) = (Inr r, (?d1, s1))" and s1: "invar s1"
    using gc_batch_ok [OF less.prems, of 32] by auto
  have d1: "db_inv ?d1" "\<not> poisoned ?d1" "keys_ok ?d1"
    using less.prems delete_chunks_keep_inv [of d 32] by (auto simp: keys_ok_def)
  obtain st where st: "get_stats ?d1 = Inr st"
    and ob: "original_bytes st = sum_list (map f_total_size (files d))"
    using d1(2) by (simp add: get_stats_def Let_def)
  consider (fits) "?total \<le> m" | (freed) "\<not> ?total \<le> m" "0 < deleted_chunks r"
    | (evict) "\<not> ?total \<le> m" "\<not> 0 < deleted_chunks r" by blast
  then show ?case
  proof cases
    case fits
    with g1 st ob d1 s1 show ?thesis by (simp add: evict_if_needed.simps [of B now m d s])
  next
    case freed
    then have "row_count (?d1, s1) < row_count (d, s)" by (intro gc_row_count_less [OF g1])
    from less.hyps [OF this d1(1,2) s1 d1(3)] g1 st ob freed show ?thesis
      by (simp add: evict_if_needed.simps [of B now m d s])
  next
    case evict
    then have "files ?d1 \<noteq> []" by (auto simp: i64_as_u64_nonneg)
    with list_repos_nonempty d1(2) obtain v rest
      where ls: "list_repos_by_access 10 ?d1 = Inr (v # rest)" by blast
    let ?ids = "map f_id (filter (\<lambda>f. f_repo f = v) (files ?d1))"
    let ?d2 = "fold (delete_file_by_id_tx now) ?ids ?d1"
    obtain k where del: "delete_files_by_repo now v ?d1 = (Inr k, ?d2)"
      using delete_by_repo_eq [OF d1(2), of now v] by blast
    have d2: "db_inv ?d2" "\<not> poisoned ?d2" "keys_ok ?d2"
      using d1 fold_delete_inv [of ?d1 now ?ids]
      by (simp_all only: fold_delete_frame keys_ok_keys not_False_eq_True)
    let ?d3 = "?d2\<lparr>chunks := filter (\<lambda>c. c \<notin> set (gc_selected 32 ?d2)) (chunks ?d2)\<rparr>"
    obtain r3 s3 where g2: "gc_execute_batch B 32 (?d2, s1) = (Inr r3, (?d3, s3))"
      and s3: "invar s3"
      using gc_batch_ok [OF d2(1,2) s1 d2(3), of 32] by auto
    have d3: "db_inv ?d3" "\<not> poisoned ?d3" "keys_ok ?d3"
      using d2 delete_chunks_keep_inv [of ?d2 32] by (auto simp: keys_ok_def)
    have "row_count (?d3, s3) < row_count (d, s)" by (rule evict_row_count_less [OF g1 ls del g2])
    moreover have "set (files ?d3) \<subseteq> set (files d)"
      using fold_delete_files [of now ?ids ?d1] by simp
    ultimately show ?thesis
      using less.hyps [OF _ d3(1,2) s3 d3(3)] g1 st ob evict ls del g2
      by (fastforce simp: evict_if_needed.simps [of B now m d s])
  qed
qed

end

section \<open>A database with garbage\<close>

definition key_a :: string where "key_a = replicate 64 (CHR ''a'')"
definition key_b :: string where "key_b = replicate 64 (CHR ''b'')"

definition two_repos_db :: db where
  "two_repos_db =
     (let d1 = snd (add_file ''t0'' ''o/r/a'' ''o/r'' 4 ''hf'' empty_db);
          d2 = snd (add_file ''t5'' ''o/s/b'' ''o/s'' 6 ''hf'' d1);
          d3 = snd (ensure_chunk_and_link ''t6'' key_a ''local'' ''p'' 4 4 1 0 4 d2)
      in snd (ensure_chunk_and_link ''t7'' key_b ''local'' ''q'' 6 5 2 0 6 d3))"

definition garbage_db :: db where
  "garbage_db = snd (delete_file ''t8'' ''o/r/a'' ''hf'' two_repos_db)"

lemma two_repos_reachable: "db_reachable two_repos_db"
  unfolding two_repos_db_def Let_def
  by (intro db_reachable_step [OF _ s_ensure_link] db_reachable_step [OF _ s_add_file]
      db_reachable_start)

lemma garbage_reachable: "db_reachable garbage_db"
  unfolding garbage_db_def by (intro db_reachable_step [OF two_repos_reachable s_delete_file])

lemma two_repos_facts: "db_inv two_repos_db" "\<not> poisoned two_repos_db" "keys_ok two_repos_db"
  by (rule db_reachable_inv [OF two_repos_reachable]) code_simp+

lemma garbage_facts: "db_inv garbage_db" "\<not> poisoned garbage_db" "keys_ok garbage_db"
  by (rule db_reachable_inv [OF garbage_reachable]) code_simp+

lemma garbage_orphans: "map c_sha256 (orphan_rows garbage_db) = [key_a]"
  by code_simp

definition garbage_fs :: fs where
  "garbage_fs = Map.empty"

lemma plain_fs_ok: "local_invar dec (plain_backend rt) fs"
  by (simp add: local_invar_def plain_backend_def)

section \<open>Garbage collection\<close>

text \<open>
  C4: On a consistent database and a store that keeps its contract, one batch of size \<open>n\<close>
  deletes the \<open>n\<close> oldest orphans (all of them if there are fewer), row and object both, says
  whether orphans remain, and leaves every other chunk, referenced or not, in the database and
  in the store.
\<close>

theorem gc_batch_collects_orphans_only:
  assumes "storage_laws B contents invar" "db_inv d" "\<not> poisoned d" "invar s" "keys_ok d"
    and "n + 1 < 2 ^ 63"
  shows "\<exists>r d' s'. gc_execute_batch B n (d, s) = (Inr r, (d', s')) \<and>
    deleted_chunks r = min n (length (orphan_rows d)) \<and>
    has_more r = (n < length (orphan_rows d)) \<and> db_inv d' \<and> invar s' \<and>
    files d' = files d \<and> file_chunks d' = file_chunks d \<and>
    chunks d' = filter (\<lambda>c. c \<notin> set (take n (orphan_rows d))) (chunks d) \<and>
    (\<forall>c \<in> set (chunks d). contents s' (c_sha256 c) =
       (if c \<in> set (take n (orphan_rows d)) then None else contents s (c_sha256 c)))"
proof -
  let ?T = "gc_selected n d"
  obtain s' where run: "gc_execute_batch B n (d, s) =
      (Inr \<lparr>deleted_chunks = length ?T,
            reclaimed_bytes = sum_list (map (\<lambda>c. i64_as_u64 (stored_size c)) ?T),
            skipped_chunks = 0, has_more = (n < length (orphan_rows d))\<rparr>,
       (d\<lparr>chunks := filter (\<lambda>c. c \<notin> set ?T) (chunks d)\<rparr>, s'))" and s': "invar s'"
    and cont: "\<forall>j. sha_key j \<longrightarrow> contents s' j = (if j \<in> c_sha256 ` set ?T then None else contents s j)"
    using storage_laws.gc_batch_ok [OF assms] by blast
  have "c_sha256 c \<in> c_sha256 ` set ?T \<longleftrightarrow> c \<in> set ?T" if c: "c \<in> set (chunks d)" for c
  proof -
    have "inj_on c_sha256 (set (chunks d))"
      using assms(2) by (simp add: db_inv_def db_wf_def distinct_map)
    with c show ?thesis by (auto dest: inj_onD gc_selected_rows)
  qed
  with cont assms(5) have "\<forall>c \<in> set (chunks d). contents s' (c_sha256 c) =
      (if c \<in> set ?T then None else contents s (c_sha256 c))"
    by (simp add: keys_ok_def)
  with run s' delete_chunks_keep_inv [OF assms(2), of n] show ?thesis
    by (auto simp: gc_selected_def min.commute)
qed

theorem gc_batch_collects_orphans_only_witness:
  "\<exists>r d' s'. gc_execute_batch (local_ops id Some (plain_backend ''root'')) 32 (garbage_db, garbage_fs) =
      (Inr r, (d', s')) \<and>
    deleted_chunks r = 1 \<and> \<not> has_more r \<and> map c_sha256 (chunks d') = [key_b]"
proof -
  have len: "length (orphan_rows garbage_db) = 1" using garbage_orphans by (metis length_map length_Cons list.size(3) One_nat_def)
  have rest: "map c_sha256 (filter (\<lambda>c. c \<notin> set (take 32 (orphan_rows garbage_db))) (chunks garbage_db)) = [key_b]"
    by code_simp
  from gc_batch_collects_orphans_only [OF plain_local.storage_laws_axioms garbage_facts(1,2)
      plain_fs_ok garbage_facts(3), of 32 id Some "''root''" garbage_fs] len rest
  show ?thesis by fastforce
qed

section \<open>Eviction\<close>



lemma fold_min_le: "x \<in> set xs \<or> x = a \<Longrightarrow> fold min xs (a :: 'a :: linorder) \<le> x"
proof (induction xs arbitrary: a x)
  case (Cons y ys)
  have le: "fold min ys (min y a) \<le> min y a" by (rule Cons.IH) simp
  from Cons.prems consider "x = a" | "x = y" | "x \<in> set ys" by auto
  then show ?case
  proof cases
    case 1 with le show ?thesis by simp
  next
    case 2 with le show ?thesis by simp
  next
    case 3 then show ?thesis by (simp add: Cons.IH)
  qed
qed simp

lemma fold_min_in: "fold min xs (a :: 'a :: linorder) \<in> insert a (set xs)"
  by (induction xs arbitrary: a) (auto simp: min_def)

text \<open>
  The repository that eviction removes is the least recently used one: one of its files
  was last accessed no later than any file of the cache.
\<close>

theorem evict_victim_least_recent:
  assumes "list_repos_by_access n d = Inr (victim # rest)" "f \<in> set (files d)"
  shows "\<exists>g \<in> set (files d). f_repo g = victim \<and> f_last_accessed g \<le> f_last_accessed f"
proof -
  let ?rs = "sort_key (\<lambda>r. min_access r d) (remdups (sort (map f_repo (files d))))"
  from assms(1) obtain tl where rs: "?rs = victim # tl"
    by (cases ?rs) (auto simp: list_repos_by_access_def with_conn_def sql_limit_def take_Cons'
        split: if_splits)
  have "victim \<in> set ?rs" unfolding rs by simp
  then have v: "victim \<in> f_repo ` set (files d)" by simp
  have "sorted (map (\<lambda>r. min_access r d) ?rs)" by simp
  moreover have "f_repo f \<in> set ?rs" using assms(2) by simp
  ultimately have le: "min_access victim d \<le> min_access (f_repo f) d"
    unfolding rs by auto
  have "min_access (f_repo f) d \<le> f_last_accessed f"
    unfolding min_access_def Let_def using assms(2) by (intro fold_min_le) auto
  moreover have "min_access victim d \<in> f_last_accessed ` {g \<in> set (files d). f_repo g = victim}"
  proof -
    let ?ts = "map f_last_accessed (filter (\<lambda>f. f_repo f = victim) (files d))"
    have "?ts \<noteq> []" using v by (auto simp: filter_empty_conv)
    then have "hd ?ts \<in> set ?ts" by (rule hd_in_set)
    with fold_min_in [of ?ts "hd ?ts"] show ?thesis
      by (auto simp: min_access_def Let_def)
  qed
  ultimately show ?thesis using le by force
qed

theorem evict_victim_least_recent_witness:
  "\<exists>g \<in> set (files two_repos_db). f_repo g = ''o/r'' \<and> f_last_accessed g \<le> ''t5''"
proof -
  have l: "list_repos_by_access 10 two_repos_db = Inr [''o/r'', ''o/s'']" by code_simp
  have f: "files two_repos_db ! 1 \<in> set (files two_repos_db)"
    and t: "f_last_accessed (files two_repos_db ! 1) = ''t5''" by code_simp+
  from evict_victim_least_recent [OF l f] show ?thesis unfolding t .
qed

section \<open>Administrative deletion\<close>

lemma delete_file_row:
  assumes "db_inv d" "\<not> poisoned d" "f \<in> set (files d)"
  shows "delete_file now (f_name f) (f_source f) d = (Inr True, delete_file_by_id_tx now (f_id f) d)"
    and "files (delete_file_by_id_tx now (f_id f) d) = filter (\<lambda>g. g \<noteq> f) (files d)"
proof -
  have ids: "inj_on f_id (set (files d))"
    and keys: "distinct (map (\<lambda>f. (f_name f, f_source f)) (files d))"
    using assms(1) by (simp_all add: db_inv_def db_wf_def distinct_map)
  have "lookup_file (f_name f) (f_source f) d = Some f"
    unfolding lookup_file_def find_pair_key by (rule find_key_unique [OF keys assms(3)]) simp
  with assms(2) show "delete_file now (f_name f) (f_source f) d =
      (Inr True, delete_file_by_id_tx now (f_id f) d)" by (simp add: delete_file_def)
  show "files (delete_file_by_id_tx now (f_id f) d) = filter (\<lambda>g. g \<noteq> f) (files d)"
    unfolding delete_tx_sel using ids assms(3) by (intro filter_cong) (auto dest: inj_onD)
qed

lemma delete_matching_eq:
  assumes "db_inv d" "\<not> poisoned d" "distinct fs" "set fs \<subseteq> set (files d)"
  shows "\<exists>srcs' d'. delete_matching now P fs (n, srcs) d =
      (Inr (n + length (filter P fs), srcs'), d') \<and>
    set srcs' = set srcs \<union> f_source ` set (filter P fs) \<and>
    files d' = filter (\<lambda>g. \<not> (g \<in> set fs \<and> P g)) (files d) \<and> db_inv d' \<and> \<not> poisoned d'"
  using assms
proof (induction fs arbitrary: n srcs d)
  case (Cons f fs)
  show ?case
  proof (cases "P f")
    case True
    let ?d1 = "delete_file_by_id_tx now (f_id f) d"
    let ?srcs = "insort_key (\<lambda>s. s) (f_source f) (remove1 (f_source f) srcs)"
    note row = delete_file_row [OF Cons.prems(1,2), of f now]
    have d1: "db_inv ?d1" "\<not> poisoned ?d1" "set fs \<subseteq> set (files ?d1)"
      using Cons.prems row(2) by (auto simp: delete_tx_inv delete_tx_sel(4))
    from Cons.IH [OF d1(1,2) _ d1(3), of "n + 1" ?srcs] Cons.prems(3)
    obtain srcs' d' where IH: "delete_matching now P fs (n + 1, ?srcs) ?d1 =
        (Inr (n + 1 + length (filter P fs), srcs'), d')"
      "set srcs' = set ?srcs \<union> f_source ` set (filter P fs)"
      "files d' = filter (\<lambda>g. \<not> (g \<in> set fs \<and> P g)) (files ?d1)" "db_inv d'" "\<not> poisoned d'"
      by auto
    have "set ?srcs = insert (f_source f) (set srcs)"
      by (auto simp: set_insort_key dest: in_set_remove1 set_remove1_subset [THEN subsetD])
    moreover have "files d' = filter (\<lambda>g. \<not> (g \<in> set (f # fs) \<and> P g)) (files d)"
      using IH(3) row(2) Cons.prems(4) True by (auto simp: intro!: filter_cong)
    ultimately show ?thesis
      using IH row(1) Cons.prems(4) True by auto
  next
    case False
    with Cons.IH [of d n srcs] Cons.prems show ?thesis
      by (auto intro!: filter_cong)
  qed
qed simp

text \<open>
  Deleting a repository through the control interface removes exactly the files of that
  repository (of the given source, if one is given), returns how many they were, and keeps the
  database consistent.
\<close>

theorem delete_repo_removes_repo:
  assumes "db_inv d" "\<not> poisoned d"
  shows "\<exists>r d'. delete_repo_all_sources now repo src d = (Inr r, d') \<and>
    files d' = filter (\<lambda>f. \<not> (f_repo f = repo \<and> source_matches src f)) (files d) \<and>
    deleted_files r = length (filter (\<lambda>f. f_repo f = repo \<and> source_matches src f) (files d)) \<and>
    set (dr_sources r) = {f_source f | f. f \<in> set (files d) \<and> f_repo f = repo \<and> source_matches src f} \<and>
    db_inv d'"
proof -
  let ?P = "\<lambda>f. f_repo f = repo \<and> source_matches src f"
  let ?fs = "sort_key (\<lambda>f. (f_repo f, f_name f)) (files d)"
  have "distinct ?fs" using assms(1) by (simp add: db_inv_def db_wf_def distinct_map)
  from delete_matching_eq [OF assms this, of now ?P 0 "[]"]
  obtain srcs' d' where run: "delete_matching now ?P ?fs (0, []) d =
      (Inr (length (filter ?P ?fs), srcs'), d')"
    "set srcs' = f_source ` set (filter ?P ?fs)"
    "files d' = filter (\<lambda>g. \<not> (g \<in> set ?fs \<and> ?P g)) (files d)" "db_inv d'"
    by auto
  have "length (filter ?P ?fs) = length (filter ?P (files d))"
    by (metis (no_types, lifting) filter_sort length_sort)
  moreover have "files d' = filter (\<lambda>f. \<not> ?P f) (files d)"
    unfolding run(3) by (intro filter_cong) auto
  ultimately show ?thesis
    using run assms(2)
    by (auto simp: delete_repo_all_sources_def delete_all_matching_def list_files_def)
qed

theorem delete_repo_removes_repo_witness:
  "\<exists>r d'. delete_repo_all_sources ''t9'' ''o/r'' (Some ''hf'') two_repos_db = (Inr r, d') \<and>
    deleted_files r = 1 \<and> map f_name (files d') = [''o/s/b''] \<and> db_inv d'"
proof -
  let ?P = "\<lambda>f. f_repo f = ''o/r'' \<and> source_matches (Some ''hf'') f"
  have "length (filter ?P (files two_repos_db)) = 1"
    "map f_name (filter (\<lambda>f. \<not> ?P f) (files two_repos_db)) = [''o/s/b'']" by code_simp+
  with delete_repo_removes_repo [OF two_repos_facts(1,2), of "''t9''" "''o/r''" "Some ''hf''"]
  show ?thesis by metis
qed

end
