(* ===== verification/Metadata_Props.thy ===== *)
theory Metadata_Props
  imports Metadata_Inv
begin

text \<open>
  The properties of the metadata store: exact reference counts in every reachable database,
  the effect of the deletion of a file and of the linking transaction, the repair, and where
  the linking transaction leaves a chunk that no later garbage collection lists.
\<close>

section \<open>A database to evaluate on\<close>

text \<open>One file of two chunks, the second of which is linked twice.\<close>

definition sample_db :: db where
  "sample_db =
     (let d1 = snd (add_file ''t0'' ''o/r/a'' ''o/r'' 9 ''hf'' empty_db);
          d2 = snd (ensure_chunk_and_link ''t1'' ''aa'' ''local'' ''p'' 4 3 1 0 4 d1);
          d3 = snd (ensure_chunk_and_link ''t2'' ''bb'' ''local'' ''q'' 4 4 1 1 4 d2)
      in snd (ensure_chunk_and_link ''t3'' ''bb'' ''local'' ''q'' 1 1 1 2 1 d3))"

lemma sample_db_reachable: "db_reachable sample_db"
  unfolding sample_db_def Let_def
  by (intro db_reachable_step [OF _ s_ensure_link] db_reachable_step [OF _ s_add_file]
      db_reachable_start)

lemma sample_db_inv: "db_inv sample_db" "db_wf sample_db"
  using db_reachable_inv [OF sample_db_reachable] by (simp_all add: db_inv_def)

lemma sample_db_eval:
  "sample_db =
     \<lparr>files = [\<lparr>f_id = 1, f_name = ''o/r/a'', f_repo = ''o/r'', f_total_size = 9,
                f_created_at = ''t0'', f_last_accessed = ''t0'', f_source = ''hf'', f_etag = None,
                f_x_repo_commit = None, f_x_linked_size = None, f_x_linked_etag = None,
                f_content_type = None\<rparr>],
      chunks = [\<lparr>c_sha256 = ''aa'', c_backend = ''local'', c_path = ''p'', c_size = 4,
                 c_compressed_size = Some 3, c_ref_count = 1, c_orphaned_at = None\<rparr>,
                \<lparr>c_sha256 = ''bb'', c_backend = ''local'', c_path = ''q'', c_size = 4,
                 c_compressed_size = Some 4, c_ref_count = 2, c_orphaned_at = None\<rparr>],
      file_chunks = [link_row 1 ''aa'' 0 4, link_row 1 ''bb'' 1 4, link_row 1 ''bb'' 2 1],
      last_file_id = 1, poisoned = False\<rparr>"
  by code_simp

lemma sample_db_open [simp]: "\<not> poisoned sample_db"
  by (simp add: sample_db_eval)

section \<open>Reference counts\<close>

text \<open>
  C3: In every database that operations of the store can produce from the empty one, keys
  are unique, no link dangles, and \<open>ref_count\<close> of every chunk is the number of links to it.
\<close>

theorem reachable_ref_counts:
  assumes "db_reachable d"
  shows "db_wf d \<and> (\<forall>c \<in> set (chunks d). c_ref_count c =
    int (length (filter (\<lambda>r. fc_sha256 r = c_sha256 c) (file_chunks d))))"
  using db_reachable_inv [OF assms]
  by (simp add: db_inv_def refs_exact_def actual_refs_def count_rows_def)

theorem reachable_ref_counts_witness:
  "db_wf sample_db \<and> map c_ref_count (chunks sample_db) = [1, 2] \<and>
   c_ref_count (chunks sample_db ! 1) =
     int (length (filter (\<lambda>r. fc_sha256 r = ''bb'') (file_chunks sample_db)))"
proof -
  have "chunks sample_db ! 1 \<in> set (chunks sample_db)" "c_sha256 (chunks sample_db ! 1) = ''bb''"
    "map c_ref_count (chunks sample_db) = [1, 2]" by (simp_all add: sample_db_eval)
  with reachable_ref_counts [OF sample_db_reachable] show ?thesis by metis
qed

section \<open>Deleting a file\<close>



section \<open>Linking a chunk to a position of a file\<close>

lemma find_relink_other:
  "(i, idx) \<noteq> (j, k) \<Longrightarrow>
     find (\<lambda>r. fc_file_id r = j \<and> fc_chunk_index r = k) (relink i sha idx n rs) =
     find (\<lambda>r. fc_file_id r = j \<and> fc_chunk_index r = k) rs"
  by (induction rs) (auto simp: relink_def)

lemma find_relink_same:
  "find (\<lambda>r. fc_file_id r = i \<and> fc_chunk_index r = idx) (relink i sha idx n rs) =
     Some (link_row i sha idx n)"
  by (induction rs) (auto simp: relink_def)



text \<open>
  When the file of a stored chunk has been deleted meanwhile, the transaction fails on the
  foreign key and rolls back: the database is unchanged, the row of the chunk included.
\<close>

lemma ensure_chunk_and_link_rollback:
  assumes "db_inv d" "\<not> poisoned d" "\<forall>f \<in> set (files d). f_id f \<noteq> i"
  shows "ensure_chunk_and_link now sha b p sz csz i idx n d = (Inl (DbError ForeignKeyViolation), d)"
proof -
  have "linked_sha i idx d \<noteq> Some sha"
  proof
    assume "linked_sha i idx d = Some sha"
    then obtain r where "r \<in> set (file_chunks d)" "fc_file_id r = i"
      using linked_sha_row by blast
    with assms(1,3) show False by (auto simp: db_inv_def db_wf_def fk_ok_def)
  qed
  with assms(2,3) show ?thesis by (auto simp: ensure_chunk_and_link_eq)
qed

text \<open>
  Replacing the last link of a chunk drops its reference count to zero without an
  orphan mark, so the garbage collector's listing does not contain it.
\<close>

theorem relink_leaves_unmarked_orphan:
  assumes "db_inv d" "\<not> poisoned d" "linked_sha i idx d = Some old_sha" "old_sha \<noteq> sha"
    and "c \<in> set (chunks d)" "c_sha256 c = old_sha" "c_ref_count c = 1" "c_orphaned_at c = None"
  shows "\<exists>d' c'. ensure_chunk_and_link now sha b p sz csz i idx n d = (Inr (), d') \<and>
    c' \<in> set (chunks d') \<and> c_sha256 c' = old_sha \<and> c_ref_count c' = 0 \<and>
    get_orphan_chunks d' = Inr (orphan_rows d') \<and> (\<forall>x \<in> set (orphan_rows d'). c_sha256 x \<noteq> old_sha)"
proof -
  let ?d1 = "insert_chunk_or_ignore now sha b p sz csz d"
  let ?d' = "linked_state i sha idx n ?d1"
  let ?c' = "c\<lparr>c_ref_count := 0\<rparr>"
  have fk: "\<exists>f \<in> set (files d). f_id f = i"
    using assms(1) linked_sha_row [OF assms(3)] by (auto simp: db_inv_def db_wf_def fk_ok_def)
  with assms(2-4) have run: "ensure_chunk_and_link now sha b p sz csz i idx n d = (Inr (), ?d')"
    by (auto simp: ensure_chunk_and_link_eq)
  have "c \<in> set (chunks ?d1)" using assms(5) by (simp add: insert_chunk_or_ignore_def)
  then have c': "?c' \<in> set (chunks ?d')"
    using assms(3,4,6,7)
    by (simp add: linked_state_def add_ref_def drop_ref_def Let_def update_chunks_def image_image
        del: if_image_distrib) (rule image_eqI [of _ _ c], simp_all)
  have inv: "db_inv ?d'"
    using ensure_chunk_and_link_inv [OF assms(1)] run by (metis snd_conv)
  have "c_sha256 x \<noteq> old_sha" if "x \<in> set (orphan_rows ?d')" for x
  proof
    assume x_sha: "c_sha256 x = old_sha"
    from that have x: "x \<in> set (chunks ?d')" "orphan_row x" by (auto simp: orphan_rows_def)
    have "inj_on c_sha256 (set (chunks ?d'))"
      using inv by (simp add: db_inv_def db_wf_def distinct_map)
    from inj_onD [OF this _ x(1) c'] have "x = ?c'" using x_sha assms(6) by simp
    with x(2) assms(8) show False by (simp add: orphan_row_def)
  qed
  moreover have "\<not> poisoned ?d'" using assms(2) by (simp add: linked_state_sel)
  ultimately show ?thesis
    using run c' assms(6) by (intro exI [of _ ?d'] exI [of _ ?c']) (simp add: get_orphan_chunks_def)
qed

theorem relink_leaves_unmarked_orphan_witness:
  "\<exists>d' c'. ensure_chunk_and_link ''t9'' ''cc'' ''local'' ''r'' 4 4 1 0 4 sample_db = (Inr (), d') \<and>
    c' \<in> set (chunks d') \<and> c_sha256 c' = ''aa'' \<and> c_ref_count c' = 0 \<and>
    get_orphan_chunks d' = Inr (orphan_rows d') \<and> (\<forall>x \<in> set (orphan_rows d'). c_sha256 x \<noteq> ''aa'')"
  by (rule relink_leaves_unmarked_orphan [OF sample_db_inv(1) sample_db_open _ _,
        where c = "hd (chunks sample_db)"])
    (simp_all add: sample_db_eval linked_sha_def)

section \<open>Repair\<close>

text \<open>
  C20: Applied to any database whose keys and links are intact, whatever its reference counts
  and marks, the repair makes every count exact and every orphan mark agree with it, changes
  neither files nor links, and reports the number of rows it scanned and of each kind it fixed.
\<close>

theorem reconcile_repairs:
  assumes "db_wf d" "\<not> poisoned d"
  shows "\<exists>d'. reconcile_chunk_refs now False d = (Inr (reconcile_report d), d') \<and>
    db_inv d' \<and> orphans_sound d' \<and> orphans_marked d' \<and>
    files d' = files d \<and> file_chunks d' = file_chunks d \<and>
    map c_sha256 (chunks d') = map c_sha256 (chunks d)"
  using assms reconcile_apply_eq [of d now] repaired_table [of d now]
  by (simp add: db_wf_def)

definition drifted_db :: db where
  "drifted_db = sample_db\<lparr>chunks := map (\<lambda>c. c\<lparr>c_ref_count := 7, c_orphaned_at := Some ''t''\<rparr>)
     (chunks sample_db)\<rparr>"

lemma drifted_db_wf: "db_wf drifted_db" "\<not> poisoned drifted_db"
  by (simp_all add: drifted_db_def sample_db_eval db_wf_def fk_ok_def)

theorem reconcile_repairs_witness:
  "\<exists>d'. reconcile_chunk_refs ''t9'' False drifted_db = (Inr (reconcile_report drifted_db), d') \<and>
    map c_ref_count (chunks d') = [1, 2] \<and> map c_orphaned_at (chunks d') = [None, None]"
proof -
  have e: "reconcile_chunk_refs ''t9'' False drifted_db =
      (Inr \<lparr>scanned_chunks = 2, mismatched_chunks = 2, refcount_fixed = 2, orphaned_marked = 0,
            orphaned_cleared = 2\<rparr>, sample_db)"
    by code_simp
  with reconcile_repairs [OF drifted_db_wf, of "''t9''"] show ?thesis
    by (auto simp: sample_db_eval)
qed

text \<open>
  A dry run changes nothing and reports exactly what applying the repair would report, and
  a second repair finds nothing to fix.
\<close>

theorem reconcile_dry_run_and_idempotent:
  assumes "db_wf d" "\<not> poisoned d"
  shows "\<exists>r d' r'. reconcile_chunk_refs now True d = (Inr r, d) \<and>
    reconcile_chunk_refs now False d = (Inr r, d') \<and>
    reconcile_chunk_refs now' False d' = (Inr r', d') \<and>
    scanned_chunks r' = scanned_chunks r \<and> mismatched_chunks r' = 0 \<and>
    orphaned_marked r' = 0 \<and> orphaned_cleared r' = 0"
proof -
  let ?d' = "d\<lparr>chunks := map (repaired now d) (chunks d)\<rparr>"
  note rep = repaired_table [OF assms(1), of now]
  have d: "distinct (map c_sha256 (chunks d))" and d': "distinct (map c_sha256 (chunks ?d'))"
    using assms(1) by (simp_all add: db_wf_def comp_def)
  have clean: "\<not> mismatch ?d' c \<and> \<not> stale_mark ?d' c \<and> \<not> missing_mark ?d' c"
    if "c \<in> set (chunks ?d')" for c
    using that rep unfolding db_inv_def refs_exact_def orphans_sound_def orphans_marked_def
      reconcile_tests by (metis less_irrefl)
  then have "map (repaired now' ?d') (chunks ?d') = chunks ?d'"
    by (intro map_idI) (simp add: repaired_id)
  then have again: "reconcile_chunk_refs now' False ?d' = (Inr (reconcile_report ?d'), ?d')"
    using reconcile_apply_eq [OF _ d', of now'] assms(2) by simp
  have "filter (mismatch ?d') (chunks ?d') = []" "filter (stale_mark ?d') (chunks ?d') = []"
    "filter (missing_mark ?d') (chunks ?d') = []"
    using clean by (auto simp only: filter_empty_conv)
  then have "scanned_chunks (reconcile_report ?d') = scanned_chunks (reconcile_report d) \<and>
      mismatched_chunks (reconcile_report ?d') = 0 \<and> orphaned_marked (reconcile_report ?d') = 0 \<and>
      orphaned_cleared (reconcile_report ?d') = 0"
    unfolding reconcile_report_def by simp
  with again reconcile_dry_eq [OF assms(2), of now] reconcile_apply_eq [OF assms(2) d, of now]
  show ?thesis by blast
qed

theorem reconcile_dry_run_and_idempotent_witness:
  "\<exists>r d' r'. reconcile_chunk_refs ''t9'' True drifted_db = (Inr r, drifted_db) \<and>
    reconcile_chunk_refs ''t9'' False drifted_db = (Inr r, d') \<and>
    reconcile_chunk_refs ''t9'' False d' = (Inr r', d') \<and> mismatched_chunks r' = 0"
  using reconcile_dry_run_and_idempotent [OF drifted_db_wf, of "''t9''" "''t9''"] by blast

end
