(* ===== verification/Session.thy ===== *)
theory Session
  imports Metadata Float64
begin

text \<open>
  The file session of \<open>src/session.rs\<close>: the actor that serves all readers of one file that is
  being downloaded (\<open>FileSessionActor\<close>), its handle and the manager that creates it. The actor
  is a task that owns its state; what other tasks do to it between two of its steps is an
  input of a round: the messages in its mailbox, which reply channels have been closed by
  their readers, the map of cached chunks that the fetch tasks write, and what the session
  table answers to a chunk subscription. What the actor sends is kept in \<open>sent\<close>, in order; a
  send on a gone channel fails and its error is ignored, so it is not an entry.

  The sizes are \<open>u64\<close> and \<open>usize\<close> in the code: every byte position below is less than the
  size of the file, a number that came from an \<open>i64\<close>, so none of the sums wraps, and they
  are natural numbers here. The urgency is computed in \<open>f64\<close>, rounding included.
\<close>

section \<open>State\<close>

definition CHUNK_SIZE :: nat where
  "CHUNK_SIZE = 4 * 1024 * 1024"

definition prefetch_budget :: "nat \<Rightarrow> nat \<Rightarrow> nat" where
  "prefetch_budget base active_cursors =
     (if active_cursors \<le> 1 then base
      else if active_cursors = 2 then max (base div 2) 1
      else max (base div 4) 1)"

text \<open>A reply channel is named by a number.\<close>

type_synonym subscriber_entry = "nat \<times> nat \<times> nat"

datatype session_message =
    Subscribe nat file_row "nat \<times> nat"
  | TickBackpressure

record actor_handle =
  ah_file :: file_row
  ah_total_size :: nat

record actor =
  a_file_id :: int
  a_name :: string
  a_url :: string
  a_total_size :: nat
  a_chunk_count :: nat
  a_user_agent :: "string option"
  a_prefetch_budget_base :: nat
  served_bytes :: nat
  subscribers :: "subscriber_entry list"
  completed :: "nat set"
  prefetch_inflight :: "nat set"
  sent :: "(nat \<times> bytes res) list"
  spawned :: "(nat \<times> nat \<times> nat) list"

text \<open>What \<open>SessionTable::subscribe\<close> and then \<open>rx.recv()\<close> give.\<close>

datatype received =
    Chunk bytes
  | Chunk_failed anyhow
  | Channel_closed
  | Lagged nat
  | Subscribe_failed anyhow

datatype status = Running | Finished | Aborted anyhow | Actor_panicked

record actor_round =
  r_msgs :: "session_message list"
  r_closed :: "nat \<Rightarrow> bool"
  r_closed_later :: "nat \<Rightarrow> bool"
  r_cached :: "nat \<Rightarrow> bool"
  r_download :: "nat \<Rightarrow> nat \<Rightarrow> nat \<Rightarrow> received"
  r_cached_after :: "nat \<Rightarrow> bool"

section \<open>Subscribing\<close>

text \<open>
  \<open>ActorHandle::subscribe\<close>: the message it sends, on the channel \<open>reply\<close>, with the answer.
  \<open>stopped\<close> says that the actor no longer reads its mailbox.
\<close>

definition handle_subscribe ::
  "bool \<Rightarrow> actor_handle \<Rightarrow> nat \<Rightarrow> (nat \<times> nat option) option \<Rightarrow>
    (file_row \<times> nat \<times> session_message) res" where
  "handle_subscribe stopped h reply rng =
     (let total_size = ah_total_size h;
          req_start = (case rng of None \<Rightarrow> 0 | Some r \<Rightarrow> fst r);
          req_end = min (case Option.bind rng snd of
                           None \<Rightarrow> saturating_sub total_size 1 | Some e \<Rightarrow> e)
                        (saturating_sub total_size 1)
      in if req_start > req_end \<or> req_start \<ge> total_size
         then Inl (StreamError (InvalidRange req_start req_end total_size))
         else if stopped then Inl (StreamError ActorStopped)
         else Inr (ah_file h, req_end - req_start + 1,
                   Subscribe reply (ah_file h) (req_start, req_end)))"

section \<open>Choosing the next chunk\<close>

definition compute_active_cursors :: "actor \<Rightarrow> nat list" where
  "compute_active_cursors a =
     (let max_idx = saturating_sub (a_chunk_count a) 1
      in remdups_adj (sort (List.map_filter
           (\<lambda>(s, e, _).
              find (\<lambda>idx. idx \<notin> completed a \<and> idx \<notin> prefetch_inflight a)
                [s div CHUNK_SIZE ..< Suc (min (e div CHUNK_SIZE) max_idx)])
           (subscribers a))))"

definition urgency :: "nat \<Rightarrow> nat \<Rightarrow> nat \<Rightarrow> f64" where
  "urgency s e idx =
     (let chunk_byte_start = idx * CHUNK_SIZE;
          distance = (if chunk_byte_start \<ge> s then f64_of_nat (chunk_byte_start - s) else 0)
      in f64_div distance (f64_of_nat (max (e - s) 1)))"

definition consider_chunk :: "nat set \<Rightarrow> nat \<times> f64 \<Rightarrow> (nat \<times> f64) option \<Rightarrow> (nat \<times> f64) option" where
  "consider_chunk done_set cand best =
     (if fst cand \<in> done_set then best
      else case best of
             None \<Rightarrow> Some cand
           | Some b \<Rightarrow> if snd cand < snd b then Some cand else best)"

definition candidates :: "actor \<Rightarrow> subscriber_entry \<Rightarrow> (nat \<times> f64) list" where
  "candidates a sub =
     (case sub of (s, e, _) \<Rightarrow>
        map (\<lambda>idx. (idx, urgency s e idx))
          [s div CHUNK_SIZE ..< Suc (min (e div CHUNK_SIZE) (saturating_sub (a_chunk_count a) 1))])"

definition select_next_chunk :: "actor \<Rightarrow> nat option" where
  "select_next_chunk a =
     map_option fst
       (fold (\<lambda>sub best. fold (consider_chunk (completed a)) (candidates a sub) best)
          (subscribers a) None)"

section \<open>Forwarding\<close>

definition send :: "(nat \<Rightarrow> bool) \<Rightarrow> nat \<Rightarrow> bytes res \<Rightarrow> actor \<Rightarrow> actor" where
  "send gone tx msg a = (if gone tx then a else a\<lparr>sent := sent a @ [(tx, msg)]\<rparr>)"

text \<open>
  \<open>forward_chunk\<close>. \<open>None\<close> is the panic of the slice expression; the subtraction for an empty
  chunk at position 0 wraps to the largest \<open>u64\<close> (or panics at once, when overflow checks are
  compiled in).
\<close>

definition chunk_end_of :: "nat \<Rightarrow> nat \<Rightarrow> nat" where
  "chunk_end_of chunk_start len = (if chunk_start + len = 0 then 2 ^ 64 - 1 else chunk_start + len - 1)"

definition slice_for :: "nat \<Rightarrow> bytes \<Rightarrow> nat \<Rightarrow> nat \<Rightarrow> bytes option" where
  "slice_for chunk_start d s e =
     (let chunk_end = chunk_end_of chunk_start (length d);
          sl_start = (if s > chunk_start then s - chunk_start else 0);
          sl_end = (if e < chunk_end then e - chunk_start + 1 else length d)
      in checked_slice sl_start sl_end d)"

fun forward_chunk ::
  "(nat \<Rightarrow> bool) \<Rightarrow> nat \<Rightarrow> bytes \<Rightarrow> subscriber_entry list \<Rightarrow> actor \<Rightarrow> actor option" where
  "forward_chunk gone chunk_start d [] a = Some a"
| "forward_chunk gone chunk_start d ((s, e, tx) # subs) a =
     (if chunk_end_of chunk_start (length d) < s \<or> chunk_start > e
      then forward_chunk gone chunk_start d subs a
      else case slice_for chunk_start d s e of
             None \<Rightarrow> None
           | Some piece \<Rightarrow> forward_chunk gone chunk_start d subs (send gone tx (Inr piece) a))"

definition forward_error :: "(nat \<Rightarrow> bool) \<Rightarrow> anyhow \<Rightarrow> actor \<Rightarrow> actor" where
  "forward_error gone err a =
     fold (\<lambda>(_, _, tx) a. send gone tx (Inl err) a) (subscribers a) a"

definition clean_subscribers :: "(nat \<Rightarrow> bool) \<Rightarrow> actor \<Rightarrow> actor" where
  "clean_subscribers gone a =
     a\<lparr>subscribers := filter (\<lambda>(_, _, tx). \<not> gone tx) (subscribers a)\<rparr>"

section \<open>Prefetching\<close>

definition cleanup_prefetches :: "(nat \<Rightarrow> bool) \<Rightarrow> actor \<Rightarrow> actor" where
  "cleanup_prefetches cached a =
     a\<lparr>prefetch_inflight := {idx \<in> prefetch_inflight a. idx \<notin> completed a \<and> \<not> cached idx}\<rparr>"

definition chunk_span :: "nat \<Rightarrow> nat \<Rightarrow> nat \<times> nat" where
  "chunk_span total_size idx =
     (let start = idx * CHUNK_SIZE in (start, min (start + CHUNK_SIZE - 1) (total_size - 1)))"

definition prefetch_one :: "(nat \<Rightarrow> bool) \<Rightarrow> nat \<Rightarrow> actor \<Rightarrow> actor" where
  "prefetch_one cached j a =
     (if j \<in> completed a \<or> j \<in> prefetch_inflight a \<or> cached j then a
      else a\<lparr>prefetch_inflight := insert j (prefetch_inflight a),
             spawned := spawned a @ [(j, chunk_span (a_total_size a) j)]\<rparr>)"

definition schedule_prefetches :: "(nat \<Rightarrow> bool) \<Rightarrow> actor \<Rightarrow> actor" where
  "schedule_prefetches cached a =
     (let cursors = compute_active_cursors a
      in if cursors = [] then a
         else let budget = prefetch_budget (a_prefetch_budget_base a) (length cursors);
                  per_cursor = max (budget div max (length cursors) 1) 1
              in fold (\<lambda>cursor. fold (prefetch_one cached)
                     [cursor + 1 ..< min (cursor + 1 + per_cursor) (a_chunk_count a)])
                   cursors a)"

section \<open>The actor\<close>

definition spawn ::
  "int \<Rightarrow> string \<Rightarrow> string \<Rightarrow> nat \<Rightarrow> nat \<Rightarrow> string option \<Rightarrow> nat \<Rightarrow> file_row \<Rightarrow> actor_handle \<times> actor" where
  "spawn file_id name url total_size chunks_total user_agent prefetch_base fl =
     (\<lparr>ah_file = fl, ah_total_size = total_size\<rparr>,
      \<lparr>a_file_id = file_id, a_name = name, a_url = url, a_total_size = total_size,
       a_chunk_count = max chunks_total 1, a_user_agent = user_agent,
       a_prefetch_budget_base = prefetch_base, served_bytes = 0, subscribers = [],
       completed = {}, prefetch_inflight = {}, sent = [], spawned = []\<rparr>)"

fun receive_message :: "session_message \<Rightarrow> actor \<Rightarrow> actor" where
  "receive_message (Subscribe reply fl rng) a =
     a\<lparr>subscribers := subscribers a @ [(fst rng, snd rng, reply)]\<rparr>"
| "receive_message TickBackpressure a = a"

definition download_and_forward ::
  "(nat \<Rightarrow> bool) \<Rightarrow> (nat \<Rightarrow> nat \<Rightarrow> nat \<Rightarrow> received) \<Rightarrow> nat \<Rightarrow> actor \<Rightarrow> actor \<times> status" where
  "download_and_forward gone download idx a =
     (case chunk_span (a_total_size a) idx of (start, end_pos) \<Rightarrow>
        case download idx start end_pos of
          Subscribe_failed e \<Rightarrow> (a, Aborted e)
        | Chunk d \<Rightarrow>
            (case forward_chunk gone start d (subscribers a) a of
               None \<Rightarrow> (a, Actor_panicked)
             | Some a' \<Rightarrow>
                 (a'\<lparr>served_bytes := (served_bytes a' + length d) mod 2 ^ 64,
                     completed := insert idx (completed a')\<rparr>, Running))
        | Chunk_failed err \<Rightarrow>
            (forward_error gone err a, Aborted err)
        | Channel_closed \<Rightarrow>
            (forward_error gone (ChunkError (DownloadClosed idx)) a,
             Aborted (ChunkError (DownloadClosed idx)))
        | Lagged n \<Rightarrow>
            (forward_error gone (ChunkError (ReceiverLagged idx n)) a,
             Aborted (ChunkError (ReceiverLagged idx n))))"

text \<open>
  One turn of the loop of \<open>run\<close>, whose first part drains the mailbox and tidies up, and the loop
  over the inputs of its turns.
\<close>

definition tidy :: "actor_round \<Rightarrow> actor \<Rightarrow> actor" where
  "tidy r a = cleanup_prefetches (r_cached r)
     (clean_subscribers (r_closed r) (fold receive_message (r_msgs r) a))"

definition run_round :: "actor_round \<Rightarrow> actor \<Rightarrow> actor \<times> status" where
  "run_round r a0 =
     (let a2 = tidy r a0
      in if subscribers a2 = [] \<and> prefetch_inflight a2 = {} then (a2\<lparr>subscribers := []\<rparr>, Finished)
         else case select_next_chunk a2 of
                None \<Rightarrow> (a2\<lparr>subscribers := []\<rparr>, Finished)
              | Some idx \<Rightarrow>
                  let a3 = a2\<lparr>prefetch_inflight := prefetch_inflight a2 - {idx}\<rparr>
                  in case download_and_forward (r_closed_later r) (r_download r) idx a3 of
                       (a4, Running) \<Rightarrow> (schedule_prefetches (r_cached_after r) a4, Running)
                     | (a4, st) \<Rightarrow> (a4\<lparr>subscribers := []\<rparr>, st))"

fun run :: "actor_round list \<Rightarrow> actor \<Rightarrow> actor \<times> status" where
  "run [] a = (a, Running)"
| "run (r # rs) a =
     (case run_round r a of
        (a', Running) \<Rightarrow> run rs a'
      | (a', st) \<Rightarrow> (a', st))"

definition received_by :: "nat \<Rightarrow> actor \<Rightarrow> bytes res list" where
  "received_by tx a = map snd (filter (\<lambda>(t, _). t = tx) (sent a))"

section \<open>The manager of the sessions\<close>

text \<open>
  \<open>FileSessionManager\<close>: the map from file ids to the handle of the file's actor; \<open>gone\<close>
  says which entry's actor has stopped.
\<close>

type_synonym sessions = "int \<rightharpoonup> actor_handle"

definition get_or_create ::
  "(int \<Rightarrow> bool) \<Rightarrow> int \<Rightarrow> string \<Rightarrow> string \<Rightarrow> nat \<Rightarrow> nat \<Rightarrow> string option \<Rightarrow> file_row \<Rightarrow>
    sessions \<Rightarrow> actor_handle \<times> actor option \<times> sessions" where
  "get_or_create gone file_id name url total_size prefetch_base user_agent fl m =
     (case (if gone file_id then None else m file_id) of
        Some h \<Rightarrow> (h, None, m)
      | None \<Rightarrow>
          (case spawn file_id name url total_size (div_ceil total_size CHUNK_SIZE) user_agent
                  prefetch_base fl of
             (h, a) \<Rightarrow> (h, Some a, m(file_id \<mapsto> h))))"

definition remove_session :: "int \<Rightarrow> sessions \<Rightarrow> sessions" where
  "remove_session file_id m = m(file_id := None)"

end
