(* ===== verification/Session_Props.thy ===== *)
theory Session_Props
  imports Session
begin

text \<open>
  The actor's loop: which chunk it selects, what its steps leave alone, what one turn forwards to
  each reader, and that it ends. What the readers have received in the end is the matter of
  \<open>Session_Deliver\<close> and \<open>Session_Sharing\<close>.
\<close>

section \<open>The selection of the next chunk\<close>

lemma CHUNK_SIZE_pos: "0 < CHUNK_SIZE"
  by (simp add: CHUNK_SIZE_def)

definition all_candidates :: "actor \<Rightarrow> (nat \<times> f64) list" where
  "all_candidates a = concat (map (candidates a) (subscribers a))"

lemma select_eq:
  "select_next_chunk a = map_option fst (fold (consider_chunk (completed a)) (all_candidates a) None)"
proof -
  have "fold (\<lambda>sub. fold (consider_chunk D) (candidates a sub)) subs best =
      fold (consider_chunk D) (concat (map (candidates a) subs)) best" for D subs best
    by (induction subs arbitrary: best) simp_all
  then show ?thesis by (simp add: select_next_chunk_def all_candidates_def)
qed

lemma consider_None_iff:
  "fold (consider_chunk D) xs best = None \<longleftrightarrow> best = None \<and> (\<forall>x \<in> set xs. fst x \<in> D)"
  by (induction xs arbitrary: best) (auto simp: consider_chunk_def split: option.splits)

lemma consider_SomeD:
  "fold (consider_chunk D) xs best = Some b \<Longrightarrow> best = Some b \<or> (b \<in> set xs \<and> fst b \<notin> D)"
proof (induction xs arbitrary: best)
  case (Cons x xs)
  then have "consider_chunk D x best = Some b \<or> (b \<in> set xs \<and> fst b \<notin> D)" by simp
  then show ?case by (auto simp: consider_chunk_def split: if_splits option.splits)
qed simp

lemma consider_stays:
  "\<forall>x \<in> set xs. snd b \<le> snd x \<Longrightarrow> fold (consider_chunk D) xs (Some b) = Some b"
  by (induction xs) (auto simp: consider_chunk_def)

lemma consider_first:
  "sorted_wrt (\<lambda>x y. snd x \<le> snd y) xs \<Longrightarrow>
     fold (consider_chunk D) xs None = find (\<lambda>x. fst x \<notin> D) xs"
  by (induction xs) (auto simp: consider_chunk_def intro: consider_stays)

lemma urgency_mono: "i \<le> j \<Longrightarrow> urgency s e i \<le> urgency s e j"
proof -
  assume "i \<le> j"
  then have le: "i * CHUNK_SIZE \<le> j * CHUNK_SIZE" by simp
  have pos: "0 < f64_of_nat (max (e - s) 1)" by (rule f64_of_nat_pos) simp
  show ?thesis
  proof (cases "s \<le> i * CHUNK_SIZE")
    case True
    with le have "f64_of_nat (i * CHUNK_SIZE - s) \<le> f64_of_nat (j * CHUNK_SIZE - s)"
      by (intro f64_of_nat_mono diff_le_mono)
    moreover have "s \<le> j * CHUNK_SIZE" using True le by linarith
    ultimately show ?thesis using True pos by (simp add: urgency_def Let_def f64_div_mono)
  next
    case False
    with pos show ?thesis by (simp add: urgency_def Let_def f64_div_nonneg)
  qed
qed

lemma candidate_bound:
  "x \<in> set (all_candidates a) \<Longrightarrow> 0 < a_chunk_count a \<Longrightarrow> fst x < a_chunk_count a"
  by (auto simp: all_candidates_def candidates_def saturating_sub_def)

lemma select_SomeD:
  assumes "select_next_chunk a = Some idx"
  shows "idx \<notin> completed a" "idx \<in> fst ` set (all_candidates a)"
  using assms consider_SomeD [of "completed a" "all_candidates a" None] by (force simp: select_eq)+

section \<open>What the steps leave alone\<close>

lemma send_sel [simp]:
  "subscribers (send gone tx m a) = subscribers a" "completed (send gone tx m a) = completed a"
  "a_chunk_count (send gone tx m a) = a_chunk_count a" "a_total_size (send gone tx m a) = a_total_size a"
  "prefetch_inflight (send gone tx m a) = prefetch_inflight a"
  by (simp_all add: send_def)

lemma forward_chunk_sel:
  "forward_chunk gone st d subs a = Some a' \<Longrightarrow>
     subscribers a' = subscribers a \<and> completed a' = completed a \<and>
     a_chunk_count a' = a_chunk_count a \<and> a_total_size a' = a_total_size a"
  by (induction gone st d subs a rule: forward_chunk.induct)
    (auto split: if_splits option.splits)

lemma forward_error_sel [simp]:
  "completed (forward_error gone err a) = completed a"
  "a_chunk_count (forward_error gone err a) = a_chunk_count a"
proof -
  have "completed (fold (\<lambda>(_, _, tx). send gone tx m) subs a) = completed a \<and>
      a_chunk_count (fold (\<lambda>(_, _, tx). send gone tx m) subs a) = a_chunk_count a"
    for subs :: "subscriber_entry list" and m
    by (induction subs arbitrary: a) auto
  then show "completed (forward_error gone err a) = completed a"
    and "a_chunk_count (forward_error gone err a) = a_chunk_count a"
    by (simp_all add: forward_error_def)
qed

lemma receive_sel [simp]:
  "completed (receive_message m a) = completed a" "sent (receive_message m a) = sent a"
  "a_chunk_count (receive_message m a) = a_chunk_count a"
  "a_total_size (receive_message m a) = a_total_size a"
  by (cases m; simp)+

lemma receive_all_sel [simp]:
  "completed (fold receive_message ms a) = completed a" "sent (fold receive_message ms a) = sent a"
  "a_chunk_count (fold receive_message ms a) = a_chunk_count a"
  "a_total_size (fold receive_message ms a) = a_total_size a"
  by (induction ms arbitrary: a) simp_all

lemma clean_sel [simp]:
  "completed (clean_subscribers gone a) = completed a" "sent (clean_subscribers gone a) = sent a"
  "a_chunk_count (clean_subscribers gone a) = a_chunk_count a"
  "a_total_size (clean_subscribers gone a) = a_total_size a"
  "subscribers (clean_subscribers gone a) = filter (\<lambda>(_, _, tx). \<not> gone tx) (subscribers a)"
  by (simp_all add: clean_subscribers_def)

lemma cleanup_sel [simp]:
  "completed (cleanup_prefetches c a) = completed a" "sent (cleanup_prefetches c a) = sent a"
  "a_chunk_count (cleanup_prefetches c a) = a_chunk_count a"
  "a_total_size (cleanup_prefetches c a) = a_total_size a"
  "subscribers (cleanup_prefetches c a) = subscribers a"
  by (simp_all add: cleanup_prefetches_def)

definition same_but_prefetch :: "actor \<Rightarrow> actor \<Rightarrow> bool" where
  "same_but_prefetch a b =
     (\<exists>p q. b = a\<lparr>prefetch_inflight := p, spawned := q\<rparr>)"

lemma same_refl: "same_but_prefetch a a"
  unfolding same_but_prefetch_def by (metis actor.surjective actor.update_convs(11,13))

lemma same_trans: "same_but_prefetch a b \<Longrightarrow> same_but_prefetch b c \<Longrightarrow> same_but_prefetch a c"
  unfolding same_but_prefetch_def by (elim exE) (simp, blast)

lemma same_fold: "(\<And>x a. same_but_prefetch a (f x a)) \<Longrightarrow> same_but_prefetch a (fold f xs a)"
  by (induction xs arbitrary: a) (auto simp: same_refl intro: same_trans)

lemma same_prefetch_one: "same_but_prefetch a (prefetch_one c j a)"
  using same_refl [of a] by (auto simp: prefetch_one_def same_but_prefetch_def)

lemma same_schedule: "same_but_prefetch a (schedule_prefetches c a)"
  by (auto simp: schedule_prefetches_def Let_def same_refl intro!: same_fold same_prefetch_one)

lemma schedule_sel [simp]:
  "completed (schedule_prefetches c a) = completed a" "sent (schedule_prefetches c a) = sent a"
  "a_chunk_count (schedule_prefetches c a) = a_chunk_count a"
  "a_total_size (schedule_prefetches c a) = a_total_size a"
  "subscribers (schedule_prefetches c a) = subscribers a"
  using same_schedule [of a c] by (auto simp: same_but_prefetch_def)

section \<open>Termination\<close>

lemma download_running:
  assumes "download_and_forward gone dl idx a = (a', Running)"
  shows "completed a' = insert idx (completed a)" "a_chunk_count a' = a_chunk_count a"
    and "a_total_size a' = a_total_size a" "subscribers a' = subscribers a"
  using assms forward_chunk_sel [of gone _ _ _ a]
  by (auto simp: download_and_forward_def split: prod.splits received.splits option.splits)

lemma tidy_sel [simp]:
  "completed (tidy r a) = completed a" "sent (tidy r a) = sent a"
  "a_chunk_count (tidy r a) = a_chunk_count a" "a_total_size (tidy r a) = a_total_size a"
  by (simp_all add: tidy_def)

lemma subscribers_tidy:
  "subscribers (tidy r a) =
     filter (\<lambda>(_, _, tx). \<not> r_closed r tx) (subscribers (fold receive_message (r_msgs r) a))"
  by (simp add: tidy_def)

definition activated :: "actor_round \<Rightarrow> nat \<Rightarrow> actor \<Rightarrow> actor" where
  "activated r idx a = (tidy r a)\<lparr>prefetch_inflight := prefetch_inflight (tidy r a) - {idx}\<rparr>"

lemma activated_sel [simp]:
  "completed (activated r idx a) = completed a" "sent (activated r idx a) = sent a"
  "a_chunk_count (activated r idx a) = a_chunk_count a"
  "a_total_size (activated r idx a) = a_total_size a"
  "subscribers (activated r idx a) = subscribers (tidy r a)"
  by (simp_all add: activated_def)

text \<open>A turn either stops, or downloads the selected chunk and prefetches.\<close>

lemma run_round_cases:
  assumes "run_round r a = (a', st)"
  obtains (idle) "st = Finished" "sent a' = sent a" "subscribers (tidy r a) = []"
  | (all_done) "st = Finished" "sent a' = sent a" "select_next_chunk (tidy r a) = None"
  | (running) idx a4 where "st = Running" "select_next_chunk (tidy r a) = Some idx"
      "download_and_forward (r_closed_later r) (r_download r) idx (activated r idx a) = (a4, Running)"
      "a' = schedule_prefetches (r_cached_after r) a4"
  | (stopping) idx a4 where "st \<noteq> Running" "select_next_chunk (tidy r a) = Some idx"
      "download_and_forward (r_closed_later r) (r_download r) idx (activated r idx a) = (a4, st)"
      "a' = a4\<lparr>subscribers := []\<rparr>"
proof (cases "subscribers (tidy r a) = [] \<and> prefetch_inflight (tidy r a) = {}")
  case True
  with assms have "(a', st) = ((tidy r a)\<lparr>subscribers := []\<rparr>, Finished)"
    by (simp add: run_round_def Let_def)
  then have "st = Finished" "sent a' = sent a" by simp_all
  with True idle show thesis by blast
next
  case F: False
  show thesis
  proof (cases "select_next_chunk (tidy r a)")
    case None
    with F assms have "(a', st) = ((tidy r a)\<lparr>subscribers := []\<rparr>, Finished)"
      by (simp only: run_round_def Let_def option.case if_False)
    then have "st = Finished" "sent a' = sent a" by simp_all
    with None all_done show thesis by blast
  next
    case (Some idx)
    obtain a4 st' where d: "download_and_forward (r_closed_later r) (r_download r) idx
        (activated r idx a) = (a4, st')" by fastforce
    with F Some assms have e: "(a', st) = (case st' of
        Running \<Rightarrow> (schedule_prefetches (r_cached_after r) a4, Running)
      | _ \<Rightarrow> (a4\<lparr>subscribers := []\<rparr>, st'))"
      by (cases st') (simp_all only: run_round_def Let_def activated_def prod.case option.case
          if_False status.case)
    show thesis
    proof (cases "st' = Running")
      case True
      with e d Some running show thesis by simp
    next
      case False
      with e d have "st \<noteq> Running" "st' = st" "a' = a4\<lparr>subscribers := []\<rparr>"
        by (simp_all split: status.splits)
      with d Some stopping show thesis by blast
    qed
  qed
qed

text \<open>
  C7: The loop of the actor ends. Whatever is asked, closed, cached or downloaded meanwhile,
  it takes at most as many turns that continue as the file has chunks: each of them completes
  one more chunk.
\<close>

theorem session_run_terminates:
  assumes "completed a \<subseteq> {..<a_chunk_count a}" "0 < a_chunk_count a"
    and "length rs > a_chunk_count a - card (completed a)"
  shows "snd (run rs a) \<noteq> Running"
  using assms
proof (induction rs arbitrary: a)
  case (Cons r rs)
  show ?case
  proof (cases "run_round r a")
    case (Pair a' st)
    show ?thesis
    proof (cases "st = Running")
      case True
      from Pair obtain idx where sel: "select_next_chunk (tidy r a) = Some idx"
        and a': "completed a' = insert idx (completed a)" "a_chunk_count a' = a_chunk_count a"
        by (cases rule: run_round_cases) (use True in \<open>force dest: download_running\<close>)+
      have idx: "idx \<notin> completed a" "idx < a_chunk_count a"
        using select_SomeD [OF sel] Cons.prems(2) candidate_bound [of _ "tidy r a"] by auto
      have "finite (completed a)" by (rule finite_subset [OF Cons.prems(1)]) simp
      then have "card (completed a') = Suc (card (completed a))" using a' idx by simp
      moreover have "completed a' \<subseteq> {..<a_chunk_count a'}" using a' idx Cons.prems(1) by simp
      moreover from this have "card (completed a') \<le> a_chunk_count a'"
        using card_mono [of "{..<a_chunk_count a'}"] by simp
      ultimately show ?thesis using Pair True a' Cons.IH [of a'] Cons.prems(2,3) by simp
    next
      case False
      with Pair show ?thesis by (cases st) simp_all
    qed
  qed
qed simp

text \<open>A file, and a turn in which nothing is closed and the download is the file's content.\<close>

definition tiny_file :: file_row where
  "tiny_file =
     \<lparr>f_id = 1, f_name = ''o/r/a'', f_repo = ''o/r'', f_total_size = 3, f_created_at = ''t'',
      f_last_accessed = ''t'', f_source = ''hf'', f_etag = None, f_x_repo_commit = None,
      f_x_linked_size = None, f_x_linked_etag = None, f_content_type = None\<rparr>"

definition plain_round :: "bytes \<Rightarrow> session_message list \<Rightarrow> actor_round" where
  "plain_round content msgs =
     \<lparr>r_msgs = msgs, r_closed = (\<lambda>_. False), r_closed_later = (\<lambda>_. False), r_cached = (\<lambda>_. False),
      r_download = (\<lambda>_ st en. Chunk (slice_of st (en + 1) content)), r_cached_after = (\<lambda>_. False)\<rparr>"

lemma plain_round_sel [simp]:
  "r_msgs (plain_round content msgs) = msgs"
  "r_closed (plain_round content msgs) = (\<lambda>_. False)"
  "r_closed_later (plain_round content msgs) = (\<lambda>_. False)"
  "r_download (plain_round content msgs) = (\<lambda>_ st en. Chunk (slice_of st (en + 1) content))"
  by (simp_all add: plain_round_def)

theorem session_run_terminates_witness:
  "snd (run [plain_round [1, 2, 3] [Subscribe 0 tiny_file (0, 2)], plain_round [1, 2, 3] []]
     (snd (spawn 1 ''o/r/a'' ''url'' 3 1 None 4 tiny_file))) \<noteq> Running"
  by (rule session_run_terminates) (simp_all add: spawn_def)

section \<open>What one forwarding sends\<close>

text \<open>The part of chunk \<open>idx\<close> of a file that a reader of the bytes \<open>s\<close> to \<open>e\<close> gets.\<close>

definition piece :: "bytes \<Rightarrow> nat \<Rightarrow> nat \<Rightarrow> nat \<Rightarrow> bytes" where
  "piece content s e idx =
     slice_of (max s (idx * CHUNK_SIZE)) (min (Suc e) (Suc idx * CHUNK_SIZE)) content"

definition chunk_of :: "bytes \<Rightarrow> nat \<Rightarrow> bytes" where
  "chunk_of content idx = slice_of (idx * CHUNK_SIZE) (Suc idx * CHUNK_SIZE) content"

definition wants :: "nat \<Rightarrow> nat \<Rightarrow> nat \<Rightarrow> bool" where
  "wants s e idx \<longleftrightarrow> s div CHUNK_SIZE \<le> idx \<and> idx \<le> e div CHUNK_SIZE"

lemma wants_iff: "wants s e idx \<longleftrightarrow> s < Suc idx * CHUNK_SIZE \<and> idx * CHUNK_SIZE \<le> e"
proof -
  have "s div CHUNK_SIZE \<le> idx \<longleftrightarrow> s < Suc idx * CHUNK_SIZE"
    by (metis CHUNK_SIZE_pos less_Suc_eq_le div_less_iff_less_mult)
  moreover have "idx \<le> e div CHUNK_SIZE \<longleftrightarrow> idx * CHUNK_SIZE \<le> e"
    by (simp add: less_eq_div_iff_mult_less_eq CHUNK_SIZE_pos)
  ultimately show ?thesis by (simp add: wants_def)
qed

lemma chunk_span_slice:
  assumes "idx * CHUNK_SIZE < length content"
  shows "chunk_span (length content) idx = (st, en) \<Longrightarrow>
    st = idx * CHUNK_SIZE \<and> slice_of st (en + 1) content = chunk_of content idx"
  using assms CHUNK_SIZE_pos
  by (auto simp: chunk_span_def chunk_of_def slice_of_def min_def Let_def add.commute)

lemma chunk_end_of_chunk:
  assumes "idx * CHUNK_SIZE < length content"
  shows "chunk_end_of (idx * CHUNK_SIZE) (length (chunk_of content idx)) =
    min (Suc idx * CHUNK_SIZE) (length content) - 1"
  using assms CHUNK_SIZE_pos by (auto simp: chunk_end_of_def chunk_of_def min_def)

lemma slice_for_chunk:
  assumes "idx * CHUNK_SIZE < length content" "s \<le> e" "e < length content" "wants s e idx"
  shows "slice_for (idx * CHUNK_SIZE) (chunk_of content idx) s e = Some (piece content s e idx)"
proof -
  let ?st = "idx * CHUNK_SIZE" and ?en = "min (Suc idx * CHUNK_SIZE) (length content)"
  let ?a = "if s > ?st then s - ?st else 0" and ?b = "if e < ?en - 1 then e - ?st + 1 else ?en - ?st"
  have w: "s < Suc idx * CHUNK_SIZE" "?st \<le> e" using assms(4) by (simp_all add: wants_iff)
  have len: "length (chunk_of content idx) = ?en - ?st" by (simp add: chunk_of_def)
  have en: "?st < ?en" "s < ?en" using assms(1-3) w CHUNK_SIZE_pos by auto
  have ab: "?st + ?a = max s ?st" "min (Suc idx * CHUNK_SIZE) (?st + ?b) = min (Suc e) (Suc idx * CHUNK_SIZE)
      \<or> (?st + ?b = length content \<and> Suc e = length content)"
    using w assms(2,3) en by auto
  have ok: "?a \<le> ?b" "?b \<le> ?en - ?st" using w assms(2) en by auto
  have "slice_of ?a ?b (chunk_of content idx) =
      slice_of (?st + ?a) (min (Suc idx * CHUNK_SIZE) (?st + ?b)) content"
    unfolding chunk_of_def slice_slice ..
  also have "\<dots> = piece content s e idx"
    using ab by (auto simp: piece_def)
  finally have "slice_of ?a ?b (chunk_of content idx) = piece content s e idx" .
  with ok show ?thesis
    by (simp only: slice_for_def Let_def chunk_end_of_chunk [OF assms(1), unfolded len] len
        checked_slice_def if_True simp_thms)
qed

lemma overlap_iff:
  assumes "idx * CHUNK_SIZE < length content" "s \<le> e" "e < length content"
  shows "\<not> (chunk_end_of (idx * CHUNK_SIZE) (length (chunk_of content idx)) < s \<or> idx * CHUNK_SIZE > e) \<longleftrightarrow>
    wants s e idx"
  using assms CHUNK_SIZE_pos unfolding chunk_end_of_chunk [OF assms(1)] wants_iff
  by (auto simp: min_def split: if_splits)

definition valid_subs :: "nat \<Rightarrow> subscriber_entry list \<Rightarrow> bool" where
  "valid_subs n subs \<longleftrightarrow> (\<forall>(s, e, tx) \<in> set subs. s \<le> e \<and> e < n)"

definition messages :: "(nat \<Rightarrow> bool) \<Rightarrow> bytes \<Rightarrow> nat \<Rightarrow> subscriber_entry list \<Rightarrow> (nat \<times> bytes res) list" where
  "messages gone content idx subs =
     map (\<lambda>(s, e, tx). (tx, Inr (piece content s e idx)))
       (filter (\<lambda>(s, e, tx). wants s e idx \<and> \<not> gone tx) subs)"

lemma forward_chunk_eq:
  assumes "idx * CHUNK_SIZE < length content" "valid_subs (length content) subs"
  shows "forward_chunk gone (idx * CHUNK_SIZE) (chunk_of content idx) subs a =
    Some (a\<lparr>sent := sent a @ messages gone content idx subs\<rparr>)"
  using assms(2)
proof (induction subs arbitrary: a)
  case Nil
  then show ?case by (simp add: messages_def)
next
  case (Cons sub subs)
  obtain s e tx where sub: "sub = (s, e, tx)" by (cases sub)
  with Cons.prems have se: "s \<le> e" "e < length content" "valid_subs (length content) subs"
    by (auto simp: valid_subs_def)
  note IH = Cons.IH [OF se(3)]
  show ?case
  proof (cases "wants s e idx")
    case True
    with overlap_iff [OF assms(1) se(1,2)] have
      "forward_chunk gone (idx * CHUNK_SIZE) (chunk_of content idx) (sub # subs) a =
        forward_chunk gone (idx * CHUNK_SIZE) (chunk_of content idx) subs
          (send gone tx (Inr (piece content s e idx)) a)"
      unfolding sub forward_chunk.simps slice_for_chunk [OF assms(1) se(1,2) True]
      by (simp only: option.case not_not if_False simp_thms)
    then show ?thesis using True by (simp add: IH sub messages_def send_def)
  next
    case False
    with overlap_iff [OF assms(1) se(1,2)] have
      "forward_chunk gone (idx * CHUNK_SIZE) (chunk_of content idx) (sub # subs) a =
        forward_chunk gone (idx * CHUNK_SIZE) (chunk_of content idx) subs a"
      unfolding sub forward_chunk.simps by (simp only: not_not if_True simp_thms)
    then show ?thesis using False by (simp add: IH sub messages_def)
  qed
qed

section \<open>Runs that serve a fixed set of readers\<close>

definition honest :: "bytes \<Rightarrow> actor_round \<Rightarrow> bool" where
  "honest content r \<longleftrightarrow> (\<forall>idx st en. r_download r idx st en = Chunk (slice_of st (en + 1) content))"

definition quiet :: "actor_round \<Rightarrow> bool" where
  "quiet r \<longleftrightarrow> (\<forall>m \<in> set (r_msgs r). m = TickBackpressure)"

definition keeps_open :: "subscriber_entry list \<Rightarrow> actor_round \<Rightarrow> bool" where
  "keeps_open subs r \<longleftrightarrow> (\<forall>(s, e, tx) \<in> set subs. \<not> r_closed r tx \<and> \<not> r_closed_later r tx)"

definition steady :: "bytes \<Rightarrow> subscriber_entry list \<Rightarrow> actor_round \<Rightarrow> bool" where
  "steady content subs r \<longleftrightarrow> honest content r \<and> quiet r \<and> keeps_open subs r"

definition delivered :: "bytes \<Rightarrow> subscriber_entry list \<Rightarrow> nat list \<Rightarrow> actor \<Rightarrow> bool" where
  "delivered content subs ks a \<longleftrightarrow> distinct ks \<and>
     (\<forall>(s, e, tx) \<in> set subs. received_by tx a =
        map (\<lambda>k. Inr (piece content s e k)) (filter (wants s e) ks))"

definition serving :: "bytes \<Rightarrow> subscriber_entry list \<Rightarrow> nat list \<Rightarrow> actor \<Rightarrow> bool" where
  "serving content subs ks a \<longleftrightarrow>
     subscribers a = subs \<and> completed a = set ks \<and> a_total_size a = length content \<and>
     a_chunk_count a = max (div_ceil (length content) CHUNK_SIZE) 1 \<and> delivered content subs ks a"

lemma received_by_append:
  "received_by tx (a\<lparr>sent := sent a @ xs\<rparr>) =
     received_by tx a @ map snd (filter (\<lambda>(t, _). t = tx) xs)"
  by (simp add: received_by_def)

lemma received_by_cong: "sent a = sent b \<Longrightarrow> received_by tx a = received_by tx b"
  by (simp add: received_by_def)

lemma messages_to:
  assumes "distinct (map (snd \<circ> snd) subs)" "(s, e, tx) \<in> set subs" "\<not> gone tx"
  shows "map snd (filter (\<lambda>(t, _). t = tx) (messages gone content idx subs)) =
    (if wants s e idx then [Inr (piece content s e idx)] else [])"
  using assms(1,2)
proof (induction subs)
  case (Cons sub subs)
  have none: "filter (\<lambda>(t, _). t = tx) (messages gone content idx subs) = []"
    if "tx \<notin> (snd \<circ> snd) ` set subs"
    using that by (force simp: messages_def filter_empty_conv)
  show ?case
  proof (cases "sub = (s, e, tx)")
    case True
    with Cons.prems none show ?thesis using assms(3) by (force simp: messages_def)
  next
    case False
    with Cons.prems have sub: "(s, e, tx) \<in> set subs" by simp
    then have "tx \<in> (snd \<circ> snd) ` set subs" by force
    with Cons.prems(1) have "snd (snd sub) \<noteq> tx" by auto
    note sub this
    with Cons.IH Cons.prems(1) show ?thesis by (auto simp: messages_def split: prod.splits)
  qed
qed simp

lemma receive_quiet: "\<forall>m \<in> set ms. m = TickBackpressure \<Longrightarrow> fold receive_message ms a = a"
  by (induction ms) simp_all

lemma tidy_subs:
  assumes "quiet r" "keeps_open (subscribers a) r"
  shows "subscribers (tidy r a) = subscribers a"
  using assms by (auto simp: subscribers_tidy quiet_def keeps_open_def receive_quiet filter_id_conv)

lemma select_cong:
  "subscribers a = subscribers b \<Longrightarrow> completed a = completed b \<Longrightarrow>
     a_chunk_count a = a_chunk_count b \<Longrightarrow> select_next_chunk a = select_next_chunk b"
  by (simp add: select_next_chunk_def candidates_def)

lemma wanted_candidate:
  assumes "serving content subs ks a" "valid_subs (length content) subs"
  shows "k \<in> fst ` set (all_candidates a) \<longleftrightarrow> (\<exists>(s, e, tx) \<in> set subs. wants s e k)"
proof -
  have last: "min (e div CHUNK_SIZE) (saturating_sub (a_chunk_count a) 1) = e div CHUNK_SIZE"
    if "e < length content" for e
    using assms(1) div_ceil_index_less [OF CHUNK_SIZE_pos that]
    by (simp add: serving_def saturating_sub_def)
  have one: "fst ` set (candidates a (s, e, tx)) = {k. wants s e k}" if "e < length content" for s e tx
    unfolding candidates_def prod.case last [OF that] by (auto simp: wants_def image_image less_Suc_eq_le)
  have "fst ` set (all_candidates a) = (\<Union>sub \<in> set subs. fst ` set (candidates a sub))"
    using assms(1) by (simp add: all_candidates_def serving_def image_UN)
  also have "\<dots> = (\<Union>(s, e, tx) \<in> set subs. {k. wants s e k})"
  proof (rule SUP_cong [OF refl])
    fix sub assume "sub \<in> set subs"
    moreover obtain s e tx where sub: "sub = (s, e, tx)" by (cases sub)
    ultimately have "e < length content" using assms(2) by (auto simp: valid_subs_def)
    then show "fst ` set (candidates a sub) = (case sub of (s, e, tx) \<Rightarrow> {k. wants s e k})"
      by (simp only: sub prod.case one)
  qed
  finally show ?thesis by auto
qed

lemma download_honest:
  assumes "idx * CHUNK_SIZE < length content" "valid_subs (length content) (subscribers b)"
    and "a_total_size b = length content"
    and "\<forall>idx st en. dl idx st en = Chunk (slice_of st (en + 1) content)"
  shows "\<exists>b'. download_and_forward gone dl idx b = (b', Running) \<and>
    sent b' = sent b @ messages gone content idx (subscribers b)"
proof -
  obtain st en where sp: "chunk_span (length content) idx = (st, en)" by fastforce
  with chunk_span_slice [OF assms(1)] have st: "st = idx * CHUNK_SIZE"
    "dl idx st en = Chunk (chunk_of content idx)" using assms(4) by auto
  then have "download_and_forward gone dl idx b =
      ((b\<lparr>sent := sent b @ messages gone content idx (subscribers b)\<rparr>)
        \<lparr>served_bytes := (served_bytes b + length (chunk_of content idx)) mod 2 ^ 64,
         completed := insert idx (completed b)\<rparr>, Running)"
    using forward_chunk_eq [OF assms(1,2)] sp assms(3)
    by (simp add: download_and_forward_def)
  then show ?thesis by (intro exI conjI, assumption) simp
qed

lemma delivered_step:
  assumes "delivered content subs ks a" "distinct (map (snd \<circ> snd) subs)" "idx \<notin> set ks"
    and "\<forall>(s, e, tx) \<in> set subs. \<not> gone tx"
    and "sent a' = sent a @ messages gone content idx subs"
  shows "delivered content subs (ks @ [idx]) a'"
proof -
  have "received_by tx a' = map (\<lambda>k. Inr (piece content s e k)) (filter (wants s e) (ks @ [idx]))"
    if sub: "(s, e, tx) \<in> set subs" for s e tx
  proof -
    have "received_by tx a' = received_by tx a @
        map snd (filter (\<lambda>(t, _). t = tx) (messages gone content idx subs))"
      using assms(5) by (simp add: received_by_def)
    moreover have "\<not> gone tx" using bspec [OF assms(4) sub] by simp
    moreover have "received_by tx a = map (\<lambda>k. Inr (piece content s e k)) (filter (wants s e) ks)"
      using assms(1) sub by (auto simp: delivered_def)
    ultimately show ?thesis using messages_to [OF assms(2) sub] by simp
  qed
  with assms(1,3) show ?thesis by (auto simp: delivered_def)
qed

lemma serving_step:
  assumes inv: "serving content subs ks a" and subs: "valid_subs (length content) subs"
      "distinct (map (snd \<circ> snd) subs)" and r: "steady content subs r"
    and run: "run_round r a = (a', st)"
  shows "(st = Finished \<and> sent a' = sent a \<and>
            (\<forall>(s, e, tx) \<in> set subs. \<forall>k. wants s e k \<longrightarrow> k \<in> set ks)) \<or>
    (\<exists>idx. st = Running \<and> select_next_chunk a = Some idx \<and> serving content subs (ks @ [idx]) a')"
proof -
  have a: "subscribers a = subs" "completed a = set ks" "a_total_size a = length content"
    "delivered content subs ks a" using inv by (simp_all add: serving_def)
  have t: "subscribers (tidy r a) = subs" using r a(1) tidy_subs [of r a] by (simp add: steady_def)
  have sel: "select_next_chunk (tidy r a) = select_next_chunk a"
    by (rule select_cong) (simp_all add: t a(1))
  have step: "\<exists>b'. download_and_forward (r_closed_later r) (r_download r) idx (activated r idx a) =
        (b', Running) \<and> sent b' = sent a @ messages (r_closed_later r) content idx subs \<and> idx \<notin> set ks"
    if i: "select_next_chunk a = Some idx" for idx
  proof -
    from select_SomeD [OF i] wanted_candidate [OF inv subs(1)] obtain s e tx where
      w: "(s, e, tx) \<in> set subs" "wants s e idx" "idx \<notin> set ks" using a(2) by auto
    then have "idx * CHUNK_SIZE < length content" using subs(1) by (force simp: wants_iff valid_subs_def)
    with w(3) show ?thesis
      using download_honest [of idx content "activated r idx a" "r_download r" "r_closed_later r"] subs(1)
        a(3) r by (auto simp: t steady_def honest_def)
  qed
  from run show ?thesis
  proof (cases rule: run_round_cases)
    case idle
    with t show ?thesis by simp
  next
    case all_done
    then have "fold (consider_chunk (set ks)) (all_candidates a) None = None"
      using sel a(2) by (simp add: select_eq)
    then have "fst ` set (all_candidates a) \<subseteq> set ks" by (auto simp: consider_None_iff)
    with wanted_candidate [OF inv subs(1)] have "\<forall>(s, e, tx) \<in> set subs. \<forall>k. wants s e k \<longrightarrow> k \<in> set ks"
      by blast
    with all_done show ?thesis by simp
  next
    case (running idx a4)
    with step [of idx] sel have a4: "sent a4 = sent a @ messages (r_closed_later r) content idx subs"
      "idx \<notin> set ks" by auto
    have "delivered content subs (ks @ [idx]) a'"
      by (rule delivered_step [OF a(4) subs(2) a4(2)])
        (use r a4(1) running(4) in \<open>auto simp: steady_def keeps_open_def\<close>)
    with download_running [OF running(3)] running sel inv t show ?thesis
      by (auto simp: serving_def)
  next
    case (stopping idx a4)
    with step [of idx] sel show ?thesis by auto
  qed
qed

text \<open>\<open>P\<close> is any fact about the order of the completed chunks that the selection keeps.\<close>

lemma run_serving:
  assumes subs: "valid_subs (length content) subs" "distinct (map (snd \<circ> snd) subs)"
    and rs: "\<forall>r \<in> set rs. steady content subs r"
    and P: "\<And>a ks idx. serving content subs ks a \<Longrightarrow> P ks \<Longrightarrow> select_next_chunk a = Some idx \<Longrightarrow> P (ks @ [idx])"
    and start: "serving content subs ks a" "P ks"
    and stop: "run rs a = (a', st)" "st \<noteq> Running"
  shows "st = Finished \<and> (\<exists>ks'. P ks' \<and> delivered content subs ks' a' \<and>
    (\<forall>(s, e, tx) \<in> set subs. \<forall>k. wants s e k \<longrightarrow> k \<in> set ks'))"
  using rs start stop(1)
proof (induction rs arbitrary: a ks)
  case Nil
  with stop(2) show ?case by simp
next
  case (Cons r rs)
  obtain a1 st1 where r1: "run_round r a = (a1, st1)" by fastforce
  from Cons.prems(1) have r: "steady content subs r" by simp
  from serving_step [OF Cons.prems(2) subs r r1] show ?case
  proof (elim disjE exE conjE)
    fix idx assume "st1 = Running" "select_next_chunk a = Some idx" "serving content subs (ks @ [idx]) a1"
    with Cons.IH [of "ks @ [idx]" a1] P [OF Cons.prems(2,3)] Cons.prems(1,4) r1 show ?thesis by simp
  next
    assume "st1 = Finished" "sent a1 = sent a" "\<forall>(s, e, tx) \<in> set subs. \<forall>k. wants s e k \<longrightarrow> k \<in> set ks"
    moreover from this(2) have "received_by tx a1 = received_by tx a" for tx by (rule received_by_cong)
    ultimately show ?thesis using Cons.prems r1 by (auto simp: serving_def delivered_def)
  qed
qed

end
