(* ===== verification/Session_Deliver.thy ===== *)
theory Session_Deliver
  imports Session_Props "HOL-Library.Multiset"
begin

text \<open>
  The properties of what the readers of a file session receive.
\<close>

section \<open>Order and concatenation of the pieces\<close>

lemma concat_slices:
  "(\<And>k. g k \<le> g (Suc k)) \<Longrightarrow>
     concat (map (\<lambda>k. slice_of (g k) (g (Suc k)) xs) [f ..< f + m]) = slice_of (g f) (g (f + m)) xs"
proof (induction m)
  case (Suc m)
  have "g f \<le> g (f + m)" using Suc.prems by (induction m) (auto intro: order_trans)
  with Suc show ?case by (simp add: slice_append_slice)
qed simp

lemma concat_pieces:
  assumes "s \<le> e"
  shows "concat (map (piece content s e) [s div CHUNK_SIZE ..< Suc (e div CHUNK_SIZE)]) =
    slice_of s (Suc e) content"
proof -
  let ?g = "\<lambda>k. max s (min (Suc e) (k * CHUNK_SIZE))"
  let ?f = "s div CHUNK_SIZE" and ?l = "e div CHUNK_SIZE"
  have f: "?f * CHUNK_SIZE \<le> s" by simp
  have l: "e < Suc ?l * CHUNK_SIZE"
    using dividend_less_div_times [OF CHUNK_SIZE_pos, of e] by simp
  have le: "?f \<le> ?l" using assms by (rule div_le_mono)
  have mono: "?g k \<le> ?g (Suc k)" for k by (intro max.mono min.mono) simp_all
  have "piece content s e k = slice_of (?g k) (?g (Suc k)) content" if "?f \<le> k" "k \<le> ?l" for k
  proof -
    have "wants s e k" using that by (simp add: wants_def)
    then show ?thesis using assms by (auto simp: wants_iff piece_def min_def max_def)
  qed
  then have "map (piece content s e) [?f ..< Suc ?l] =
      map (\<lambda>k. slice_of (?g k) (?g (Suc k)) content) [?f ..< ?f + (Suc ?l - ?f)]"
    using le by (intro map_cong) auto
  then have "concat (map (piece content s e) [?f ..< Suc ?l]) =
      slice_of (?g ?f) (?g (?f + (Suc ?l - ?f))) content"
    by (simp only: concat_slices [of ?g, OF mono])
  also have "?g ?f = s" by (rule max_absorb1 [OF order_trans [OF min.cobounded2 f]])
  also have "?g (?f + (Suc ?l - ?f)) = Suc e" using l le assms by auto
  finally show ?thesis .
qed

lemma filter_wants:
  assumes "\<forall>k. wants s e k \<longrightarrow> k \<in> {s div CHUNK_SIZE ..< n}" "s \<le> e"
  shows "filter (wants s e) [s div CHUNK_SIZE ..< n] = [s div CHUNK_SIZE ..< Suc (e div CHUNK_SIZE)]"
proof -
  have le: "s div CHUNK_SIZE \<le> e div CHUNK_SIZE" using assms(2) by (rule div_le_mono)
  then have "Suc (e div CHUNK_SIZE) \<le> n" using assms(1) by (auto simp: wants_def)
  then obtain j where "n = Suc (e div CHUNK_SIZE) + j" by (auto simp: le_iff_add)
  then have "[s div CHUNK_SIZE ..< n] =
      [s div CHUNK_SIZE ..< Suc (e div CHUNK_SIZE)] @ [Suc (e div CHUNK_SIZE) ..< n]"
    using le by (metis le_SucI upt_add_eq_append)
  then show ?thesis by (auto simp: wants_def filter_id_conv filter_empty_conv)
qed

text \<open>For one reader, the first chunk that is missing is next.\<close>

lemma select_single:
  assumes "serving content [(s, e, tx)] [s div CHUNK_SIZE ..< k] a" "select_next_chunk a = Some idx"
    and "s div CHUNK_SIZE \<le> k"
  shows "idx = k"
proof -
  let ?f = "s div CHUNK_SIZE"
  let ?n = "Suc (min (e div CHUNK_SIZE) (saturating_sub (a_chunk_count a) 1))"
  let ?xs = "map (\<lambda>idx. (idx, urgency s e idx)) [?f ..< ?n]"
  have a: "completed a = {?f ..< k}" "all_candidates a = ?xs"
    using assms(1) by (auto simp: serving_def all_candidates_def candidates_def)
  have "sorted_wrt (\<lambda>x y. snd x \<le> snd y) ?xs"
    unfolding sorted_wrt_map by (rule sorted_wrt_mono_rel [OF _ sorted_upt]) (simp add: urgency_mono)
  with assms(2) a obtain u where "find (\<lambda>x. fst x \<notin> {?f ..< k}) ?xs = Some (idx, u)"
    by (auto simp: select_eq consider_first)
  then obtain i where i: "i < length ?xs" "?xs ! i = (idx, u)" "fst (?xs ! i) \<notin> {?f ..< k}"
    "\<forall>j < i. fst (?xs ! j) \<in> {?f ..< k}" by (auto simp: find_Some_iff)
  then have idx: "idx = ?f + i" "idx \<notin> {?f ..< k}" by (auto simp del: upt_Suc)
  show ?thesis
  proof (rule ccontr)
    assume "idx \<noteq> k"
    with idx assms(3) have "k - ?f < i" by auto
    with i have "fst (?xs ! (k - ?f)) \<in> {?f ..< k}" by blast
    moreover have "fst (?xs ! (k - ?f)) = k"
      using \<open>k - ?f < i\<close> i(1) assms(3) by (simp del: upt_Suc)
    ultimately show False by simp
  qed
qed

section \<open>A session from its start\<close>

text \<open>The actor of a file with this content, as \<open>get_or_create\<close> spawns it.\<close>

definition new_actor :: "string \<Rightarrow> string option \<Rightarrow> nat \<Rightarrow> bytes \<Rightarrow> file_row \<Rightarrow> actor" where
  "new_actor url ua base content fl =
     snd (spawn (f_id fl) (f_name fl) url (length content) (div_ceil (length content) CHUNK_SIZE)
        ua base fl)"

definition subscribe_all :: "file_row \<Rightarrow> subscriber_entry list \<Rightarrow> session_message list" where
  "subscribe_all fl subs = map (\<lambda>(s, e, tx). Subscribe tx fl (s, e)) subs"

lemma receive_subscribe_all:
  "fold receive_message (subscribe_all fl subs) a = a\<lparr>subscribers := subscribers a @ subs\<rparr>"
  by (induction subs arbitrary: a) (auto simp: subscribe_all_def)

lemma run_first:
  "run (r # rs) a = run (r\<lparr>r_msgs := []\<rparr> # rs) (fold receive_message (r_msgs r) a)"
proof -
  have "tidy (r\<lparr>r_msgs := []\<rparr>) (fold receive_message (r_msgs r) a) = tidy r a" by (simp add: tidy_def)
  moreover have "r_closed_later (r\<lparr>r_msgs := []\<rparr>) = r_closed_later r"
    "r_download (r\<lparr>r_msgs := []\<rparr>) = r_download r"
    "r_cached_after (r\<lparr>r_msgs := []\<rparr>) = r_cached_after r" by simp_all
  ultimately have "run_round (r\<lparr>r_msgs := []\<rparr>) (fold receive_message (r_msgs r) a) = run_round r a"
    unfolding run_round_def by (simp only:)
  then show ?thesis by simp
qed

lemma serving_start:
  "serving content subs [] ((new_actor url ua base content fl)\<lparr>subscribers := subs\<rparr>)"
  by (simp add: serving_def new_actor_def spawn_def delivered_def received_by_def)

lemma run_from_start:
  assumes subs: "valid_subs (length content) subs" "distinct (map (snd \<circ> snd) subs)"
    and first: "r_msgs r = subscribe_all fl subs" "honest content r" "keeps_open subs r"
    and rs: "\<forall>r \<in> set rs. steady content subs r" "div_ceil (length content) CHUNK_SIZE < length rs"
    and P: "\<And>a ks idx. serving content subs ks a \<Longrightarrow> P ks \<Longrightarrow> select_next_chunk a = Some idx \<Longrightarrow> P (ks @ [idx])"
      "P []"
  shows "\<exists>a' ks. run (r # rs) (new_actor url ua base content fl) = (a', Finished) \<and> P ks \<and>
    delivered content subs ks a' \<and> (\<forall>(s, e, tx) \<in> set subs. \<forall>k. wants s e k \<longrightarrow> k \<in> set ks)"
proof -
  let ?a = "(new_actor url ua base content fl)\<lparr>subscribers := subs\<rparr>" and ?r = "r\<lparr>r_msgs := []\<rparr>"
  have sub0: "subscribers (new_actor url ua base content fl) = []" by (simp add: new_actor_def spawn_def)
  have eq: "run (r # rs) (new_actor url ua base content fl) = run (?r # rs) ?a"
    unfolding run_first [of r rs "new_actor url ua base content fl"] first(1) receive_subscribe_all sub0 by simp
  obtain a' st where run: "run (?r # rs) ?a = (a', st)" by fastforce
  have "snd (run (?r # rs) ?a) \<noteq> Running"
    using rs(2) by (intro session_run_terminates) (auto simp: new_actor_def spawn_def)
  with run have st: "st \<noteq> Running" by simp
  have steady: "\<forall>r \<in> set (?r # rs). steady content subs r"
    using rs(1) first(2,3) by (simp add: steady_def honest_def quiet_def keeps_open_def)
  from run_serving [where P = P, OF subs steady P(1) serving_start P(2) run st] eq run
  show ?thesis by auto
qed

lemma handle_subscribe_Inr:
  assumes "handle_subscribe stopped h tx rng = Inr (fl, len, msg)"
  shows "\<exists>e. (case rng of None \<Rightarrow> 0 | Some (s, _) \<Rightarrow> s) \<le> e \<and> e < ah_total_size h \<and>
    len = e - (case rng of None \<Rightarrow> 0 | Some (s, _) \<Rightarrow> s) + 1 \<and>
    msg = Subscribe tx (ah_file h) (case rng of None \<Rightarrow> 0 | Some (s, _) \<Rightarrow> s, e) \<and> fl = ah_file h"
proof -
  let ?e = "min (case Option.bind rng snd of None \<Rightarrow> saturating_sub (ah_total_size h) 1 | Some e \<Rightarrow> e)
    (saturating_sub (ah_total_size h) 1)"
  show ?thesis
    by (rule exI [of _ ?e])
      (use assms in \<open>cases rng; auto simp: handle_subscribe_def Let_def saturating_sub_def split: if_splits\<close>)
qed

lemma single_reader_bytes:
  assumes "handle_subscribe False (fst (spawn fid name url (length content) n ua base fl)) tx rng =
      Inr (fl', len, msg)"
    and "r_msgs r = [msg]" "\<forall>r' \<in> set rs. quiet r'"
    and "\<forall>r' \<in> set (r # rs). honest content r' \<and> \<not> r_closed r' tx \<and> \<not> r_closed_later r' tx"
    and "div_ceil (length content) CHUNK_SIZE < length rs"
  shows "\<exists>a' ps. run (r # rs) (new_actor url ua base content fl) = (a', Finished) \<and>
    received_by tx a' = map Inr ps \<and> length (concat ps) = len \<and>
    concat ps = take len (drop (case rng of None \<Rightarrow> 0 | Some (s, _) \<Rightarrow> s) content)"
proof -
  let ?s = "case rng of None \<Rightarrow> 0 | Some (s, _) \<Rightarrow> s"
  obtain e where e: "?s \<le> e" "e < length content" "len = e - ?s + 1" "msg = Subscribe tx fl (?s, e)"
    using handle_subscribe_Inr [OF assms(1)] by (auto simp: spawn_def)
  let ?subs = "[(?s, e, tx)]"
  have "\<exists>a' ks. run (r # rs) (new_actor url ua base content fl) = (a', Finished) \<and>
      (\<exists>k \<ge> ?s div CHUNK_SIZE. ks = [?s div CHUNK_SIZE ..< k]) \<and>
      delivered content ?subs ks a' \<and> (\<forall>(s, e, tx) \<in> set ?subs. \<forall>k. wants s e k \<longrightarrow> k \<in> set ks)"
  proof (rule run_from_start)
    fix a ks idx
    assume *: "serving content ?subs ks a" "\<exists>k \<ge> ?s div CHUNK_SIZE. ks = [?s div CHUNK_SIZE ..< k]"
      "select_next_chunk a = Some idx"
    then obtain k where k: "?s div CHUNK_SIZE \<le> k" "ks = [?s div CHUNK_SIZE ..< k]" by blast
    with select_single [of content ?s e tx k a idx] * have "idx = k" by simp
    with k show "\<exists>k \<ge> ?s div CHUNK_SIZE. ks @ [idx] = [?s div CHUNK_SIZE ..< k]"
      by (intro exI [of _ "Suc k"]) simp
  qed (use assms e in \<open>auto simp: valid_subs_def subscribe_all_def keeps_open_def steady_def\<close>)
  then obtain a' k where run: "run (r # rs) (new_actor url ua base content fl) = (a', Finished)"
    and d: "delivered content ?subs [?s div CHUNK_SIZE ..< k] a'"
      "\<forall>j. wants ?s e j \<longrightarrow> j \<in> {?s div CHUNK_SIZE ..< k}" by auto
  let ?ps = "map (piece content ?s e) [?s div CHUNK_SIZE ..< Suc (e div CHUNK_SIZE)]"
  have "received_by tx a' = map (\<lambda>k. Inr (piece content ?s e k)) [?s div CHUNK_SIZE ..< Suc (e div CHUNK_SIZE)]"
    using d(1) filter_wants [OF d(2) e(1)] by (simp add: delivered_def)
  then have rec: "received_by tx a' = map Inr ?ps" by (simp add: comp_def del: upt_Suc)
  have cat: "concat ?ps = slice_of ?s (Suc e) content" by (rule concat_pieces [OF e(1)])
  have "length (slice_of ?s (Suc e) content) = len" using e(1-3) by simp
  moreover have "slice_of ?s (Suc e) content = take len (drop ?s content)"
    using e(1,3) by (simp add: slice_of_def take_drop)
  ultimately show ?thesis
    by (intro exI [of _ a'] exI [of _ ?ps]) (simp only: run rec cat simp_thms)
qed

text \<open>
  A reader that has an actor to itself gets exactly the bytes it asked for, in order, and as
  many as the content length that \<open>subscribe\<close> promised; then the stream ends. It does not matter
  what is cached or prefetched meanwhile.
\<close>

theorem single_reader_gets_its_range:
  assumes "handle_subscribe False (fst (spawn fid name url (length content) n ua base fl)) tx rng =
      Inr (fl', len, msg)"
    and "r_msgs r = [msg]" "\<forall>r' \<in> set rs. quiet r'"
    and "\<forall>r' \<in> set (r # rs). honest content r' \<and> \<not> r_closed r' tx \<and> \<not> r_closed_later r' tx"
    and "div_ceil (length content) CHUNK_SIZE < length rs"
  shows "\<exists>a' ps. run (r # rs) (new_actor url ua base content fl) = (a', Finished) \<and>
    received_by tx a' = map Inr ps \<and> length (concat ps) = len \<and>
    concat ps = take len (drop (case rng of None \<Rightarrow> 0 | Some (s, _) \<Rightarrow> s) content)"
  by (rule single_reader_bytes [OF assms])

lemma plain_facts [simp]:
  "honest content (plain_round content msgs)" "quiet (plain_round content [])"
  by (simp_all add: honest_def quiet_def)

lemma one_chunk [simp]: "div_ceil (Suc (Suc (Suc 0))) CHUNK_SIZE = 1"
  by (simp add: div_ceil_def CHUNK_SIZE_def)

theorem single_reader_gets_its_range_witness:
  "\<exists>a' ps. run [plain_round [7, 8, 9] [Subscribe 5 tiny_file (1, 2)], plain_round [7, 8, 9] [],
        plain_round [7, 8, 9] []] (new_actor ''url'' None 4 [7, 8, 9] tiny_file) = (a', Finished) \<and>
     received_by 5 a' = map Inr ps \<and> concat ps = [8, 9]"
proof -
  have h: "handle_subscribe False (fst (spawn 1 ''o/r/a'' ''url'' (length [7, 8, 9 :: byte]) 1 None 4 tiny_file))
      5 (Some (1, Some 7)) = Inr (tiny_file, 2, Subscribe 5 tiny_file (1, 2))"
    by (simp add: handle_subscribe_def spawn_def saturating_sub_def)
  show ?thesis
    using single_reader_gets_its_range [OF h, of "plain_round [7, 8, 9] [Subscribe 5 tiny_file (1, 2)]"
        "[plain_round [7, 8, 9] [], plain_round [7, 8, 9] []]"]
    by (auto simp del: run.simps)
qed

text \<open>
  C16: Readers that arrive together, whatever their ranges, each receive every chunk piece of
  their range exactly once, cut to their range, and the actor finishes without an error. The
  pieces come in the order \<open>ks\<close> in which the actor completed the chunks, the same for all.
\<close>

theorem readers_get_every_piece_once:
  assumes "\<forall>(s, e, tx) \<in> set subs. s \<le> e \<and> e < length content" "distinct (map (\<lambda>(s, e, tx). tx) subs)"
    and "r_msgs r = map (\<lambda>(s, e, tx). Subscribe tx fl (s, e)) subs" "\<forall>r' \<in> set rs. quiet r'"
    and "\<forall>r' \<in> set (r # rs). honest content r' \<and>
      (\<forall>(s, e, tx) \<in> set subs. \<not> r_closed r' tx \<and> \<not> r_closed_later r' tx)"
    and "div_ceil (length content) CHUNK_SIZE < length rs"
  shows "\<exists>a' ks. run (r # rs) (new_actor url ua base content fl) = (a', Finished) \<and> distinct ks \<and>
    (\<forall>(s, e, tx) \<in> set subs.
       received_by tx a' = map (\<lambda>k. Inr (piece content s e k)) (filter (wants s e) ks) \<and>
       mset (filter (wants s e) ks) = mset [s div CHUNK_SIZE ..< Suc (e div CHUNK_SIZE)])"
proof -
  have third: "map (snd \<circ> snd) subs = map (\<lambda>(s, e, tx). tx) subs" by auto
  have "\<exists>a' ks. run (r # rs) (new_actor url ua base content fl) = (a', Finished) \<and> True \<and>
      delivered content subs ks a' \<and> (\<forall>(s, e, tx) \<in> set subs. \<forall>k. wants s e k \<longrightarrow> k \<in> set ks)"
    by (rule run_from_start)
      (use assms in \<open>auto simp: valid_subs_def subscribe_all_def keeps_open_def steady_def third\<close>)
  then obtain a' ks where run: "run (r # rs) (new_actor url ua base content fl) = (a', Finished)"
    and d: "delivered content subs ks a'" "\<forall>(s, e, tx) \<in> set subs. \<forall>k. wants s e k \<longrightarrow> k \<in> set ks"
    by auto
  have "mset (filter (wants s e) ks) = mset [s div CHUNK_SIZE ..< Suc (e div CHUNK_SIZE)]"
    if "\<forall>k. wants s e k \<longrightarrow> k \<in> set ks" for s e
    by (rule set_eq_iff_mset_eq_distinct [THEN iffD1])
      (use that d(1) in \<open>auto simp: delivered_def wants_def simp del: upt_Suc\<close>)
  with run d show ?thesis by (intro exI [of _ a'] exI [of _ ks]) (fastforce simp: delivered_def)
qed

theorem readers_get_every_piece_once_witness:
  "\<exists>a' ks. run [plain_round [7, 8, 9] [Subscribe 5 tiny_file (0, 1), Subscribe 6 tiny_file (1, 2)],
        plain_round [7, 8, 9] [], plain_round [7, 8, 9] []] (new_actor ''url'' None 4 [7, 8, 9] tiny_file) = (a', Finished) \<and>
     received_by 5 a' = map (\<lambda>k. Inr (piece [7, 8, 9] 0 1 k)) (filter (wants 0 1) ks) \<and>
     received_by 6 a' = map (\<lambda>k. Inr (piece [7, 8, 9] 1 2 k)) (filter (wants 1 2) ks)"
  using readers_get_every_piece_once [of "[(0, 1, 5), (1, 2, 6)]" "[7, 8, 9]"
      "plain_round [7, 8, 9] [Subscribe 5 tiny_file (0, 1), Subscribe 6 tiny_file (1, 2)]" tiny_file
      "[plain_round [7, 8, 9] [], plain_round [7, 8, 9] []]"]
  by (simp del: run.simps) blast

end
