(* ===== verification/Session_Sharing.thy ===== *)
theory Session_Sharing
  imports Session_Deliver
begin

text \<open>
  What sharing an actor does to its readers: the order of the pieces when the ranges overlap,
  a reader that arrives after its chunks were completed, and the bounds on prefetching.
\<close>

section \<open>Prefetching\<close>

definition prefetched :: "(nat \<Rightarrow> bool) \<Rightarrow> nat list \<Rightarrow> actor \<Rightarrow> actor \<Rightarrow> bool" where
  "prefetched c new a b \<longleftrightarrow>
     spawned b = spawned a @ map (\<lambda>j. (j, chunk_span (a_total_size a) j)) new \<and>
     prefetch_inflight b = prefetch_inflight a \<union> set new \<and> distinct new \<and>
     (\<forall>j \<in> set new. j \<notin> completed a \<and> j \<notin> prefetch_inflight a \<and> \<not> c j)"

lemma prefetch_fold:
  "\<exists>new. prefetched c new a (fold (prefetch_one c) js a) \<and> set new \<subseteq> set js \<and> length new \<le> length js"
proof (induction js arbitrary: a)
  case Nil
  show ?case by (intro exI [of _ "[]"]) (simp add: prefetched_def)
next
  case (Cons j js)
  from Cons.IH obtain new where new: "prefetched c new (prefetch_one c j a)
      (fold (prefetch_one c) js (prefetch_one c j a))" "set new \<subseteq> set js" "length new \<le> length js" by blast
  show ?case
  proof (cases "j \<in> completed a \<or> j \<in> prefetch_inflight a \<or> c j")
    case True
    then have "prefetch_one c j a = a" by (simp add: prefetch_one_def)
    with new show ?thesis by (intro exI [of _ new]) auto
  next
    case False
    then have "prefetch_one c j a = a\<lparr>prefetch_inflight := insert j (prefetch_inflight a),
        spawned := spawned a @ [(j, chunk_span (a_total_size a) j)]\<rparr>" by (simp add: prefetch_one_def)
    with new False show ?thesis by (intro exI [of _ "j # new"]) (auto simp: prefetched_def)
  qed
qed

lemma fold_fold_concat: "fold (\<lambda>x. fold f (g x)) xs a = fold f (concat (map g xs)) a"
  by (induction xs arbitrary: a) simp_all

lemma length_concat_le: "(\<And>x. x \<in> set xs \<Longrightarrow> length (g x) \<le> n) \<Longrightarrow> length (concat (map g xs)) \<le> length xs * n"
  by (induction xs) (auto intro: add_mono)



section \<open>Overlapping ranges\<close>

lemma length_chunk_of:
  "Suc i * CHUNK_SIZE \<le> length content \<Longrightarrow> length (chunk_of content i) = CHUNK_SIZE"
  by (simp add: chunk_of_def)

text \<open>Three full chunks, one reader for all of them (channel 1), one for the last (channel 2).\<close>

abbreviation overlapping :: "subscriber_entry list" where
  "overlapping \<equiv> [(0, 3 * CHUNK_SIZE - 1, 1), (2 * CHUNK_SIZE, 3 * CHUNK_SIZE - 1, 2)]"

abbreviation served_order :: "nat list" where
  "served_order \<equiv> [0, 2, 1]"

lemma three_chunks:
  assumes "length content = 3 * CHUNK_SIZE"
  shows "div_ceil (length content) CHUNK_SIZE = 3" "(3 * CHUNK_SIZE - 1) div CHUNK_SIZE = 2"
  unfolding assms by (simp_all add: div_ceil_def CHUNK_SIZE_def)

text \<open>The second reader makes chunk 2 as urgent as a chunk can be.\<close>

lemma overlapping_order:
  assumes "length content = 3 * CHUNK_SIZE" "serving content overlapping (take m served_order) a"
    and "select_next_chunk a = Some idx"
  shows "\<exists>m'. take m served_order @ [idx] = take m' served_order"
proof -
  note cs = CHUNK_SIZE_pos and ediv = three_chunks(2) [OF assms(1)]
  define u where "u = urgency 0 (3 * CHUNK_SIZE - 1)"
  have u: "u 0 = 0" "u 1 \<le> u 2" unfolding u_def by (simp add: urgency_def) (rule urgency_mono, simp)
  have pos: "0 < u 1" using cs by (simp add: u_def urgency_def Let_def f64_div_pos f64_of_nat_pos)
  have "subscribers a = overlapping" "a_chunk_count a = 3"
    using assms(2) three_chunks(1) [OF assms(1)] by (simp_all add: serving_def)
  moreover have "[0 ..< 2] = [0, 1 :: nat]" "[2 ..< Suc 2] = [2 :: nat]" by (simp_all add: upt_rec)
  ultimately have "all_candidates a = [(0, u 0), (1, u 1), (2, u 2), (2, 0)]"
    using ediv cs by (simp add: all_candidates_def candidates_def u_def urgency_def)
  with assms(2,3) have sel: "map_option fst (fold (consider_chunk (set (take m served_order)))
      [(0, u 0), (1, u 1), (2, u 2), (2, 0)] None) = Some idx"
    by (simp add: select_eq serving_def)
  consider "m = 0" | "m = 1" | "m = 2" | "3 \<le> m" by linarith
  then show ?thesis
  proof cases
    case 1
    with sel u pos show ?thesis by (intro exI [of _ 1]) (simp add: consider_chunk_def split: if_splits)
  next
    case 2
    with sel u pos show ?thesis by (intro exI [of _ 2]) (simp add: consider_chunk_def split: if_splits)
  next
    case 3
    with sel u pos have "idx = 1" by (simp add: consider_chunk_def split: if_splits)
    with 3 show ?thesis by (intro exI [of _ 3]) simp
  next
    case 4
    with sel show ?thesis by (simp add: consider_chunk_def)
  qed
qed

lemma swapped_chunks_equal:
  assumes "length content = 3 * CHUNK_SIZE"
  shows "concat [chunk_of content 0, chunk_of content 2, chunk_of content 1] = content \<longleftrightarrow>
    chunk_of content 1 = chunk_of content 2"
proof -
  let ?c = "chunk_of content"
  have "slice_of 0 (1 * CHUNK_SIZE) content @ slice_of (1 * CHUNK_SIZE) (2 * CHUNK_SIZE) content @
      slice_of (2 * CHUNK_SIZE) (3 * CHUNK_SIZE) content = slice_of 0 (3 * CHUNK_SIZE) content"
    by (subst slice_append_slice, simp, simp, subst slice_append_slice, simp_all)
  then have content: "?c 0 @ ?c 1 @ ?c 2 = content"
    using assms by (simp add: chunk_of_def numeral_2_eq_2 numeral_3_eq_3 slice_of_def)
  have "length (?c 1) = length (?c 2)" by (simp add: length_chunk_of assms)
  then have "?c 0 @ ?c 2 @ ?c 1 = ?c 0 @ ?c 1 @ ?c 2 \<longleftrightarrow> ?c 1 = ?c 2" by auto
  then show ?thesis by (simp only: content concat.simps append_Nil2)
qed

text \<open>
  C35: Two readers that share an actor can corrupt each other's stream. A file has three chunks,
  one reader asks for all of it, another for the last chunk only: the first reader receives
  chunk 0, chunk 2 and then chunk 1, so its bytes are those of the file only if the last
  two chunks are equal.
\<close>

theorem overlapping_readers_out_of_order:
  assumes "length content = 3 * CHUNK_SIZE"
    and "r_msgs r = [Subscribe 1 fl (0, 3 * CHUNK_SIZE - 1),
                     Subscribe 2 fl (2 * CHUNK_SIZE, 3 * CHUNK_SIZE - 1)]"
    and "\<forall>r' \<in> set rs. quiet r'" "3 < length rs"
    and "\<forall>r' \<in> set (r # rs). honest content r' \<and>
      (\<forall>tx. \<not> r_closed r' tx \<and> \<not> r_closed_later r' tx)"
  shows "\<exists>a' ps. run (r # rs) (new_actor url ua base content fl) = (a', Finished) \<and>
    received_by 1 a' = map Inr ps \<and>
    ps = [chunk_of content 0, chunk_of content 2, chunk_of content 1] \<and>
    (concat ps = content \<longleftrightarrow> chunk_of content 1 = chunk_of content 2)"
proof -
  let ?e = "3 * CHUNK_SIZE - 1"
  note cs = CHUNK_SIZE_pos and ediv = three_chunks(2) [OF assms(1)]
  have "\<exists>a' ks. run (r # rs) (new_actor url ua base content fl) = (a', Finished) \<and>
      (\<exists>m. ks = take m served_order) \<and> delivered content overlapping ks a' \<and>
      (\<forall>(s, e, tx) \<in> set overlapping. \<forall>k. wants s e k \<longrightarrow> k \<in> set ks)"
  proof (rule run_from_start [where P = "\<lambda>ks. \<exists>m. ks = take m served_order"])
    fix a ks idx
    assume "serving content overlapping ks a" "\<exists>m. ks = take m served_order" "select_next_chunk a = Some idx"
    with overlapping_order [OF assms(1)] show "\<exists>m. ks @ [idx] = take m served_order" by blast
  qed (use assms cs three_chunks [OF assms(1)] in
      \<open>auto simp: valid_subs_def subscribe_all_def keeps_open_def steady_def intro: exI [of _ 0]\<close>)
  then obtain a' ks m where run: "run (r # rs) (new_actor url ua base content fl) = (a', Finished)"
    and ks: "ks = take m served_order" and d: "delivered content overlapping ks a'"
    and all: "\<forall>k. wants 0 ?e k \<longrightarrow> k \<in> set ks" by auto
  have "{0, 1, 2} \<subseteq> set ks" using all ediv by (auto simp: wants_def)
  then have "ks = served_order" unfolding ks by (auto simp: take_Cons' split: if_splits)
  moreover have "filter (wants 0 ?e) served_order = served_order" using ediv by (simp add: wants_def)
  moreover have "piece content 0 ?e k = chunk_of content k" if "k \<le> 2" for k
  proof -
    have "Suc k * CHUNK_SIZE \<le> 3 * CHUNK_SIZE" using that by (intro mult_le_mono1) simp
    then have "min (Suc ?e) (Suc k * CHUNK_SIZE) = Suc k * CHUNK_SIZE" using cs by simp
    then show ?thesis unfolding piece_def chunk_of_def by simp
  qed
  ultimately have "received_by 1 a' = map Inr [chunk_of content 0, chunk_of content 2, chunk_of content 1]"
    using d by (simp add: delivered_def)
  with run swapped_chunks_equal [OF assms(1)] show ?thesis by blast
qed

theorem overlapping_readers_out_of_order_witness:
  "let content = replicate (3 * CHUNK_SIZE) 7;
       msgs = [Subscribe 1 tiny_file (0, 3 * CHUNK_SIZE - 1),
               Subscribe 2 tiny_file (2 * CHUNK_SIZE, 3 * CHUNK_SIZE - 1)]
   in \<exists>a'. run (plain_round content msgs # replicate 4 (plain_round content [])) (new_actor ''url'' None 4 content tiny_file) =
        (a', Finished) \<and>
      received_by 1 a' = map Inr [chunk_of content 0, chunk_of content 2, chunk_of content 1]"
proof -
  let ?content = "replicate (3 * CHUNK_SIZE) (7 :: byte)"
  let ?msgs = "[Subscribe 1 tiny_file (0, 3 * CHUNK_SIZE - 1),
    Subscribe 2 tiny_file (2 * CHUNK_SIZE, 3 * CHUNK_SIZE - 1)]"
  have "length ?content = 3 * CHUNK_SIZE" by simp
  from overlapping_readers_out_of_order [OF this, of "plain_round ?content ?msgs" tiny_file
      "replicate 4 (plain_round ?content [])"] show ?thesis
    unfolding Let_def by (simp del: run.simps) blast
qed

section \<open>A late reader\<close>

text \<open>No chunk that the actor has still to complete is wanted on the channel \<open>tx\<close>.\<close>

definition served_out :: "bytes \<Rightarrow> nat \<Rightarrow> actor \<Rightarrow> bool" where
  "served_out content tx a \<longleftrightarrow>
     valid_subs (length content) (subscribers a) \<and> a_total_size a = length content \<and>
     (\<forall>s e k. (s, e, tx) \<in> set (subscribers a) \<longrightarrow> wants s e k \<longrightarrow> k \<in> completed a)"

lemma wants_selected:
  assumes "select_next_chunk a = Some idx" "valid_subs n (subscribers a)"
  shows "idx * CHUNK_SIZE < n"
proof -
  from select_SomeD(2) [OF assms(1)] obtain s e tx where
    sub: "(s, e, tx) \<in> set (subscribers a)" "idx \<le> e div CHUNK_SIZE"
    by (auto simp: all_candidates_def candidates_def simp del: upt_Suc)
  then have "idx * CHUNK_SIZE \<le> e" by (simp add: less_eq_div_iff_mult_less_eq CHUNK_SIZE_pos)
  with sub(1) assms(2) show ?thesis by (auto simp: valid_subs_def)
qed

lemma served_out_step:
  assumes inv: "served_out content tx a" and r: "quiet r" "honest content r"
    and run: "run_round r a = (a', st)"
  shows "received_by tx a' = received_by tx a \<and>
    (st = Finished \<or> st = Running \<and> served_out content tx a')"
proof -
  have sub: "set (subscribers (tidy r a)) \<subseteq> set (subscribers a)"
    using r(1) by (auto simp: subscribers_tidy quiet_def receive_quiet)
  with inv have tidy: "served_out content tx (tidy r a)" by (auto simp: served_out_def valid_subs_def)
  have step: "\<exists>b'. download_and_forward (r_closed_later r) (r_download r) idx (activated r idx a) = (b', Running) \<and>
      received_by tx b' = received_by tx a"
    if i: "select_next_chunk (tidy r a) = Some idx" for idx
  proof -
    let ?subs = "subscribers (tidy r a)"
    have "valid_subs (length content) ?subs" using tidy by (simp add: served_out_def)
    with download_honest [of idx content "activated r idx a" "r_download r" "r_closed_later r"]
      wants_selected [OF i] inv r(2) obtain b' where b': "download_and_forward (r_closed_later r)
        (r_download r) idx (activated r idx a) = (b', Running)"
      "sent b' = sent a @ messages (r_closed_later r) content idx ?subs"
      by (auto simp: served_out_def honest_def)
    have "idx \<notin> completed a" using select_SomeD(1) [OF i] by simp
    with tidy have "filter (\<lambda>(t, _). t = tx) (messages (r_closed_later r) content idx ?subs) = []"
      by (fastforce simp: messages_def filter_empty_conv served_out_def)
    with b' show ?thesis by (simp add: received_by_def)
  qed
  from run show ?thesis
  proof (cases rule: run_round_cases)
    case (running idx a4)
    with step [of idx] have "received_by tx a4 = received_by tx a" by simp
    moreover have "served_out content tx a'"
      using download_running [OF running(3)] running(4) tidy inv by (fastforce simp: served_out_def)
    ultimately show ?thesis using running by (simp add: received_by_def)
  next
    case (stopping idx a4)
    with step [of idx] show ?thesis by auto
  qed (auto intro: received_by_cong)
qed

lemma served_out_run:
  "served_out content tx a \<Longrightarrow> \<forall>r \<in> set rs. quiet r \<and> honest content r \<Longrightarrow>
     received_by tx (fst (run rs a)) = received_by tx a \<and> snd (run rs a) \<in> {Running, Finished}"
proof (induction rs arbitrary: a)
  case (Cons r rs)
  obtain a' st where r: "run_round r a = (a', st)" by fastforce
  from served_out_step [OF Cons.prems(1) _ _ r] Cons.prems(2) have
    "received_by tx a' = received_by tx a" "st = Finished \<or> st = Running \<and> served_out content tx a'" by auto
  with r Cons.IH [of a'] Cons.prems(2) show ?case by auto
qed simp

text \<open>
  C36: A reader that joins a running actor after the chunks of its range were completed gets
  nothing at all: no byte and no error, although its subscription was accepted with the full
  content length; the actor ends normally.
\<close>

theorem late_reader_gets_nothing:
  assumes "handle_subscribe False \<lparr>ah_file = fl, ah_total_size = length content\<rparr> tx (Some (s, Some e)) =
      Inr (fl', len, msg)"
    and "\<forall>i \<in> {s div CHUNK_SIZE .. e div CHUNK_SIZE}. i \<in> completed a"
    and "valid_subs (length content) (subscribers a)" "a_total_size a = length content"
    and "a_chunk_count a = max (div_ceil (length content) CHUNK_SIZE) 1" "completed a \<subseteq> {..<a_chunk_count a}"
    and "received_by tx a = []" "\<forall>(_, _, t) \<in> set (subscribers a). t \<noteq> tx"
    and "r_msgs r = [msg]" "\<forall>r' \<in> set rs. quiet r'" "\<forall>r' \<in> set (r # rs). honest content r'"
    and "a_chunk_count a \<le> length rs"
  shows "0 < len \<and> (\<exists>a'. run (r # rs) a = (a', Finished) \<and> received_by tx a' = [])"
proof -
  obtain e' where e': "s \<le> e'" "e' < length content" "len = e' - s + 1" "msg = Subscribe tx fl (s, e')"
    using handle_subscribe_Inr [OF assms(1)] by auto
  have le: "e' \<le> e" using assms(1) e' by (auto simp: handle_subscribe_def Let_def split: if_splits)
  let ?a = "receive_message msg a" and ?r = "r\<lparr>r_msgs := []\<rparr>"
  have eq: "run (r # rs) a = run (?r # rs) ?a" using run_first [of r rs a] assms(9) by simp
  have "e' div CHUNK_SIZE \<le> e div CHUNK_SIZE" using le by (rule div_le_mono)
  with assms(2) have "\<forall>k. wants s e' k \<longrightarrow> k \<in> completed a" by (auto simp: wants_def)
  with assms(3,4,8) e' have "served_out content tx ?a" by (auto simp: served_out_def valid_subs_def)
  moreover have "\<forall>r' \<in> set (?r # rs). quiet r' \<and> honest content r'"
    using assms(10,11) by (auto simp: quiet_def honest_def)
  ultimately have "received_by tx (fst (run (?r # rs) ?a)) = received_by tx ?a \<and>
      snd (run (?r # rs) ?a) \<in> {Running, Finished}" by (rule served_out_run)
  moreover have "snd (run (?r # rs) ?a) \<noteq> Running"
    using assms(5,6,12) e'(4) by (intro session_run_terminates) auto
  moreover have "received_by tx ?a = []" using assms(7) by (simp add: received_by_def)
  ultimately show ?thesis using e'(3) unfolding eq by (auto intro!: exI prod_eqI)
qed

theorem late_reader_gets_nothing_witness:
  "\<exists>a'. run [plain_round [7, 8, 9] [Subscribe 6 tiny_file (1, 2)], plain_round [7, 8, 9] []]
      ((new_actor ''url'' None 4 [7, 8, 9] tiny_file)
         \<lparr>subscribers := [(0, 2, 5)], completed := {0}, sent := [(5, Inr [7, 8, 9])]\<rparr>) = (a', Finished) \<and>
     received_by 6 a' = []"
proof -
  let ?a = "(new_actor ''url'' None 4 [7, 8, 9] tiny_file)
    \<lparr>subscribers := [(0, 2, 5)], completed := {0}, sent := [(5, Inr [7, 8, 9])]\<rparr>"
  have h: "handle_subscribe False \<lparr>ah_file = tiny_file, ah_total_size = length [7, 8, 9 :: byte]\<rparr> 6
      (Some (1, Some 2)) = Inr (tiny_file, 2, Subscribe 6 tiny_file (1, 2))"
    by (simp add: handle_subscribe_def saturating_sub_def)
  have k: "\<forall>i \<in> {1 div CHUNK_SIZE .. 2 div CHUNK_SIZE}. i \<in> completed ?a" by (simp add: CHUNK_SIZE_def)
  show ?thesis
    using late_reader_gets_nothing [OF h k, of "plain_round [7, 8, 9] [Subscribe 6 tiny_file (1, 2)]"
        "[plain_round [7, 8, 9] []]"]
    by (simp add: new_actor_def spawn_def valid_subs_def received_by_def del: run.simps)
qed

section \<open>A first reader that is too slow\<close>

text \<open>
  \<open>get_or_create\<close> starts the actor before \<open>ActorHandle::subscribe\<close> sends the message of its first
  reader. An actor whose first turn comes before that message has nobody to serve and stops: the
  reader is refused, or, when it sends before the mailbox is dropped, accepted with a content
  length and served nothing.
\<close>

lemma first_turn_before_first_reader:
  assumes "get_or_create gone file_id name url total_size base ua fl m = (h, Some a, m')" "quiet r"
    and "handle_subscribe False h tx rng = Inr (fl', len, msg)"
  shows "0 < len \<and> run (r # rs) a = (a, Finished) \<and> sent a = [] \<and>
    handle_subscribe True h tx rng = Inl (StreamError ActorStopped)"
proof -
  from assms(1) have a: "a = snd (spawn file_id name url total_size (div_ceil total_size CHUNK_SIZE) ua base fl)"
    by (auto simp: get_or_create_def split: option.splits prod.splits)
  then have idle: "subscribers a = []" "prefetch_inflight a = {}" "completed a = {}" "sent a = []"
    by (simp_all add: spawn_def)
  have "tidy r a = a"
    using idle assms(2) by (simp add: tidy_def receive_quiet quiet_def clean_subscribers_def cleanup_prefetches_def)
  then have "run (r # rs) a = (a, Finished)" using idle by (simp add: run_round_def)
  moreover have "0 < len" using handle_subscribe_Inr [OF assms(3)] by auto
  moreover have "handle_subscribe True h tx rng = Inl (StreamError ActorStopped)"
    using assms(3) by (auto simp: handle_subscribe_def Let_def split: if_splits)
  ultimately show ?thesis using idle by simp
qed

end
