(* ===== verification/Fetch.thy ===== *)
theory Fetch
  imports Storage Chunker Metadata Reach
begin

text \<open>
  The chunk sessions of \<open>src/session.rs\<close>: \<open>ChunkReader\<close>, which reads a chunk from the store or
  downloads it with retries, verifies, stores and announces it, and \<open>SessionTable\<close>, which lets
  all tasks that need the same chunk share one download; and the task of
  \<open>CacheService::new\<close> (\<open>src/service.rs\<close>) that records the announced chunks.

  Parameters: the digest \<open>dg\<close>, the storage backend \<open>B\<close>, and what the HTTP client gives on each
  attempt (\<open>net\<close>, numbered from 1): a send error, or a status with a body that was read
  completely or not. A range request has no effect on the program's own state.
\<close>

section \<open>Reading a chunk from the store\<close>

record chunk_reader =
  verify_sha256 :: bool
  chunk_retries :: nat

record chunk_stored_event =
  ev_sha256 :: string
  ev_path :: string
  ev_data_len :: int
  ev_stored_size :: int
  ev_file_id :: int
  ev_chunk_idx :: int

text \<open>
  \<open>read_cached_chunk\<close>: an error of the backend counts as absence; with verification on, a chunk
  that does not have its hash or its size is deleted, and a failure of that is ignored.
\<close>

definition read_cached_chunk ::
  "(bytes \<Rightarrow> bytes) \<Rightarrow> 's backend \<Rightarrow> chunk_reader \<Rightarrow> string \<Rightarrow> nat option \<Rightarrow> 's \<Rightarrow> bytes option \<times> 's" where
  "read_cached_chunk dg B cr sha expected s =
     (case b_get B sha s of
        Inl _ \<Rightarrow> (None, s)
      | Inr raw \<Rightarrow>
          if \<not> verify_sha256 cr then (Some raw, s)
          else if sha256_hex dg raw = sha
          then (case expected of
                  Some n \<Rightarrow> if length raw \<noteq> n then (None, snd (b_delete B sha s)) else (Some raw, s)
                | None \<Rightarrow> (Some raw, s))
          else (None, snd (b_delete B sha s)))"

section \<open>Downloading a chunk\<close>

datatype http_outcome =
    Send_error
  | Response nat "bytes option"

record 's fetch_state =
  fetch_store :: 's
  cached_chunks :: "nat \<rightharpoonup> string"
  events :: "chunk_stored_event list"
  fetched_bytes :: nat
  slept :: "nat list"

text \<open>What one attempt comes to: the bytes to keep, another attempt, or the end.\<close>

datatype attempt =
    Got bytes
  | Retry chunk_error
  | Fail anyhow

definition judge_response :: "nat \<Rightarrow> nat \<Rightarrow> nat \<Rightarrow> nat \<Rightarrow> http_outcome \<Rightarrow> attempt" where
  "judge_response idx start end_pos attempt_no out =
     (case out of
        Send_error \<Rightarrow> Retry (RequestError idx attempt_no)
      | Response status body \<Rightarrow>
          if 500 \<le> status \<and> status < 600 then Retry (ServerError idx status attempt_no)
          else if 400 \<le> status \<and> status < 500 then Fail (ChunkError (StatusError idx status))
          else case body of
                 None \<Rightarrow> Retry (DownloadError idx attempt_no)
               | Some full_data \<Rightarrow>
                   (let expected_len = end_pos - start + 1
                    in if status = 200 \<and> length full_data > expected_len
                       then case checked_slice start (min (end_pos + 1) (length full_data)) full_data of
                              None \<Rightarrow> Fail Panicked
                            | Some d \<Rightarrow> Got d
                       else if length full_data \<noteq> expected_len
                       then Retry (Incomplete idx attempt_no expected_len (length full_data))
                       else Got full_data))"

text \<open>
  What follows a complete download: count, verify against the expected hash, store unless the
  store has the hash already, announce. The per-hash write lock makes the test and the write
  one step.
\<close>

definition keep_chunk :: "'s backend \<Rightarrow> string \<Rightarrow> bytes \<Rightarrow> 's \<Rightarrow> int res \<times> 's" where
  "keep_chunk B sha d s =
     (case b_exists B sha s of
        Inr True \<Rightarrow> (Inr (int (length d)), s)
      | _ \<Rightarrow> (case b_put B sha d s of
                (Inl e, s') \<Rightarrow> (Inl e, s')
              | (Inr n, s') \<Rightarrow> (Inr (u64_as_i64 n), s')))"

definition stored_path :: "string \<Rightarrow> string option" where
  "stored_path sha =
     (case (checked_slice 0 2 sha, checked_slice 2 4 sha) of
        (Some d1, Some d2) \<Rightarrow> Some (d1 @ ''/'' @ d2 @ ''/'' @ sha)
      | _ \<Rightarrow> None)"

definition store_chunk ::
  "(bytes \<Rightarrow> bytes) \<Rightarrow> 's backend \<Rightarrow> chunk_reader \<Rightarrow> int \<Rightarrow> nat \<Rightarrow> bytes \<Rightarrow> 's fetch_state \<Rightarrow>
    bytes res \<times> 's fetch_state" where
  "store_chunk dg B cr file_id idx d st =
     (let st1 = st\<lparr>fetched_bytes := (fetched_bytes st + length d) mod 2 ^ 64\<rparr>;
          sha = sha256_hex dg d;
          expected = cached_chunks st1 idx
      in if verify_sha256 cr \<and> expected \<noteq> None \<and> expected \<noteq> Some sha
         then (Inl (ChunkError (ChecksumMismatch idx (the expected) sha)), st1)
         else case keep_chunk B sha d (fetch_store st1) of
                (Inl e, s) \<Rightarrow> (Inl e, st1\<lparr>fetch_store := s\<rparr>)
              | (Inr size_stored, s) \<Rightarrow>
                  (case stored_path sha of
                     None \<Rightarrow> (Inl Panicked, st1\<lparr>fetch_store := s\<rparr>)
                   | Some path \<Rightarrow>
                       (Inr d, st1\<lparr>fetch_store := s,
                                   cached_chunks := (cached_chunks st1)(idx \<mapsto> sha),
                                   events := events st1 @
                                     [\<lparr>ev_sha256 = sha, ev_path = path,
                                       ev_data_len = int (length d), ev_stored_size = size_stored,
                                       ev_file_id = file_id, ev_chunk_idx = int idx\<rparr>]\<rparr>)))"

text \<open>The loop. \<open>attempt_no\<close> is the counter after its increment; it starts at 1.\<close>

definition max_retries :: "chunk_reader \<Rightarrow> nat" where
  "max_retries cr = max (chunk_retries cr) 1"

function fetch_loop ::
  "(bytes \<Rightarrow> bytes) \<Rightarrow> 's backend \<Rightarrow> chunk_reader \<Rightarrow> (nat \<Rightarrow> http_outcome) \<Rightarrow> int \<Rightarrow> nat \<Rightarrow>
    nat \<Rightarrow> nat \<Rightarrow> nat \<Rightarrow> 's fetch_state \<Rightarrow> bytes res \<times> 's fetch_state" where
  "fetch_loop dg B cr net file_id idx start end_pos attempt_no st =
     (case judge_response idx start end_pos attempt_no (net attempt_no) of
        Got d \<Rightarrow> store_chunk dg B cr file_id idx d st
      | Fail e \<Rightarrow> (Inl e, st)
      | Retry e \<Rightarrow>
          if attempt_no \<ge> max_retries cr then (Inl (ChunkError e), st)
          else fetch_loop dg B cr net file_id idx start end_pos (attempt_no + 1)
                 (st\<lparr>slept := slept st @ [500 * attempt_no]\<rparr>))"
  by pat_completeness auto
termination
  by (relation "measure (\<lambda>(dg, B, cr, net, file_id, idx, start, end_pos, n, st). max_retries cr - n)") auto

declare fetch_loop.simps [simp del]

definition fetch_chunk ::
  "(bytes \<Rightarrow> bytes) \<Rightarrow> 's backend \<Rightarrow> chunk_reader \<Rightarrow> (nat \<Rightarrow> http_outcome) \<Rightarrow> int \<Rightarrow> nat \<Rightarrow>
    nat \<Rightarrow> nat \<Rightarrow> 's fetch_state \<Rightarrow> bytes res \<times> 's fetch_state" where
  "fetch_chunk dg B cr net file_id idx start end_pos st =
     fetch_loop dg B cr net file_id idx start end_pos 1 st"

section \<open>The task that records announced chunks\<close>

definition record_event :: "string \<Rightarrow> chunk_stored_event \<Rightarrow> db \<Rightarrow> db" where
  "record_event now ev d =
     snd (ensure_chunk_and_link now (ev_sha256 ev) ''local'' (ev_path ev) (ev_data_len ev)
            (ev_stored_size ev) (ev_file_id ev) (ev_chunk_idx ev) (ev_data_len ev) d)"

section \<open>Sharing a download\<close>

text \<open>
  \<open>SessionTable::subscribe\<close> for the chunks that are not in the store, one atomic action of a task
  at a time. A broadcast channel is a number; \<open>phase\<close> is where its download task is:
  fetching, between the send of the result and the removal of the table's entry, ended, or
  ended by a panic, after which the entry stays. The table's entry holds a sender, so a
  channel is closed only when its task is gone and its entry too. A receiver gets what is sent
  after it subscribed.
\<close>

type_synonym key = "int \<times> int"

text \<open>The tables below work for keys of any type \<open>'k\<close>.\<close>

datatype 'k phase = Fetching 'k | Replying 'k | Ended | Task_panicked 'k

record ('k, 'm) table =
  entries :: "'k \<rightharpoonup> nat"
  tasks :: "'k phase list"
  receivers :: "(nat \<times> 'm option) list"

datatype ('k, 'm) table_event =
    Subscribed 'k
  | Fetched nat 'm
  | Removed nat
  | Panicking nat

definition empty_table :: "('k, 'm) table" where
  "empty_table = \<lparr>entries = Map.empty, tasks = [], receivers = []\<rparr>"

text \<open>The result of a step, or \<open>None\<close> when no task is in a position to do it.\<close>

fun table_step :: "('k, 'm) table_event \<Rightarrow> ('k, 'm) table \<Rightarrow> ('k, 'm) table option" where
  "table_step (Subscribed k) t =
     (case entries t k of
        Some c \<Rightarrow> Some (t\<lparr>receivers := receivers t @ [(c, None)]\<rparr>)
      | None \<Rightarrow>
          Some (t\<lparr>entries := (entries t)(k \<mapsto> length (tasks t)),
                  tasks := tasks t @ [Fetching k],
                  receivers := receivers t @ [(length (tasks t), None)]\<rparr>))"
| "table_step (Fetched c m) t =
     (if c < length (tasks t)
      then case tasks t ! c of
             Fetching k \<Rightarrow>
               Some (t\<lparr>tasks := (tasks t)[c := Replying k],
                       receivers := map (\<lambda>(c', inbox). (c', if c' = c then Some m else inbox))
                                      (receivers t)\<rparr>)
           | _ \<Rightarrow> None
      else None)"
| "table_step (Removed c) t =
     (if c < length (tasks t)
      then case tasks t ! c of
             Replying k \<Rightarrow> Some (t\<lparr>tasks := (tasks t)[c := Ended], entries := (entries t)(k := None)\<rparr>)
           | _ \<Rightarrow> None
      else None)"
| "table_step (Panicking c) t =
     (if c < length (tasks t)
      then case tasks t ! c of
             Fetching k \<Rightarrow> Some (t\<lparr>tasks := (tasks t)[c := Task_panicked k]\<rparr>)
           | _ \<Rightarrow> None
      else None)"

text \<open>What \<open>rx.recv()\<close> gives: a message, a closed channel, or nothing yet.\<close>

datatype 'm recv_result = Received 'm | Recv_closed | Pending

definition channel_open :: "('k, 'm) table \<Rightarrow> nat \<Rightarrow> bool" where
  "channel_open t c =
     (tasks t ! c \<noteq> Ended \<and> \<not> (case tasks t ! c of Task_panicked k \<Rightarrow> entries t k \<noteq> Some c | _ \<Rightarrow> False))"

definition recv :: "('k, 'm) table \<Rightarrow> nat \<Rightarrow> 'm recv_result" where
  "recv t r =
     (case receivers t ! r of
        (c, Some m) \<Rightarrow> Received m
      | (c, None) \<Rightarrow> if channel_open t c then Pending else Recv_closed)"

abbreviation table_run :: "('k, 'm) table \<Rightarrow> ('k, 'm) table \<Rightarrow> bool" where
  "table_run \<equiv> reach (by_event table_step)"

abbreviation table_reachable :: "('k, 'm) table \<Rightarrow> bool" where
  "table_reachable \<equiv> table_run empty_table"

text \<open>
  The part of \<open>subscribe\<close> before the table: a chunk that the map of cached chunks names is read
  from the store, and its name is dropped from the map when that fails.
\<close>

definition subscribe_cached ::
  "(bytes \<Rightarrow> bytes) \<Rightarrow> 's backend \<Rightarrow> chunk_reader \<Rightarrow> nat \<Rightarrow> nat \<Rightarrow> nat \<Rightarrow> 's fetch_state \<Rightarrow>
    bytes option \<times> 's fetch_state" where
  "subscribe_cached dg B cr idx start end_pos st =
     (case cached_chunks st idx of
        None \<Rightarrow> (None, st)
      | Some sha \<Rightarrow>
          (case read_cached_chunk dg B cr sha (Some (end_pos - start + 1)) (fetch_store st) of
             (Some d, s) \<Rightarrow> (Some d, st\<lparr>fetch_store := s\<rparr>)
           | (None, s) \<Rightarrow>
               (None, st\<lparr>fetch_store := s, cached_chunks := (cached_chunks st)(idx := None)\<rparr>)))"

end
