(* ===== verification/Fetch_Props.thy ===== *)
theory Fetch_Props
  imports Fetch
begin

text \<open>
  The properties of chunk downloads: success after transient failures, giving up, and what an
  honest and a dishonest server can make the program store.
\<close>

section \<open>Attempts\<close>

text \<open>What a server of \<open>content\<close> answers to a range request, with or without range support.\<close>

definition good_response :: "bytes \<Rightarrow> nat \<Rightarrow> nat \<Rightarrow> http_outcome \<Rightarrow> bool" where
  "good_response content start end_pos out \<longleftrightarrow>
     out = Response 206 (Some (slice_of start (end_pos + 1) content)) \<or> out = Response 200 (Some content)"

definition transient :: "nat \<Rightarrow> http_outcome \<Rightarrow> bool" where
  "transient expected_len out \<longleftrightarrow>
     (case out of
        Send_error \<Rightarrow> True
      | Response status body \<Rightarrow>
          (500 \<le> status \<and> status < 600) \<or>
          (status < 400 \<and> (case body of None \<Rightarrow> True | Some b \<Rightarrow> length b < expected_len)))"

lemma judge_good:
  assumes "good_response content start end_pos out" "start \<le> end_pos" "end_pos < length content"
  shows "judge_response idx start end_pos n out = Got (slice_of start (end_pos + 1) content)"
proof -
  have "slice_of start (end_pos + 1) content = content" if "length content \<le> end_pos - start + 1"
  proof -
    have "start = 0" "end_pos + 1 = length content" using that assms(2,3) by linarith+
    then show ?thesis by (simp add: slice_of_def)
  qed
  with assms show ?thesis
    by (auto simp: good_response_def judge_response_def checked_slice_def Let_def min_def)
qed

lemma judge_transient:
  assumes "transient (end_pos - start + 1) out"
  shows "\<exists>e. judge_response idx start end_pos n out = Retry e"
  using assms by (auto simp: transient_def judge_response_def Let_def split: http_outcome.splits option.splits)

lemma fetch_loop_retries:
  assumes "\<forall>j. n \<le> j \<and> j < k \<longrightarrow> (\<exists>e. judge_response idx start end_pos j (net j) = Retry e)"
    and "n \<le> k" "k \<le> max_retries cr"
  shows "fetch_loop dg B cr net file_id idx start end_pos n st =
    fetch_loop dg B cr net file_id idx start end_pos k
      (st\<lparr>slept := slept st @ map (\<lambda>j. 500 * j) [n ..< k]\<rparr>)"
  using assms
proof (induction "k - n" arbitrary: n st)
  case 0
  then show ?case by simp
next
  case (Suc m)
  then have n: "n < k" by simp
  then obtain e where e: "judge_response idx start end_pos n (net n) = Retry e" using Suc.prems(1) by blast
  have "fetch_loop dg B cr net file_id idx start end_pos n st =
      fetch_loop dg B cr net file_id idx start end_pos (n + 1) (st\<lparr>slept := slept st @ [500 * n]\<rparr>)"
    using e n Suc.prems(3) by (subst fetch_loop.simps) simp
  also have "\<dots> = fetch_loop dg B cr net file_id idx start end_pos k
      ((st\<lparr>slept := slept st @ [500 * n]\<rparr>)
        \<lparr>slept := slept (st\<lparr>slept := slept st @ [500 * n]\<rparr>) @ map (\<lambda>j. 500 * j) [n + 1 ..< k]\<rparr>)"
    using Suc.prems n Suc.hyps(2) by (intro Suc.hyps(1)) auto
  also have "[n ..< k] = n # [n + 1 ..< k]" using n by (simp add: upt_conv_Cons)
  ultimately show ?case by simp
qed

text \<open>Whatever the attempts give, the loop ends with one of them.\<close>

lemma fetch_loop_cases:
  "\<exists>k ss. n \<le> k \<and> k \<le> max n (max_retries cr) \<and>
    fetch_loop dg B cr net file_id idx start end_pos n st =
      (case judge_response idx start end_pos k (net k) of
         Got d \<Rightarrow> store_chunk dg B cr file_id idx d (st\<lparr>slept := ss\<rparr>)
       | Fail e \<Rightarrow> (Inl e, st\<lparr>slept := ss\<rparr>)
       | Retry e \<Rightarrow> (Inl (ChunkError e), st\<lparr>slept := ss\<rparr>))"
proof (induction "max_retries cr - n" arbitrary: n st rule: less_induct)
  case less
  show ?case
  proof (cases "\<exists>e. judge_response idx start end_pos n (net n) = Retry e \<and> n < max_retries cr")
    case True
    then obtain e where e: "judge_response idx start end_pos n (net n) = Retry e" "n < max_retries cr"
      by blast
    let ?st = "st\<lparr>slept := slept st @ [500 * n]\<rparr>"
    have "max_retries cr - (n + 1) < max_retries cr - n" using e(2) by simp
    from less [OF this, of ?st] obtain k ss where
      k: "n + 1 \<le> k" "k \<le> max (n + 1) (max_retries cr)"
      "fetch_loop dg B cr net file_id idx start end_pos (n + 1) ?st =
        (case judge_response idx start end_pos k (net k) of
           Got d \<Rightarrow> store_chunk dg B cr file_id idx d (?st\<lparr>slept := ss\<rparr>)
         | Fail e \<Rightarrow> (Inl e, ?st\<lparr>slept := ss\<rparr>)
         | Retry e \<Rightarrow> (Inl (ChunkError e), ?st\<lparr>slept := ss\<rparr>))" by blast
    with e show ?thesis
      by (subst fetch_loop.simps) (intro exI [of _ k] exI [of _ ss], simp split: attempt.split)
  next
    case False
    then show ?thesis
      by (subst fetch_loop.simps, intro exI [of _ n] exI [of _ "slept st"])
        (auto split: attempt.split)
  qed
qed

section \<open>Storing\<close>

context storage_laws
begin

lemma keep_chunk_ok:
  assumes "invar s" "sha_key k" "contents s k = None \<or> contents s k = Some d"
  shows "\<exists>n s'. keep_chunk B k d s = (Inr n, s') \<and> invar s' \<and>
    (\<forall>j. sha_key j \<longrightarrow> contents s' j = ((contents s)(k \<mapsto> d)) j)"
proof (cases "contents s k")
  case None
  then obtain n s' where "b_put B k d s = (Inr n, s')" "invar s'"
    "\<forall>j. sha_key j \<longrightarrow> contents s' j = ((contents s)(k \<mapsto> d)) j"
    using put_stores [OF assms] by blast
  with None exists_iff [OF assms(1,2)] show ?thesis by (simp add: keep_chunk_def)
next
  case (Some x)
  with assms exists_iff [OF assms(1,2)] show ?thesis by (auto simp: keep_chunk_def fun_upd_def)
qed

lemma store_chunk_ok:
  assumes "\<forall>x. length (dg x) = 32" "invar (fetch_store st)"
    and "contents (fetch_store st) (sha256_hex dg d) = None \<or>
      contents (fetch_store st) (sha256_hex dg d) = Some d"
    and "verify_sha256 cr \<longrightarrow> cached_chunks st idx \<in> {None, Some (sha256_hex dg d)}"
  shows "\<exists>st' n path. store_chunk dg B cr file_id idx d st = (Inr d, st') \<and> invar (fetch_store st') \<and>
    (\<forall>j. sha_key j \<longrightarrow> contents (fetch_store st') j =
       ((contents (fetch_store st))(sha256_hex dg d \<mapsto> d)) j) \<and>
    cached_chunks st' = (cached_chunks st)(idx \<mapsto> sha256_hex dg d) \<and> slept st' = slept st \<and>
    events st' = events st @ [\<lparr>ev_sha256 = sha256_hex dg d, ev_path = path,
      ev_data_len = int (length d), ev_stored_size = n, ev_file_id = file_id, ev_chunk_idx = int idx\<rparr>]"
proof -
  let ?sha = "sha256_hex dg d"
  have k: "sha_key ?sha" using assms(1) by (simp add: sha_key_def length_sha256_hex)
  then obtain path where path: "stored_path ?sha = Some path"
    by (simp add: stored_path_def checked_slice_def sha_key_def)
  from keep_chunk_ok [OF assms(2) k assms(3)] obtain n s' where
    "keep_chunk B ?sha d (fetch_store st) = (Inr n, s')" "invar s'"
    "\<forall>j. sha_key j \<longrightarrow> contents s' j = ((contents (fetch_store st))(?sha \<mapsto> d)) j" by blast
  moreover from this(1) path assms(4) have "store_chunk dg B cr file_id idx d st =
      (Inr d, st\<lparr>fetched_bytes := (fetched_bytes st + length d) mod 2 ^ 64, fetch_store := s',
                 cached_chunks := (cached_chunks st)(idx \<mapsto> ?sha),
                 events := events st @ [\<lparr>ev_sha256 = ?sha, ev_path = path,
                   ev_data_len = int (length d), ev_stored_size = n, ev_file_id = file_id,
                   ev_chunk_idx = int idx\<rparr>]\<rparr>)"
    by (auto simp: store_chunk_def Let_def)
  ultimately show ?thesis by fastforce
qed

end

lemma store_chunk_verified:
  assumes "store_chunk dg B cr file_id idx d st = (Inr d', st')"
  shows "d' = d \<and> (verify_sha256 cr \<longrightarrow> cached_chunks st idx \<in> {None, Some (sha256_hex dg d)})"
  using assms by (auto simp: store_chunk_def Let_def split: if_splits prod.splits sum.splits option.splits)

section \<open>Downloads\<close>

lemma fetch_chunk_good:
  assumes "storage_laws B contents invar" "\<forall>x. length (dg x) = 32" "invar (fetch_store st)"
    and "start \<le> end_pos" "end_pos < length content" "d = slice_of start (end_pos + 1) content"
    and "1 \<le> k" "k \<le> max_retries cr" "good_response content start end_pos (net k)"
    and "\<forall>j. 1 \<le> j \<and> j < k \<longrightarrow> transient (length d) (net j)"
    and "contents (fetch_store st) (sha256_hex dg d) = None \<or>
      contents (fetch_store st) (sha256_hex dg d) = Some d"
    and "verify_sha256 cr \<longrightarrow> cached_chunks st idx \<in> {None, Some (sha256_hex dg d)}"
  shows "\<exists>st' n path. fetch_chunk dg B cr net file_id idx start end_pos st = (Inr d, st') \<and>
    (\<forall>j. sha_key j \<longrightarrow> contents (fetch_store st') j =
       ((contents (fetch_store st))(sha256_hex dg d \<mapsto> d)) j) \<and> invar (fetch_store st') \<and>
    cached_chunks st' = (cached_chunks st)(idx \<mapsto> sha256_hex dg d) \<and>
    slept st' = slept st @ map (\<lambda>j. 500 * j) [1 ..< k] \<and>
    events st' = events st @ [\<lparr>ev_sha256 = sha256_hex dg d, ev_path = path,
      ev_data_len = int (length d), ev_stored_size = n, ev_file_id = file_id, ev_chunk_idx = int idx\<rparr>]"
proof -
  have len: "length d = end_pos - start + 1" using assms(4-6) by simp
  have "\<forall>j. 1 \<le> j \<and> j < k \<longrightarrow> (\<exists>e. judge_response idx start end_pos j (net j) = Retry e)"
    using assms(10) judge_transient unfolding len by blast
  from fetch_loop_retries [OF this assms(7,8)] have
    "fetch_chunk dg B cr net file_id idx start end_pos st =
      fetch_loop dg B cr net file_id idx start end_pos k
        (st\<lparr>slept := slept st @ map (\<lambda>j. 500 * j) [1 ..< k]\<rparr>)" by (simp only: fetch_chunk_def)
  also have "\<dots> = store_chunk dg B cr file_id idx d
      (st\<lparr>slept := slept st @ map (\<lambda>j. 500 * j) [1 ..< k]\<rparr>)"
    using judge_good [OF assms(9,4,5)] by (subst fetch_loop.simps) (simp add: assms(6))
  finally show ?thesis
    using storage_laws.store_chunk_ok [OF assms(1) assms(2),
        of "st\<lparr>slept := slept st @ map (\<lambda>j. 500 * j) [1 ..< k]\<rparr>" d cr idx file_id] assms(3,11,12)
    by (simp only: fetch_state.simps) fastforce
qed

text \<open>
  C6: If attempt \<open>k\<close>, within the allowed number, meets a server that answers with the content
  (as a partial or as a full response) and every attempt before it met a send error, a server
  error, a lost or a short body, then the download returns exactly the requested bytes after
  waiting 500 ms longer each time; the store then holds them under their hash and nothing else
  has changed in it, and one event announces them.
\<close>

theorem fetch_chunk_succeeds:
  assumes "storage_laws B contents invar" "\<forall>x. length (dg x) = 32" "invar (fetch_store st)"
    and "start \<le> end_pos" "end_pos < length content" "d = slice_of start (end_pos + 1) content"
    and "1 \<le> k" "k \<le> max_retries cr" "good_response content start end_pos (net k)"
    and "\<forall>j. 1 \<le> j \<and> j < k \<longrightarrow> transient (length d) (net j)"
    and "contents (fetch_store st) (sha256_hex dg d) = None \<or>
      contents (fetch_store st) (sha256_hex dg d) = Some d"
    and "verify_sha256 cr \<longrightarrow> cached_chunks st idx \<in> {None, Some (sha256_hex dg d)}"
  shows "\<exists>st' n path. fetch_chunk dg B cr net file_id idx start end_pos st = (Inr d, st') \<and>
    (\<forall>j. sha_key j \<longrightarrow> contents (fetch_store st') j =
       ((contents (fetch_store st))(sha256_hex dg d \<mapsto> d)) j) \<and> invar (fetch_store st') \<and>
    cached_chunks st' = (cached_chunks st)(idx \<mapsto> sha256_hex dg d) \<and>
    slept st' = slept st @ map (\<lambda>j. 500 * j) [1 ..< k] \<and>
    events st' = events st @ [\<lparr>ev_sha256 = sha256_hex dg d, ev_path = path,
      ev_data_len = int (length d), ev_stored_size = n, ev_file_id = file_id, ev_chunk_idx = int idx\<rparr>]"
  using assms by (rule fetch_chunk_good)

theorem fetch_chunk_succeeds_witness:
  "\<exists>st'. fetch_chunk (\<lambda>_. replicate 32 0) (local_ops id Some (plain_backend ''r'')) \<lparr>verify_sha256 = True, chunk_retries = 3\<rparr>
      (\<lambda>n. if n = 1 then Send_error else if n = 2 then Response 503 None else Response 200 (Some [5, 6, 7, 8]))
      1 0 1 2 \<lparr>fetch_store = Map.empty, cached_chunks = Map.empty, events = [], fetched_bytes = 0, slept = []\<rparr> =
      (Inr [6, 7], st') \<and> slept st' = [500, 1000]"
proof -
  let ?st = "\<lparr>fetch_store = Map.empty, cached_chunks = Map.empty, events = [], fetched_bytes = 0, slept = []\<rparr> :: fs fetch_state"
  let ?net = "\<lambda>n :: nat. if n = 1 then Send_error else if n = 2 then Response 503 None else Response 200 (Some [5, 6, 7, 8])"
  let ?cr = "\<lparr>verify_sha256 = True, chunk_retries = 3\<rparr>"
  have d: "[6, 7] = slice_of 1 (2 + 1) [5, 6, 7, 8 :: byte]" by (simp add: slice_of_def)
  have tr: "\<forall>j. 1 \<le> j \<and> j < 3 \<longrightarrow> transient (length [6, 7 :: byte]) (?net j)"
    by (auto simp: transient_def)
  have inv: "local_invar Some (plain_backend ''r'') (fetch_store ?st)"
    by (simp add: local_invar_def plain_backend_def)
  have none: "local_contents Some (plain_backend ''r'') (fetch_store ?st) k = None" for k
    by (simp add: local_contents_def split: option.splits)
  have "[1 ..< 3] = [1, 2 :: nat]" by (simp add: upt_rec)
  moreover have "good_response [5, 6, 7, 8] 1 2 (?net 3)" by (simp add: good_response_def)
  ultimately show ?thesis
    using fetch_chunk_succeeds [OF plain_local.storage_laws_axioms [of id Some "''r''"],
        where st = ?st and net = ?net and k = 3 and dg = "\<lambda>_. replicate 32 0" and cr = ?cr and idx = 0
          and start = 1 and end_pos = 2 and content = "[5, 6, 7, 8]" and d = "[6, 7]" and file_id = 1]
      inv d tr none by (auto simp: max_retries_def)
qed

text \<open>
  C28: A download that meets only such transient failures gives up after exactly the configured
  number of attempts (at least one): the error is returned, no chunk is stored or announced
  and the map of cached chunks is unchanged.
\<close>

theorem fetch_chunk_gives_up:
  assumes "\<forall>j. 1 \<le> j \<and> j \<le> max_retries cr \<longrightarrow> transient (end_pos - start + 1) (net j)"
  shows "\<exists>e. fetch_chunk dg B cr net file_id idx start end_pos st =
    (Inl (ChunkError e), st\<lparr>slept := slept st @ map (\<lambda>j. 500 * j) [1 ..< max_retries cr]\<rparr>)"
proof -
  have one: "1 \<le> max_retries cr" by (simp add: max_retries_def)
  have "\<forall>j. 1 \<le> j \<and> j < max_retries cr \<longrightarrow> (\<exists>e. judge_response idx start end_pos j (net j) = Retry e)"
    using assms judge_transient by (meson less_imp_le)
  from fetch_loop_retries [OF this one order_refl] have
    eq: "fetch_chunk dg B cr net file_id idx start end_pos st =
      fetch_loop dg B cr net file_id idx start end_pos (max_retries cr)
        (st\<lparr>slept := slept st @ map (\<lambda>j. 500 * j) [1 ..< max_retries cr]\<rparr>)"
    by (simp only: fetch_chunk_def)
  obtain e where "judge_response idx start end_pos (max_retries cr) (net (max_retries cr)) = Retry e"
    using assms one judge_transient by blast
  then show ?thesis unfolding eq by (subst fetch_loop.simps) simp
qed

theorem fetch_chunk_gives_up_witness:
  "\<exists>e. fetch_chunk (\<lambda>_. replicate 32 0) (local_ops id Some (plain_backend ''r'')) \<lparr>verify_sha256 = True, chunk_retries = 0\<rparr>
      (\<lambda>_. Response 502 None) 1 0 0 3
      \<lparr>fetch_store = Map.empty, cached_chunks = Map.empty, events = [], fetched_bytes = 0, slept = []\<rparr> =
      (Inl (ChunkError e),
       \<lparr>fetch_store = Map.empty, cached_chunks = Map.empty, events = [], fetched_bytes = 0, slept = []\<rparr>)"
proof -
  let ?cr = "\<lparr>verify_sha256 = True, chunk_retries = 0\<rparr>"
  have "max_retries ?cr = 1" by (simp add: max_retries_def)
  moreover have "\<forall>j. 1 \<le> j \<and> j \<le> max_retries ?cr \<longrightarrow> transient (3 - 0 + 1) ((\<lambda>_. Response 502 None) j)"
    by (simp add: transient_def)
  ultimately show ?thesis using fetch_chunk_gives_up [of ?cr 3 0 "\<lambda>_. Response 502 None"] by simp
qed


text \<open>A store that already has every hash.\<close>

definition full_store :: "unit backend" where
  "full_store = \<lparr>b_put = (\<lambda>_ _ s. (Inr 0, s)), b_get = (\<lambda>_ _. Inl Panicked),
     b_exists = (\<lambda>_ _. Inr True), b_delete = (\<lambda>_ s. (Inr (), s))\<rparr>"

definition first_byte_dg :: "bytes \<Rightarrow> bytes" where
  "first_byte_dg x = replicate 31 0 @ [hd x]"

definition fetch_example :: "http_outcome \<Rightarrow> bytes res \<times> unit fetch_state" where
  "fetch_example out = fetch_chunk first_byte_dg full_store \<lparr>verify_sha256 = True, chunk_retries = 3\<rparr>
     (\<lambda>_. out) 1 0 1 2
     \<lparr>fetch_store = (), cached_chunks = (\<lambda>_. Some (sha256_hex first_byte_dg [6])), events = [],
      fetched_bytes = 0, slept = []\<rparr>"

lemma fetch_example_run:
  "fst (fetch_example (Response 200 (Some [5, 6, 7, 8]))) = Inr [6, 7]"
proof -
  have sha: "sha256_hex first_byte_dg [6, 7] = sha256_hex first_byte_dg [6]"
    by (simp add: sha256_hex_def first_byte_dg_def)
  have "length (sha256_hex first_byte_dg [6]) = 64" by (simp add: length_sha256_hex first_byte_dg_def)
  then show ?thesis
    unfolding fetch_example_def fetch_chunk_def
    by (subst fetch_loop.simps)
      (simp add: judge_response_def Let_def checked_slice_def slice_of_def store_chunk_def
        keep_chunk_def full_store_def stored_path_def sha)
qed


text \<open>
  A 200 response that is longer than the requested range but ends before it is over is not
  noticed: if it ends inside the range, a chunk that is too short is returned, stored and
  announced; if it ends before the range starts, the task panics. Neither is retried.
\<close>

theorem short_full_response_accepted:
  assumes "storage_laws B contents invar" "\<forall>x. length (dg x) = 32" "invar (fetch_store st)"
    and "net 1 = Response 200 (Some body)" "end_pos - start + 1 < length body" "length body \<le> end_pos"
    and "cached_chunks st idx = None" "contents (fetch_store st) (sha256_hex dg (drop start body)) = None"
  shows "(start \<le> length body \<longrightarrow> length (drop start body) < end_pos - start + 1 \<and>
      (\<exists>st'. fetch_chunk dg B cr net file_id idx start end_pos st = (Inr (drop start body), st') \<and>
         contents (fetch_store st') (sha256_hex dg (drop start body)) = Some (drop start body) \<and>
         length (events st') = length (events st) + 1)) \<and>
    (length body < start \<longrightarrow> fetch_chunk dg B cr net file_id idx start end_pos st = (Inl Panicked, st))"
proof (intro conjI impI)
  assume start: "start \<le> length body"
  then show "length (drop start body) < end_pos - start + 1" using assms(6) by simp
  let ?d = "drop start body"
  have "judge_response idx start end_pos 1 (net 1) = Got ?d"
    using assms(4-6) start by (simp add: judge_response_def Let_def checked_slice_def slice_of_def)
  then have run: "fetch_chunk dg B cr net file_id idx start end_pos st = store_chunk dg B cr file_id idx ?d st"
    unfolding fetch_chunk_def by (subst fetch_loop.simps) simp
  have key: "sha_key (sha256_hex dg ?d)" using assms(2) by (simp add: sha_key_def length_sha256_hex)
  show "\<exists>st'. fetch_chunk dg B cr net file_id idx start end_pos st = (Inr ?d, st') \<and>
      contents (fetch_store st') (sha256_hex dg ?d) = Some ?d \<and> length (events st') = length (events st) + 1"
    using storage_laws.store_chunk_ok [OF assms(1) assms(2), OF assms(3), of ?d cr idx file_id] assms(7,8) key
    unfolding run by fastforce
next
  assume "length body < start"
  then have "judge_response idx start end_pos 1 (net 1) = Fail Panicked"
    using assms(4-6) by (simp add: judge_response_def Let_def checked_slice_def)
  then show "fetch_chunk dg B cr net file_id idx start end_pos st = (Inl Panicked, st)"
    unfolding fetch_chunk_def by (subst fetch_loop.simps) simp
qed

theorem short_full_response_accepted_witness:
  "\<exists>st'. fetch_chunk first_byte_dg (local_ops id Some (plain_backend ''r'')) \<lparr>verify_sha256 = True, chunk_retries = 3\<rparr>
      (\<lambda>_. Response 200 (Some [1, 2, 3, 4])) 1 0 3 5
      \<lparr>fetch_store = Map.empty, cached_chunks = Map.empty, events = [], fetched_bytes = 0, slept = []\<rparr> = (Inr [4], st')"
proof -
  let ?st = "\<lparr>fetch_store = Map.empty, cached_chunks = Map.empty, events = [], fetched_bytes = 0, slept = []\<rparr> :: fs fetch_state"
  have inv: "local_invar Some (plain_backend ''r'') (fetch_store ?st)"
    by (simp add: local_invar_def plain_backend_def)
  have none: "local_contents Some (plain_backend ''r'') (fetch_store ?st) k = None" for k
    by (simp add: local_contents_def split: option.splits)
  show ?thesis
    using short_full_response_accepted [OF plain_local.storage_laws_axioms [of id Some "''r''"],
        where st = ?st and net = "\<lambda>_. Response 200 (Some [1, 2, 3, 4])" and dg = first_byte_dg
          and cr = "\<lparr>verify_sha256 = True, chunk_retries = 3\<rparr>" and idx = 0 and file_id = 1
          and start = 3 and end_pos = 5 and body = "[1, 2, 3, 4]"]
      inv none by (auto simp: first_byte_dg_def)
qed

end
