(* ===== verification/Fetch_Table.thy ===== *)
theory Fetch_Table
  imports Fetch
begin

text \<open>
  The properties of the table that shares downloads, and of the reading of stored chunks.
\<close>

section \<open>The invariant of the table\<close>

fun phase_key :: "'k phase \<Rightarrow> 'k option" where
  "phase_key (Fetching k) = Some k"
| "phase_key (Replying k) = Some k"
| "phase_key (Task_panicked k) = Some k"
| "phase_key Ended = None"

definition table_inv :: "('k, 'm) table \<Rightarrow> bool" where
  "table_inv t \<longleftrightarrow>
     (\<forall>k c. entries t k = Some c \<longleftrightarrow> c < length (tasks t) \<and> phase_key (tasks t ! c) = Some k) \<and>
     (\<forall>(c, inbox) \<in> set (receivers t). c < length (tasks t))"

lemma table_inv_start: "table_inv empty_table"
  by (simp add: table_inv_def empty_table_def)

lemma table_inv_advance:
  assumes "table_inv t" "c < length (tasks t)" "phase_key (tasks t ! c) = phase_key p"
  shows "table_inv (t\<lparr>tasks := (tasks t)[c := p]\<rparr>)"
  using assms by (auto simp: table_inv_def nth_list_update)

lemma table_inv_receivers:
  "table_inv t \<Longrightarrow> \<forall>(c, inbox) \<in> set rs. c < length (tasks t) \<Longrightarrow> table_inv (t\<lparr>receivers := rs\<rparr>)"
  by (simp add: table_inv_def)

lemma table_inv_entry:
  "table_inv t \<Longrightarrow> entries t k = Some c \<longleftrightarrow> c < length (tasks t) \<and> phase_key (tasks t ! c) = Some k"
  by (simp add: table_inv_def)

lemma table_inv_new:
  assumes "table_inv t" "entries t k = None"
  shows "table_inv (t\<lparr>entries := (entries t)(k \<mapsto> length (tasks t)), tasks := tasks t @ [Fetching k],
    receivers := receivers t @ [(length (tasks t), None)]\<rparr>)"
proof -
  have "phase_key (tasks t ! c) \<noteq> Some k" if "c < length (tasks t)" for c
    using table_inv_entry [OF assms(1), of k c] assms(2) that by simp
  with assms(1) show ?thesis by (auto simp: table_inv_def nth_append less_Suc_eq)
qed

lemma table_inv_remove:
  assumes "table_inv t" "c < length (tasks t)" "tasks t ! c = Replying k"
  shows "table_inv (t\<lparr>tasks := (tasks t)[c := Ended], entries := (entries t)(k := None)\<rparr>)"
proof -
  note iff = table_inv_entry [OF assms(1)]
  have k: "entries t k = Some c" using iff assms(2,3) by simp
  have "((entries t)(k := None)) k' = Some c' \<longleftrightarrow>
      c' < length (tasks t) \<and> phase_key ((tasks t)[c := Ended] ! c') = Some k'" for k' c'
  proof (cases "c' = c")
    case True
    with iff [of k' c] assms(2,3) show ?thesis by auto
  next
    case False
    with iff [of k' c'] iff [of k c'] k show ?thesis by auto
  qed
  with assms(1) show ?thesis by (simp add: table_inv_def)
qed

lemma table_inv_step:
  assumes "table_inv t" "table_step ev t = Some t'"
  shows "table_inv t'"
proof (cases ev)
  case (Subscribed k)
  show ?thesis
  proof (cases "entries t k")
    case None
    with assms Subscribed table_inv_new show ?thesis by auto
  next
    case (Some c)
    with assms(1) have "c < length (tasks t)" by (simp add: table_inv_def)
    with assms Subscribed Some show ?thesis by (auto simp: table_inv_def)
  qed
next
  case (Fetched c m)
  with assms(2) obtain k where k: "c < length (tasks t)" "tasks t ! c = Fetching k"
    and t': "t' = (t\<lparr>tasks := (tasks t)[c := Replying k]\<rparr>)
      \<lparr>receivers := map (\<lambda>(c', inbox). (c', if c' = c then Some m else inbox)) (receivers t)\<rparr>"
    by (auto split: if_splits phase.splits)
  have "table_inv (t\<lparr>tasks := (tasks t)[c := Replying k]\<rparr>)" using table_inv_advance [OF assms(1) k(1)] k(2) by simp
  then show ?thesis unfolding t' using assms(1) by (intro table_inv_receivers) (auto simp: table_inv_def)
next
  case (Removed c)
  with assms table_inv_remove [OF assms(1)] show ?thesis by (auto split: if_splits phase.splits)
next
  case (Panicking c)
  with assms table_inv_advance [OF assms(1)] show ?thesis by (auto split: if_splits phase.splits)
qed

text \<open>A receiver keeps its place and its channel, and a message once delivered stays.\<close>

lemma table_step_receivers:
  assumes "table_step ev t = Some t'" "r < length (receivers t)"
  shows "r < length (receivers t')" "fst (receivers t' ! r) = fst (receivers t ! r)"
    and "snd (receivers t ! r) \<noteq> None \<Longrightarrow> (\<forall>m. ev \<noteq> Fetched (fst (receivers t ! r)) m) \<Longrightarrow>
      snd (receivers t' ! r) = snd (receivers t ! r)"
  using assms by (cases ev; auto simp: nth_append split: option.splits if_splits phase.splits prod.splits)+

definition fetched_once :: "('k, 'm) table \<Rightarrow> bool" where
  "fetched_once t \<longleftrightarrow> (\<forall>(c, inbox) \<in> set (receivers t). inbox \<noteq> None \<longrightarrow>
     (case tasks t ! c of Fetching k \<Rightarrow> False | _ \<Rightarrow> True))"

lemma fetched_once_step:
  assumes "table_inv t" "fetched_once t" "table_step ev t = Some t'"
  shows "fetched_once t'"
  using assms
  by (cases ev)
    (fastforce simp: fetched_once_def table_inv_def nth_append nth_list_update
      split: option.splits if_splits phase.splits prod.splits)+

text \<open>Both together are an invariant of the machine.\<close>

interpretation table_states: state_invariant "by_event table_step" "\<lambda>t. table_inv t \<and> fetched_once t"
  by unfold_locales (auto simp: by_event_def intro: table_inv_step fetched_once_step)

lemma table_reachable_both: "table_reachable t \<Longrightarrow> table_inv t \<and> fetched_once t"
  by (rule table_states.inv_reach [OF _ conjI [OF table_inv_start]])
    (simp_all add: fetched_once_def empty_table_def)

lemmas table_reachable_inv = table_reachable_both [THEN conjunct1]
lemmas table_reachable_once = table_reachable_both [THEN conjunct2]

lemma no_fetch_after:
  assumes "table_inv t" "fetched_once t" "r < length (receivers t)" "receivers t ! r = (c, Some m)"
    and "table_step (Fetched c' m') t = Some t'"
  shows "c' \<noteq> c"
proof
  assume "c' = c"
  with assms(5) obtain k where "tasks t ! c = Fetching k" by (auto split: if_splits phase.splits)
  moreover have "(c, Some m) \<in> set (receivers t)" using assms(3,4) by (metis nth_mem)
  ultimately show False using assms(2) by (force simp: fetched_once_def)
qed

lemma message_stays:
  assumes "table_run t t'" "table_reachable t" "r < length (receivers t)" "receivers t ! r = (c, Some m)"
  shows "receivers t' ! r = (c, Some m)"
proof -
  have "r < length (receivers t') \<and> receivers t' ! r = (c, Some m)"
  proof (rule table_states.kept [OF assms(1) _ table_reachable_both [OF assms(2)]])
    fix u v :: "('a, 'b) table"
    assume u: "table_inv u \<and> fetched_once u" "r < length (receivers u) \<and> receivers u ! r = (c, Some m)"
      and "by_event table_step u v"
    then obtain ev where ev: "table_step ev u = Some v" by (auto simp: by_event_def)
    have "\<forall>m'. ev \<noteq> Fetched c m'" using no_fetch_after [of u r c m] u ev by blast
    with table_step_receivers [OF ev] u show "r < length (receivers v) \<and> receivers v ! r = (c, Some m)"
      by (simp add: prod_eq_iff)
  qed (use assms in auto)
  then show ?thesis ..
qed

section \<open>One download for a chunk\<close>

text \<open>
  C21: At any time there is at most one download task for a chunk: a task that has not ended is
  the one the table's entry names, and the entry names such a task.
\<close>

theorem one_download_per_chunk:
  assumes "table_reachable t"
  shows "(entries t k = Some c \<longleftrightarrow> c < length (tasks t) \<and> tasks t ! c \<noteq> Ended \<and> phase_key (tasks t ! c) = Some k) \<and>
    (c < length (tasks t) \<and> c' < length (tasks t) \<and> phase_key (tasks t ! c) = Some k \<and>
       phase_key (tasks t ! c') = Some k \<longrightarrow> c = c')"
proof -
  have *: "entries t k = Some i \<longleftrightarrow> i < length (tasks t) \<and> phase_key (tasks t ! i) = Some k" for i
    using table_reachable_inv [OF assms] by (simp add: table_inv_def)
  from * [of c] * [of c'] show ?thesis by auto
qed

definition joined_table :: "(key, nat) table" where
  "joined_table = the (table_step (Subscribed (1, 0)) (the (table_step (Subscribed (1, 0)) empty_table)))"

lemma joined_eval:
  "joined_table = \<lparr>entries = [(1, 0) \<mapsto> 0], tasks = [Fetching (1, 0)], receivers = [(0, None), (0, None)]\<rparr>"
  by (simp add: joined_table_def empty_table_def)

lemma joined_reachable: "table_reachable joined_table"
proof -
  have one: "table_step (Subscribed (1, 0)) empty_table =
      Some \<lparr>entries = [(1, 0) \<mapsto> 0], tasks = [Fetching (1, 0)], receivers = [(0, None)]\<rparr>"
    by (simp add: empty_table_def)
  have "table_run empty_table \<lparr>entries = [(1, 0) \<mapsto> 0], tasks = [Fetching (1, 0)], receivers = [(0, None)]\<rparr>"
    by (rule event_step [OF reach.run_start]) (rule one)
  then show ?thesis
    by (rule event_step [where ev = "Subscribed (1, 0)"]) (simp add: joined_eval)
qed

theorem one_download_per_chunk_witness:
  "entries joined_table (1, 0) = Some 0 \<and> tasks joined_table ! 0 \<noteq> Ended"
  using one_download_per_chunk [OF joined_reachable, of "(1, 0)" 0] by (simp add: joined_eval)



text \<open>
  The converse race: a task that subscribes between the moment the result is sent and the
  removal of the entry joins a channel on which nothing more is sent. Once the entry is removed
  its receiver reports a closed channel, although the download succeeded.
\<close>

theorem late_subscriber_sees_closed:
  assumes "table_reachable t" "entries t k = Some c" "tasks t ! c = Replying k"
    and "table_step (Subscribed k) t = Some t1" "table_step (Removed c) t1 = Some t2"
  shows "recv t1 (length (receivers t)) = Pending \<and> recv t2 (length (receivers t)) = Recv_closed"
proof -
  have c: "c < length (tasks t)" using table_reachable_inv [OF assms(1)] assms(2) by (simp add: table_inv_entry)
  have t1: "t1 = t\<lparr>receivers := receivers t @ [(c, None)]\<rparr>" using assms(2,4) by simp
  with assms(3,5) c have "t2 = t1\<lparr>tasks := (tasks t)[c := Ended], entries := (entries t)(k := None)\<rparr>" by simp
  with t1 assms(3) c show ?thesis by (simp add: recv_def channel_open_def)
qed

definition replied_table :: "(key, nat) table" where
  "replied_table = \<lparr>entries = [(1, 0) \<mapsto> 0], tasks = [Replying (1, 0)], receivers = [(0, Some 7), (0, Some 7)]\<rparr>"

lemma replied_reachable: "table_reachable replied_table"
  by (rule event_step [OF joined_reachable, of "Fetched 0 7"])
    (simp add: joined_eval replied_table_def)

theorem late_subscriber_sees_closed_witness:
  "\<exists>t1 t2. table_step (Subscribed (1, 0)) replied_table = Some t1 \<and> table_step (Removed 0) t1 = Some t2 \<and>
     recv t2 2 = Recv_closed"
proof -
  have f: "entries replied_table (1, 0) = Some 0" "tasks replied_table ! 0 = Replying (1, 0)"
    "length (receivers replied_table) = 2" by (simp_all add: replied_table_def)
  obtain t1 where t1: "table_step (Subscribed (1, 0)) replied_table = Some t1" by (simp add: replied_table_def)
  obtain t2 where t2: "table_step (Removed 0) t1 = Some t2" using t1 by (auto simp: replied_table_def)
  from late_subscriber_sees_closed [OF replied_reachable f(1,2) t1 t2] t1 t2 f(3) show ?thesis by auto
qed

text \<open>The task of channel \<open>c\<close> panicked before it sent anything.\<close>

definition stuck :: "nat \<Rightarrow> 'k \<Rightarrow> ('k, 'm) table \<Rightarrow> bool" where
  "stuck c k t \<longleftrightarrow> c < length (tasks t) \<and> tasks t ! c = Task_panicked k \<and> entries t k = Some c \<and>
     (\<forall>r < length (receivers t). fst (receivers t ! r) = c \<longrightarrow> snd (receivers t ! r) = None)"

lemma stuck_step:
  assumes "table_inv t" "stuck c k t" "table_step ev t = Some t'"
  shows "stuck c k t'"
proof (cases ev)
  case (Subscribed j)
  with assms(2,3) show ?thesis by (cases "j = k") (auto simp: stuck_def nth_append split: option.splits)
next
  case (Fetched i m)
  with assms(2,3) show ?thesis
    by (auto simp: stuck_def nth_list_update case_prod_beta split: if_splits phase.splits)
next
  case (Removed i)
  with assms(3) obtain j where j: "i < length (tasks t)" "tasks t ! i = Replying j"
    "t' = t\<lparr>tasks := (tasks t)[i := Ended], entries := (entries t)(j := None)\<rparr>"
    by (auto split: if_splits phase.splits)
  then have "entries t j = Some i" using assms(1) by (simp add: table_inv_entry)
  with assms(2) j show ?thesis by (auto simp: stuck_def nth_list_update)
next
  case (Panicking i)
  with assms(2,3) show ?thesis by (auto simp: stuck_def nth_list_update split: if_splits phase.splits)
qed

text \<open>
  A download task that panics blocks its chunk for good: the entry is never removed, no new
  download is ever started for the chunk, and every task that waits or will wait on it
  waits forever.
\<close>

theorem panicked_download_blocks:
  assumes "table_reachable t" "tasks t ! c = Fetching k" "table_step (Panicking c) t = Some t'" "table_run t' t''"
  shows "entries t'' k = Some c \<and>
    (\<forall>r < length (receivers t''). fst (receivers t'' ! r) = c \<longrightarrow> recv t'' r = Pending)"
proof -
  have c: "c < length (tasks t)" using assms(3) by (auto split: if_splits)
  have entry: "entries t k = Some c" using table_reachable_inv [OF assms(1)] c assms(2) by (simp add: table_inv_entry)
  have "snd (receivers t ! r) = None" if r: "r < length (receivers t)" "fst (receivers t ! r) = c" for r
  proof -
    have "(c, snd (receivers t ! r)) \<in> set (receivers t)" using r by (metis nth_mem prod.collapse)
    with table_reachable_once [OF assms(1)] assms(2) show ?thesis by (auto simp: fetched_once_def)
  qed
  with c entry assms(2,3) have "stuck c k t'" by (auto simp: stuck_def)
  moreover have "table_inv t' \<and> fetched_once t'"
    by (rule table_reachable_both) (rule event_step [OF assms(1,3)])
  moreover have "stuck c k v" if "table_inv u \<and> fetched_once u" "stuck c k u" "by_event table_step u v" for u v
    using that stuck_step by (auto simp: by_event_def)
  ultimately have "stuck c k t''" by (intro table_states.kept [OF assms(4), of "stuck c k"])
  then show ?thesis by (auto simp: stuck_def recv_def channel_open_def split: prod.splits)
qed

theorem panicked_download_blocks_witness:
  "\<exists>t'. table_step (Panicking 0) joined_table = Some t' \<and> entries t' (1, 0) = Some 0 \<and> recv t' 0 = Pending"
proof -
  obtain t' where t': "table_step (Panicking 0) joined_table = Some t'" by (simp add: joined_eval)
  have f: "tasks joined_table ! 0 = Fetching (1, 0)" by (simp add: joined_eval)
  have "receivers t' = [(0, None), (0, None)]" using t' by (auto simp: joined_eval)
  with panicked_download_blocks [OF joined_reachable f t' reach.run_start] t' show ?thesis by auto
qed

section \<open>Reading a stored chunk\<close>

text \<open>
  With verification on, reading a chunk from the store gives bytes only if they have the
  hash and, where one is asked for, the size; a chunk that fails the test is deleted from the
  store, and no other chunk is touched.
\<close>

theorem read_cached_chunk_verified:
  assumes "storage_laws B contents invar" "invar s" "sha_key sha" "verify_sha256 cr"
  shows "\<exists>s'. invar s' \<and>
    (case contents s sha of
       None \<Rightarrow> read_cached_chunk dg B cr sha expected s = (None, s')
     | Some raw \<Rightarrow>
         if sha256_hex dg raw = sha \<and> (expected = None \<or> expected = Some (length raw))
         then read_cached_chunk dg B cr sha expected s = (Some raw, s')
         else read_cached_chunk dg B cr sha expected s = (None, s') \<and> contents s' sha = None) \<and>
    (\<forall>j. sha_key j \<and> j \<noteq> sha \<longrightarrow> contents s' j = contents s j)"
proof -
  note laws = assms(1)
  obtain s1 where del: "b_delete B sha s = (Inr (), s1)" "invar s1"
    "\<forall>j. sha_key j \<longrightarrow> contents s1 j = ((contents s)(sha := None)) j"
    using storage_laws.delete_removes [OF laws, OF assms(2,3)] by blast
  show ?thesis
  proof (cases "contents s sha")
    case None
    with storage_laws.get_absent [OF laws, OF assms(2,3)] obtain e where "b_get B sha s = Inl e" by blast
    with None assms(2) show ?thesis by (intro exI [of _ s]) (simp add: read_cached_chunk_def)
  next
    case (Some raw)
    with storage_laws.get_found [OF laws, OF assms(2,3)] have get: "b_get B sha s = Inr raw" by blast
    show ?thesis
    proof (cases "sha256_hex dg raw = sha \<and> (expected = None \<or> expected = Some (length raw))")
      case True
      with Some get assms(2,4) show ?thesis by (intro exI [of _ s]) (auto simp: read_cached_chunk_def)
    next
      case False
      with get assms(4) del(1) have "read_cached_chunk dg B cr sha expected s = (None, s1)"
        by (auto simp: read_cached_chunk_def split: option.splits)
      with Some False del assms(3) show ?thesis by (intro exI [of _ s1]) auto
    qed
  qed
qed

theorem read_cached_chunk_verified_witness:
  "\<exists>s'. read_cached_chunk (\<lambda>_. replicate 32 0) (local_ops id Some (plain_backend ''r''))
     \<lparr>verify_sha256 = True, chunk_retries = 1\<rparr> (replicate 64 (CHR ''a'')) None Map.empty = (None, s')"
proof -
  have inv: "local_invar Some (plain_backend ''r'') Map.empty" by (simp add: local_invar_def plain_backend_def)
  have key: "sha_key (replicate 64 (CHR ''a''))" by (simp add: sha_key_def)
  have "local_contents Some (plain_backend ''r'') Map.empty k = None" for k
    by (simp add: local_contents_def split: option.splits)
  with read_cached_chunk_verified [OF plain_local.storage_laws_axioms [of id Some "''r''"], OF inv key,
      of "\<lparr>verify_sha256 = True, chunk_retries = 1\<rparr>" "\<lambda>_. replicate 32 0" None]
  show ?thesis by auto
qed

end
