(* ===== verification/Cached_Stream.thy ===== *)
theory Cached_Stream
  imports Session Fetch Gc
begin

text \<open>
  \<open>CacheService::stream_cached_file\<close> of \<open>src/service.rs\<close>: streaming a file from the store,
  with a queue of prefetching tasks. A prefetching task runs at some time between its start
  and the moment its result is awaited; \<open>early i\<close> says whether the task of the chunk at
  position \<open>i\<close> runs at once or only when it is awaited. \<open>gone i\<close> says whether the reader has
  closed the channel when piece \<open>i\<close> is sent.
\<close>

section \<open>Definitions\<close>

text \<open>The read of one chunk, the same for the direct path and for a prefetching task.\<close>

definition read_verified ::
  "(bytes \<Rightarrow> bytes) \<Rightarrow> 's backend \<Rightarrow> bool \<Rightarrow> file_chunk \<Rightarrow> 's \<Rightarrow> bytes res \<times> 's" where
  "read_verified dg B verify ft s =
     (case b_get B (fc_sha256 ft) s of
        Inl e \<Rightarrow> (Inl e, s)
      | Inr raw \<Rightarrow>
          if verify \<and> sha256_hex dg raw \<noteq> fc_sha256 ft
          then (Inl (StreamError (CachedChecksumMismatch (fc_chunk_index ft))),
                snd (b_delete B (fc_sha256 ft) s))
          else (Inr raw, s))"

text \<open>A task in the queue: its result, if it has run.\<close>

type_synonym handle = "bytes res option"

definition start_task ::
  "(bytes \<Rightarrow> bytes) \<Rightarrow> 's backend \<Rightarrow> bool \<Rightarrow> bool \<Rightarrow> file_chunk \<Rightarrow> 's \<Rightarrow> handle \<times> 's" where
  "start_task dg B verify now ft s =
     (if now then case read_verified dg B verify ft s of (r, s') \<Rightarrow> (Some r, s') else (None, s))"

definition await_task ::
  "(bytes \<Rightarrow> bytes) \<Rightarrow> 's backend \<Rightarrow> bool \<Rightarrow> file_chunk \<Rightarrow> handle \<Rightarrow> 's \<Rightarrow> bytes res \<times> 's" where
  "await_task dg B verify ft h s =
     (case h of Some r \<Rightarrow> (r, s) | None \<Rightarrow> read_verified dg B verify ft s)"

text \<open>\<open>while prefetches.len() < prefetch_depth\<close>; \<open>todo\<close> are the chunks after the current one.\<close>

function fill_prefetches ::
  "(bytes \<Rightarrow> bytes) \<Rightarrow> 's backend \<Rightarrow> bool \<Rightarrow> (nat \<Rightarrow> bool) \<Rightarrow> nat \<Rightarrow> nat \<Rightarrow> file_chunk list \<Rightarrow>
    handle list \<Rightarrow> 's \<Rightarrow> handle list \<times> 's" where
  "fill_prefetches dg B verify early depth i todo q s =
     (if length q < depth \<and> length q < length todo
      then case start_task dg B verify (early (i + length q + 1)) (todo ! length q) s of
             (h, s') \<Rightarrow> fill_prefetches dg B verify early depth i todo (q @ [h]) s'
      else (q, s))"
  by pat_completeness auto
termination
  by (relation "measure (\<lambda>(dg, B, verify, early, depth, i, todo, q, s). depth - length q)") auto

declare fill_prefetches.simps [simp del]

datatype stream_end = All_sent | Error_sent | Reader_gone | Stream_panicked

record 's stream_state =
  out :: "bytes res list"
  stream_served :: nat
  stream_store :: 's

fun stream_loop ::
  "(bytes \<Rightarrow> bytes) \<Rightarrow> 's backend \<Rightarrow> bool \<Rightarrow> (nat \<Rightarrow> bool) \<Rightarrow> (nat \<Rightarrow> bool) \<Rightarrow> nat \<Rightarrow> nat \<Rightarrow> nat \<Rightarrow>
    nat \<Rightarrow> file_chunk list \<Rightarrow> handle list \<Rightarrow> nat \<Rightarrow> 's stream_state \<Rightarrow> 's stream_state \<times> stream_end" where
  "stream_loop dg B verify early gone depth start end_pos i [] q byte_offset st = (st, All_sent)"
| "stream_loop dg B verify early gone depth start end_pos i (ft # todo) q byte_offset st =
     (case (case q of
              h # q' \<Rightarrow> (await_task dg B verify ft h (stream_store st), q')
            | [] \<Rightarrow> (read_verified dg B verify ft (stream_store st), [])) of
        ((Inl e, s1), q1) \<Rightarrow>
          (st\<lparr>stream_store := s1, out := (if gone i then out st else out st @ [Inl e])\<rparr>, Error_sent)
      | ((Inr d, s1), q1) \<Rightarrow>
          (case fill_prefetches dg B verify early depth i todo q1 s1 of
             (q2, s2) \<Rightarrow>
               case slice_for byte_offset d start end_pos of
                 None \<Rightarrow> (st\<lparr>stream_store := s2\<rparr>, Stream_panicked)
               | Some part \<Rightarrow>
                   let st2 = st\<lparr>stream_store := s2,
                                stream_served := (stream_served st + length part) mod 2 ^ 64\<rparr>
                   in if gone i then (st2, Reader_gone)
                      else stream_loop dg B verify early gone depth start end_pos (i + 1) todo q2
                             (byte_offset + length d) (st2\<lparr>out := out st2 @ [Inr part]\<rparr>)))"

text \<open>The part before the task: the file, the range and the chunks it touches.\<close>

definition stream_cached_file ::
  "string \<Rightarrow> string \<Rightarrow> nat option \<Rightarrow> nat option \<Rightarrow> db \<Rightarrow>
    (file_row \<times> nat \<times> nat \<times> nat \<times> nat \<times> file_chunk list) res" where
  "stream_cached_file name src range_start range_end d =
     res_bind (get_file_by_name name src d) (\<lambda>fo.
       case fo of
         None \<Rightarrow> Inl (StreamError (FileNotFound name))
       | Some f \<Rightarrow>
           let total_size = i64_as_u64 (f_total_size f);
               start = (case range_start of None \<Rightarrow> 0 | Some x \<Rightarrow> x);
               end_pos = min (case range_end of None \<Rightarrow> saturating_sub total_size 1 | Some x \<Rightarrow> x)
                             (saturating_sub total_size 1)
           in if start > end_pos \<or> start \<ge> total_size
              then Inl (StreamError (InvalidRange start end_pos total_size))
              else res_bind (get_file_chunks (f_id f) d) (\<lambda>fcs.
                let first_chunk = start div CHUNK_SIZE;
                    last_chunk = min (end_pos div CHUNK_SIZE) (saturating_sub (length fcs) 1)
                in case checked_slice first_chunk (last_chunk + 1) fcs of
                     None \<Rightarrow> Inl Panicked
                   | Some relevant \<Rightarrow>
                       Inr (f, end_pos - start + 1, first_chunk, start, end_pos, relevant)))"

definition stream_cached ::
  "(bytes \<Rightarrow> bytes) \<Rightarrow> 's backend \<Rightarrow> bool \<Rightarrow> (nat \<Rightarrow> bool) \<Rightarrow> (nat \<Rightarrow> bool) \<Rightarrow> nat \<Rightarrow>
    string \<Rightarrow> string \<Rightarrow> nat option \<Rightarrow> nat option \<Rightarrow> nat \<Rightarrow> db \<Rightarrow> 's \<Rightarrow>
    (file_row \<times> nat \<times> 's stream_state \<times> stream_end) res" where
  "stream_cached dg B verify early gone depth name src range_start range_end served d s =
     res_bind (stream_cached_file name src range_start range_end d)
       (\<lambda>(f, content_length, first_chunk, start, end_pos, relevant).
          case stream_loop dg B verify early gone depth start end_pos 0 relevant []
                 (first_chunk * CHUNK_SIZE) \<lparr>out = [], stream_served = served, stream_store = s\<rparr> of
            (st, fin) \<Rightarrow> Inr (f, content_length, st, fin))"

end
