(* ===== verification/Cached_Props.thy ===== *)
theory Cached_Props
  imports Cached_Stream Session_Deliver
begin

text \<open>
  The properties of streaming from the store: prefetching is invisible, the bytes are those of
  the file, nothing unverified gets out, and what a corrupted chunk does.
\<close>

section \<open>Streams of intact chunks\<close>

definition good_queue :: "bytes \<Rightarrow> nat \<Rightarrow> file_chunk list \<Rightarrow> handle list \<Rightarrow> bool" where
  "good_queue content k fts q \<longleftrightarrow>
     length q \<le> length fts \<and> (\<forall>j < length q. q ! j \<in> {None, Some (Inr (chunk_of content (k + j)))})"

context storage_laws
begin

text \<open>The chunks from position \<open>k\<close> on, as the rows \<open>fts\<close> name them, are in the store.\<close>

definition intact :: "(bytes \<Rightarrow> bytes) \<Rightarrow> bool \<Rightarrow> bytes \<Rightarrow> 's \<Rightarrow> nat \<Rightarrow> file_chunk list \<Rightarrow> bool" where
  "intact dg verify content s k fts \<longleftrightarrow>
     (\<forall>j < length fts. sha_key (fc_sha256 (fts ! j)) \<and>
        contents s (fc_sha256 (fts ! j)) = Some (chunk_of content (k + j)) \<and>
        (verify \<longrightarrow> sha256_hex dg (chunk_of content (k + j)) = fc_sha256 (fts ! j)))"

lemma read_intact:
  "invar s \<Longrightarrow> intact dg verify content s k fts \<Longrightarrow> j < length fts \<Longrightarrow>
     read_verified dg B verify (fts ! j) s = (Inr (chunk_of content (k + j)), s)"
  by (auto simp: read_verified_def intact_def get_found)

lemma fill_intact:
  assumes "invar s" "intact dg verify content s k todo" "good_queue content k todo q"
  shows "\<exists>q'. fill_prefetches dg B verify early depth i todo q s = (q', s) \<and> good_queue content k todo q'"
  using assms(3)
proof (induction "depth - length q" arbitrary: q)
  case 0
  then show ?case by (subst fill_prefetches.simps) simp
next
  case (Suc m)
  show ?case
  proof (cases "length q < length todo")
    case True
    with read_intact [OF assms(1,2)] obtain h where
      h: "start_task dg B verify (early (i + length q + 1)) (todo ! length q) s = (h, s)"
        "h \<in> {None, Some (Inr (chunk_of content (k + length q)))}"
      by (cases "early (i + length q + 1)") (auto simp: start_task_def)
    then have "good_queue content k todo (q @ [h])"
      using Suc.prems True by (auto simp: good_queue_def nth_append less_Suc_eq)
    moreover have "length q < depth" using Suc.hyps(2) by simp
    ultimately show ?thesis
      using Suc.hyps(1) [of "q @ [h]"] Suc.hyps(2) h True
      by (subst fill_prefetches.simps) simp
  next
    case False
    with Suc.prems show ?thesis by (subst fill_prefetches.simps) auto
  qed
qed

lemma stream_loop_intact:
  assumes "invar s" "intact dg verify content s k fts" "good_queue content k fts q"
    and "stream_store st = s" "start \<le> end_pos" "end_pos < length content"
    and "\<forall>j < length fts. wants start end_pos (k + j)"
  shows "\<exists>n. stream_loop dg B verify early (\<lambda>_. False) depth start end_pos i fts q (k * CHUNK_SIZE) st =
    (st\<lparr>out := out st @ map (\<lambda>j. Inr (piece content start end_pos (k + j))) [0 ..< length fts],
        stream_served := n\<rparr>, All_sent)"
  using assms
proof (induction fts arbitrary: k q st i)
  case Nil
  then show ?case by (intro exI [of _ "stream_served st"]) simp
next
  case (Cons ft fts)
  have k: "wants start end_pos k" using Cons.prems(7) by force
  then have kl: "k * CHUNK_SIZE < length content" using Cons.prems(6) by (simp add: wants_iff)
  have rest: "intact dg verify content s (Suc k) fts" using Cons.prems(2) by (fastforce simp: intact_def)
  have read: "read_verified dg B verify ft s = (Inr (chunk_of content k), s)"
    using read_intact [OF Cons.prems(1,2), of 0] by simp
  define q1 where "q1 = tl q"
  have head: "(case q of
        h # q' \<Rightarrow> (await_task dg B verify ft h (stream_store st), q')
      | [] \<Rightarrow> (read_verified dg B verify ft (stream_store st), [])) = ((Inr (chunk_of content k), s), q1)"
  proof (cases q)
    case Nil
    with read Cons.prems(4) show ?thesis by (simp add: q1_def)
  next
    case (Cons h q')
    then have "h \<in> {None, Some (Inr (chunk_of content k))}"
      using \<open>good_queue content k (ft # fts) q\<close> by (force simp: good_queue_def)
    with Cons read \<open>stream_store st = s\<close> show ?thesis by (auto simp: await_task_def q1_def)
  qed
  have "good_queue content (Suc k) fts q1"
    using Cons.prems(3) by (cases q) (fastforce simp: good_queue_def q1_def)+
  then obtain q2 where fill: "fill_prefetches dg B verify early depth i fts q1 s = (q2, s)"
    and q2: "good_queue content (Suc k) fts q2" using fill_intact [OF Cons.prems(1) rest] by blast
  let ?st = "st\<lparr>stream_store := s,
      stream_served := (stream_served st + length (piece content start end_pos k)) mod 2 ^ 64,
      out := out st @ [Inr (piece content start end_pos k)]\<rparr>"
  have step: "stream_loop dg B verify early (\<lambda>_. False) depth start end_pos i (ft # fts) q (k * CHUNK_SIZE) st =
      stream_loop dg B verify early (\<lambda>_. False) depth start end_pos (i + 1) fts q2
        (k * CHUNK_SIZE + length (chunk_of content k)) ?st"
    by (simp only: stream_loop.simps head prod.case sum.case fill option.case Let_def if_False
        slice_for_chunk [OF kl Cons.prems(5,6) k]) simp
  have "\<exists>n. stream_loop dg B verify early (\<lambda>_. False) depth start end_pos (i + 1) fts q2
        (k * CHUNK_SIZE + length (chunk_of content k)) ?st = (?st\<lparr>out := out ?st @ map (\<lambda>j. Inr (piece content start end_pos (Suc k + j))) [0 ..< length fts],
        stream_served := n\<rparr>, All_sent)"
  proof (cases fts)
    case Nil
    then show ?thesis by (intro exI [of _ "stream_served ?st"]) simp
  next
    case (Cons ft' fts')
    then have "wants start end_pos (Suc k)" using \<open>\<forall>j < length (ft # fts). wants start end_pos (k + j)\<close> by force
    then have "Suc k * CHUNK_SIZE \<le> length content" using Cons.prems(6) by (simp add: wants_iff)
    then have len: "k * CHUNK_SIZE + length (chunk_of content k) = Suc k * CHUNK_SIZE" by (simp add: chunk_of_def)
    have "\<forall>j < length fts. wants start end_pos (Suc k + j)"
      using Cons.prems(7) by (metis Suc_less_eq add_Suc_shift length_Cons)
    moreover have "stream_store ?st = s" by simp
    ultimately show ?thesis
      unfolding len using Cons.IH [OF Cons.prems(1) rest q2 _ Cons.prems(5,6), of ?st "i + 1"] by blast
  qed
  then obtain n where run: "stream_loop dg B verify early (\<lambda>_. False) depth start end_pos i (ft # fts) q
      (k * CHUNK_SIZE) st = (?st\<lparr>out := out ?st @ map (\<lambda>j. Inr (piece content start end_pos (Suc k + j)))
        [0 ..< length fts], stream_served := n\<rparr>, All_sent)" unfolding step by blast
  have "[0 ..< length (ft # fts)] = 0 # map Suc [0 ..< length fts]"
    by (simp add: map_Suc_upt upt_conv_Cons del: upt_Suc)
  then show ?case
    unfolding run using Cons.prems(4) by (intro exI [of _ n]) (simp add: comp_def del: upt_Suc)
qed

end

section \<open>Streaming a complete file\<close>

definition rows_of :: "int \<Rightarrow> db \<Rightarrow> file_chunk list" where
  "rows_of i d = sort_key fc_chunk_index (filter (\<lambda>r. fc_file_id r = i) (file_chunks d))"

text \<open>The first byte asked for, and the last, cut to the file.\<close>

definition first_byte :: "nat option \<Rightarrow> nat" where
  "first_byte rs = (case rs of None \<Rightarrow> 0 | Some x \<Rightarrow> x)"

definition last_byte :: "nat \<Rightarrow> nat option \<Rightarrow> nat" where
  "last_byte n re = min (case re of None \<Rightarrow> n - 1 | Some x \<Rightarrow> x) (n - 1)"

lemma stream_cached_file_eq:
  assumes "\<not> poisoned d" "lookup_file name src d = Some f" "f_total_size f = int n" "n < 2 ^ 63"
    and "length (rows_of (f_id f) d) = div_ceil n CHUNK_SIZE"
    and "first_byte rs \<le> last_byte n re" "first_byte rs < n"
  shows "stream_cached_file name src rs re d =
    Inr (f, last_byte n re - first_byte rs + 1, first_byte rs div CHUNK_SIZE, first_byte rs, last_byte n re,
      slice_of (first_byte rs div CHUNK_SIZE) (last_byte n re div CHUNK_SIZE + 1) (rows_of (f_id f) d))"
proof -
  let ?s = "first_byte rs" and ?e = "last_byte n re" and ?rows = "rows_of (f_id f) d"
  have size: "i64_as_u64 (f_total_size f) = n" using assms(3,4) by (simp add: i64_as_u64_nonneg)
  have "?e < n" using assms(7) by (simp add: last_byte_def)
  then have "?e div CHUNK_SIZE < length ?rows" unfolding assms(5) by (rule div_ceil_index_less [OF CHUNK_SIZE_pos])
  then have last: "min (?e div CHUNK_SIZE) (length ?rows - 1) = ?e div CHUNK_SIZE"
    and in_rows: "?e div CHUNK_SIZE + 1 \<le> length ?rows" by auto
  have "?s div CHUNK_SIZE \<le> ?e div CHUNK_SIZE + 1" using assms(6) by (simp add: div_le_mono le_SucI)
  with in_rows have cut: "checked_slice (?s div CHUNK_SIZE) (?e div CHUNK_SIZE + 1) ?rows =
      Some (slice_of (?s div CHUNK_SIZE) (?e div CHUNK_SIZE + 1) ?rows)" by (simp add: checked_slice_def)
  have ok: "\<not> (?s > ?e \<or> ?s \<ge> n)" using assms(6,7) by simp
  have e: "min (case re of None \<Rightarrow> saturating_sub n 1 | Some x \<Rightarrow> x) (saturating_sub n 1) = ?e"
    by (cases re) (simp_all add: last_byte_def saturating_sub_def)
  have s: "(case rs of None \<Rightarrow> 0 | Some x \<Rightarrow> x) = ?s" by (simp add: first_byte_def)
  have rows: "get_file_chunks (f_id f) d = Inr ?rows"
    using assms(1) by (simp add: get_file_chunks_def with_conn_def rows_of_def)
  have look: "get_file_by_name name src d = Inr (Some f)"
    using assms(1,2) by (simp add: get_file_by_name_def with_conn_def)
  have sub: "saturating_sub (length ?rows) 1 = length ?rows - 1" by (simp add: saturating_sub_def)
  show ?thesis
    unfolding stream_cached_file_def look res_bind.simps option.case Let_def size e s
    by (simp only: ok if_False rows res_bind.simps sub last cut option.case)
qed

context storage_laws
begin

lemma stream_cached_intact:
  assumes "invar s" "\<not> poisoned d" "lookup_file name src d = Some f" "f_total_size f = int (length content)"
    and "length content < 2 ^ 63" "length (rows_of (f_id f) d) = div_ceil (length content) CHUNK_SIZE"
    and "first_byte rs \<le> last_byte (length content) re" "first_byte rs < length content"
    and "intact dg verify content s 0 (rows_of (f_id f) d)"
  shows "\<exists>st ps. stream_cached dg B verify early (\<lambda>_. False) depth name src rs re served d s =
      Inr (f, last_byte (length content) re - first_byte rs + 1, st, All_sent) \<and>
    out st = map Inr ps \<and> concat ps = slice_of (first_byte rs) (Suc (last_byte (length content) re)) content \<and>
    stream_store st = s"
proof -
  let ?s = "first_byte rs" and ?e = "last_byte (length content) re" and ?rows = "rows_of (f_id f) d"
  let ?fst = "?s div CHUNK_SIZE" and ?lst = "?e div CHUNK_SIZE"
  let ?rel = "slice_of ?fst (?lst + 1) ?rows"
  let ?st = "\<lparr>out = [], stream_served = served, stream_store = s\<rparr>"
  note pre = stream_cached_file_eq [OF assms(2-8)]
  have e: "?e < length content" using assms(8) by (simp add: last_byte_def)
  have le: "?fst \<le> ?lst" using assms(7) by (rule div_le_mono)
  have "?lst < length ?rows" unfolding assms(6) using e by (rule div_ceil_index_less [OF CHUNK_SIZE_pos])
  then have len: "length ?rel = ?lst + 1 - ?fst" by simp
  have nth: "?rel ! j = ?rows ! (?fst + j)" if "j < length ?rel" for j
    using that len by (simp add: slice_of_def)
  have intact: "intact dg verify content s ?fst ?rel"
    using assms(9) len nth \<open>?lst < length ?rows\<close> by (auto simp: intact_def)
  have w: "\<forall>j < length ?rel. wants ?s ?e (?fst + j)" using len le by (auto simp: wants_def)
  obtain n where run: "stream_loop dg B verify early (\<lambda>_. False) depth ?s ?e 0 ?rel [] (?fst * CHUNK_SIZE) ?st =
      (?st\<lparr>out := out ?st @ map (\<lambda>j. Inr (piece content ?s ?e (?fst + j))) [0 ..< length ?rel],
        stream_served := n\<rparr>, All_sent)"
    using stream_loop_intact [OF assms(1) intact, of "[]" ?st] assms(7) e w by (fastforce simp: good_queue_def)
  let ?ps = "map (piece content ?s ?e) [?fst ..< Suc ?lst]"
  have shift: "map (\<lambda>j. Inr (piece content ?s ?e (?fst + j))) [0 ..< length ?rel] = map Inr ?ps"
    unfolding len using le by (intro nth_equalityI) (simp_all del: upt_Suc)
  have "stream_cached dg B verify early (\<lambda>_. False) depth name src rs re served d s =
      Inr (f, ?e - ?s + 1, ?st\<lparr>out := map Inr ?ps, stream_served := n\<rparr>, All_sent)"
    by (simp only: stream_cached_def pre res_bind.simps prod.case run shift) simp
  moreover have "concat ?ps = slice_of ?s (Suc ?e) content" by (rule concat_pieces [OF assms(7)])
  ultimately show ?thesis
    by (intro exI [of _ "?st\<lparr>out := map Inr ?ps, stream_served := n\<rparr>"] exI [of _ ?ps]) (simp del: upt_Suc)
qed

end

text \<open>
  C5: A file whose rows are the hashes of its chunks, all of them in the store, is streamed
  exactly: for every valid range, the pieces are the requested bytes in order, their number is
  the announced content length, and the store is unchanged. The prefetch depth, and the moments
  at which the prefetching tasks run, make no difference.
\<close>

theorem cached_stream_is_the_file:
  assumes "storage_laws B contents invar" "invar s" "\<not> poisoned d" "lookup_file name src d = Some f"
    and "f_total_size f = int (length content)" "length content < 2 ^ 63"
    and "length (rows_of (f_id f) d) = div_ceil (length content) CHUNK_SIZE"
    and "\<forall>i < length (rows_of (f_id f) d). sha_key (fc_sha256 (rows_of (f_id f) d ! i)) \<and>
      contents s (fc_sha256 (rows_of (f_id f) d ! i)) = Some (chunk_of content i) \<and>
      (verify \<longrightarrow> sha256_hex dg (chunk_of content i) = fc_sha256 (rows_of (f_id f) d ! i))"
    and "first_byte rs \<le> last_byte (length content) re" "first_byte rs < length content"
  shows "\<exists>st ps len. stream_cached dg B verify early (\<lambda>_. False) depth name src rs re served d s = Inr (f, len, st, All_sent) \<and>
    out st = map Inr ps \<and> stream_store st = s \<and> length (concat ps) = len \<and>
    concat ps = slice_of (first_byte rs) (Suc (last_byte (length content) re)) content"
proof -
  have "storage_laws.intact contents dg verify content s 0 (rows_of (f_id f) d)"
    unfolding storage_laws.intact_def [OF assms(1)] using assms(8) by simp
  from storage_laws.stream_cached_intact [OF assms(1), OF assms(2-7) assms(9,10) this] obtain st ps where
    "stream_cached dg B verify early (\<lambda>_. False) depth name src rs re served d s =
      Inr (f, last_byte (length content) re - first_byte rs + 1, st, All_sent)"
    "out st = map Inr ps" "stream_store st = s"
    "concat ps = slice_of (first_byte rs) (Suc (last_byte (length content) re)) content" by blast
  moreover have "last_byte (length content) re < length content" using assms(10) by (simp add: last_byte_def)
  ultimately show ?thesis using assms(9) by auto
qed

definition zero_dg :: "bytes \<Rightarrow> bytes" where
  "zero_dg _ = replicate 32 0"

definition cached_db :: db where
  "cached_db = \<lparr>files = [tiny_file], chunks = [],
     file_chunks = [\<lparr>fc_file_id = 1, fc_sha256 = sha256_hex zero_dg [7, 8, 9], fc_chunk_index = 0, fc_chunk_size = 3\<rparr>],
     last_file_id = 1, poisoned = False\<rparr>"

definition cached_fs :: fs where
  "cached_fs = [local_path (plain_backend ''r'') (sha256_hex zero_dg [7, 8, 9]) \<mapsto> [7, 8, 9]]"

lemma cached_facts:
  "local_invar Some (plain_backend ''r'') cached_fs" "sha_key (sha256_hex zero_dg x)"
  "local_contents Some (plain_backend ''r'') cached_fs (sha256_hex zero_dg x) = Some [7, 8, 9]"
  "rows_of 1 cached_db = [\<lparr>fc_file_id = 1, fc_sha256 = sha256_hex zero_dg [7, 8, 9], fc_chunk_index = 0, fc_chunk_size = 3\<rparr>]"
  "lookup_file ''o/r/a'' ''hf'' cached_db = Some tiny_file" "\<not> poisoned cached_db"
proof -
  show k: "sha_key (sha256_hex zero_dg x)" for x
    by (simp add: sha_key_def length_sha256_hex zero_dg_def)
  have eq: "sha256_hex zero_dg x = sha256_hex zero_dg [7, 8, 9]" by (simp add: sha256_hex_def zero_dg_def)
  show "local_contents Some (plain_backend ''r'') cached_fs (sha256_hex zero_dg x) = Some [7, 8, 9]"
    unfolding eq using local_paths [OF k, of "plain_backend ''r''"]
    by (simp add: local_contents_def cached_fs_def plain_backend_def)
qed (simp_all add: local_invar_def plain_backend_def rows_of_def cached_db_def lookup_file_def tiny_file_def)

theorem cached_stream_is_the_file_witness:
  "\<exists>st ps. stream_cached zero_dg (local_ops id Some (plain_backend ''r'')) True (\<lambda>_. True) (\<lambda>_. False) 2
      ''o/r/a'' ''hf'' (Some 1) None 0 cached_db cached_fs = Inr (tiny_file, 2, st, All_sent) \<and>
     out st = map Inr ps \<and> concat ps = [8, 9]"
proof -
  have ch: "chunk_of [7, 8, 9] 0 = [7, 8, 9 :: byte]" by (simp add: chunk_of_def slice_of_def CHUNK_SIZE_def)
  have size: "f_total_size tiny_file = int (length [7, 8, 9 :: byte])" "f_id tiny_file = 1"
    by (simp_all add: tiny_file_def)
  have sl: "slice_of 1 (Suc 2) [7, 8, 9] = [8, 9 :: byte]" by (simp add: slice_of_def)
  have row: "\<forall>i < length (rows_of (f_id tiny_file) cached_db).
      sha_key (fc_sha256 (rows_of (f_id tiny_file) cached_db ! i)) \<and>
      local_contents Some (plain_backend ''r'') cached_fs (fc_sha256 (rows_of (f_id tiny_file) cached_db ! i)) =
        Some (chunk_of [7, 8, 9] i) \<and>
      (True \<longrightarrow> sha256_hex zero_dg (chunk_of [7, 8, 9] i) = fc_sha256 (rows_of (f_id tiny_file) cached_db ! i))"
    unfolding size cached_facts(4) using cached_facts(2,3) ch by simp
  have len: "length (rows_of (f_id tiny_file) cached_db) = div_ceil (length [7, 8, 9 :: byte]) CHUNK_SIZE"
    unfolding size cached_facts(4) by simp
  have bytes: "first_byte (Some 1) = 1" "last_byte (length [7, 8, 9 :: byte]) None = 2"
    by (simp_all add: first_byte_def last_byte_def)
  obtain st ps n where run: "stream_cached zero_dg (local_ops id Some (plain_backend ''r'')) True (\<lambda>_. True) (\<lambda>_. False) 2
      ''o/r/a'' ''hf'' (Some 1) None 0 cached_db cached_fs = Inr (tiny_file, n, st, All_sent)"
    "out st = map Inr ps" "length (concat ps) = n" "concat ps = [8, 9]"
    using cached_stream_is_the_file [OF plain_local.storage_laws_axioms [of id Some "''r''"],
        OF cached_facts(1,6,5) size(1) _ len row, of "Some 1" None "\<lambda>_. True" 2 0, unfolded bytes sl] by auto
  from run(3,4) have "n = 2" by simp
  with run show ?thesis by metis
qed

section \<open>Integrity\<close>

text \<open>A result carries only bytes that have the hash its row names.\<close>

definition vetted :: "(bytes \<Rightarrow> bytes) \<Rightarrow> file_chunk \<Rightarrow> bytes res \<Rightarrow> bool" where
  "vetted dg ft r \<longleftrightarrow> (case r of Inl e \<Rightarrow> True | Inr d \<Rightarrow> sha256_hex dg d = fc_sha256 ft)"

definition vetted_queue :: "(bytes \<Rightarrow> bytes) \<Rightarrow> file_chunk list \<Rightarrow> handle list \<Rightarrow> bool" where
  "vetted_queue dg fts q \<longleftrightarrow>
     length q \<le> length fts \<and> (\<forall>j < length q. case q ! j of None \<Rightarrow> True | Some r \<Rightarrow> vetted dg (fts ! j) r)"

lemma vetted_read: "vetted dg ft (fst (read_verified dg B True ft s))"
  by (simp add: vetted_def read_verified_def split: sum.split)

lemma vetted_await:
  "(case h of None \<Rightarrow> True | Some r \<Rightarrow> vetted dg ft r) \<Longrightarrow> vetted dg ft (fst (await_task dg B True ft h s))"
  by (cases h) (simp_all add: await_task_def vetted_read)

lemma vetted_fill:
  "vetted_queue dg todo q \<Longrightarrow> vetted_queue dg todo (fst (fill_prefetches dg B True early depth i todo q s))"
proof (induction "depth - length q" arbitrary: q s)
  case 0
  then show ?case by (subst fill_prefetches.simps) simp
next
  case (Suc m)
  obtain h s' where h: "start_task dg B True (early (i + length q + 1)) (todo ! length q) s = (h, s')" by fastforce
  have "case h of None \<Rightarrow> True | Some r \<Rightarrow> vetted dg (todo ! length q) r"
    using h vetted_read [of dg "todo ! length q" B s] by (auto simp: start_task_def split: if_splits prod.splits)
  then have "length q < length todo \<Longrightarrow> vetted_queue dg todo (q @ [h])"
    using Suc.prems by (auto simp: vetted_queue_def nth_append less_Suc_eq)
  moreover have "m = depth - length (q @ [h])" using Suc.hyps(2) by simp
  ultimately show ?case
    using Suc.hyps(1) [of "q @ [h]" s'] Suc.prems h by (subst fill_prefetches.simps) simp
qed

definition vetted_piece :: "(bytes \<Rightarrow> bytes) \<Rightarrow> file_chunk \<Rightarrow> bytes res \<Rightarrow> bool" where
  "vetted_piece dg ft r \<longleftrightarrow>
     (case r of Inl e \<Rightarrow> True | Inr p \<Rightarrow> \<exists>d a b. sha256_hex dg d = fc_sha256 ft \<and> p = slice_of a b d)"

lemma slice_forD: "slice_for b d s e = Some p \<Longrightarrow> \<exists>x y. p = slice_of x y d"
  unfolding slice_for_def Let_def checked_slice_Some_iff by blast

text \<open>What the head of the queue gives, or a read when the queue is empty, and the rest of it.\<close>

lemma vetted_first:
  assumes "vetted_queue dg (ft # fts) q"
    and "(case q of h # q' \<Rightarrow> (await_task dg B True ft h s, q') | [] \<Rightarrow> (read_verified dg B True ft s, [])) = ((r, s1), q1)"
  shows "vetted dg ft r" "vetted_queue dg fts q1"
proof -
  have "vetted dg ft r \<and> vetted_queue dg fts q1"
  proof (cases q)
    case Nil
    with assms(2) vetted_read [of dg ft B s] show ?thesis by (auto simp: vetted_queue_def)
  next
    case (Cons h q')
    have all: "length (h # q') \<le> length (ft # fts)" "\<forall>j < length (h # q'). case (h # q') ! j of None \<Rightarrow> True
        | Some r \<Rightarrow> vetted dg ((ft # fts) ! j) r"
      using assms(1) unfolding vetted_queue_def Cons by blast+
    then have "case h of None \<Rightarrow> True | Some r \<Rightarrow> vetted dg ft r" by (auto elim!: allE [of _ 0] split: option.splits)
    from vetted_await [OF this, of B s] have "vetted dg ft r" using assms(2) Cons by simp
    moreover have "vetted dg (fts ! j) x" if "j < length q'" "q' ! j = Some x" for j x
      using spec [OF all(2), of "Suc j"] that by simp
    ultimately show ?thesis using all(1) assms(2) Cons by (auto simp: vetted_queue_def split: option.split)
  qed
  then show "vetted dg ft r" "vetted_queue dg fts q1" by simp_all
qed

lemma vetted_loop:
  assumes "vetted_queue dg fts q"
  shows "\<exists>rs. out (fst (stream_loop dg B True early gone depth start end_pos i fts q off st)) = out st @ rs \<and>
    length rs \<le> length fts \<and> (\<forall>j < length rs. vetted_piece dg (fts ! j) (rs ! j))"
  using assms
proof (induction fts arbitrary: q i off st)
  case (Cons ft fts)
  define first where "first = (case q of
        h # q' \<Rightarrow> (await_task dg B True ft h (stream_store st), q')
      | [] \<Rightarrow> (read_verified dg B True ft (stream_store st), []))"
  obtain r s1 q1 where f: "first = ((r, s1), q1)" by (metis prod.exhaust)
  note r = vetted_first(1) [OF Cons.prems f [unfolded first_def]]
    and q1 = vetted_first(2) [OF Cons.prems f [unfolded first_def]]
  show ?case
  proof (cases r)
    case (Inl e)
    with f have "fst (stream_loop dg B True early gone depth start end_pos i (ft # fts) q off st) =
        st\<lparr>stream_store := s1, out := (if gone i then out st else out st @ [Inl e])\<rparr>"
      unfolding stream_loop.simps first_def [symmetric] by simp
    then show ?thesis
      by (cases "gone i") (auto simp: vetted_piece_def intro: exI [of _ "[]"] exI [of _ "[Inl e]"])
  next
    case (Inr d)
    obtain q2 s2 where fill: "fill_prefetches dg B True early depth i fts q1 s1 = (q2, s2)" by fastforce
    with vetted_fill [OF q1, of B early depth i s1] have q2: "vetted_queue dg fts q2" by simp
    show ?thesis
    proof (cases "slice_for off d start end_pos")
      case None
      with Inr f fill have "fst (stream_loop dg B True early gone depth start end_pos i (ft # fts) q off st) =
          st\<lparr>stream_store := s2\<rparr>" unfolding stream_loop.simps first_def [symmetric] by simp
      then show ?thesis by (intro exI [of _ "[]"]) simp
    next
      case (Some p)
      let ?st = "st\<lparr>stream_store := s2, stream_served := (stream_served st + length p) mod 2 ^ 64\<rparr>"
      have p: "vetted_piece dg ft (Inr p)"
        using slice_forD [OF Some] r Inr by (auto simp: vetted_piece_def vetted_def)
      have run: "fst (stream_loop dg B True early gone depth start end_pos i (ft # fts) q off st) =
          (if gone i then ?st else fst (stream_loop dg B True early gone depth start end_pos (i + 1) fts q2
             (off + length d) (?st\<lparr>out := out ?st @ [Inr p]\<rparr>)))"
        using Some Inr f fill unfolding stream_loop.simps first_def [symmetric] by (simp add: Let_def)
      show ?thesis
      proof (cases "gone i")
        case True
        then show ?thesis unfolding run by (intro exI [of _ "[]"]) simp
      next
        case False
        from Cons.IH [OF q2, of "i + 1" "off + length d" "?st\<lparr>out := out ?st @ [Inr p]\<rparr>"] obtain rs where
          "out (fst (stream_loop dg B True early gone depth start end_pos (i + 1) fts q2 (off + length d)
             (?st\<lparr>out := out ?st @ [Inr p]\<rparr>))) = (out st @ [Inr p]) @ rs" "length rs \<le> length fts"
          "\<forall>j < length rs. vetted_piece dg (fts ! j) (rs ! j)" by auto
        with False p show ?thesis
          unfolding run by (intro exI [of _ "Inr p # rs"]) (auto simp: nth_Cons split: nat.split)
      qed
    qed
  qed
qed simp

text \<open>
  C26: With verification on, whatever the store holds and whatever the timing, each piece that
  is sent is cut out of bytes whose hash is the one recorded for that position of the file.
\<close>

theorem cached_stream_integrity:
  assumes "stream_cached_file name src rs re d = Inr (f, len, k, start, end_pos, relevant)"
    and "stream_cached dg B True early gone depth name src rs re served d s = Inr (f', len', st, fin)"
  shows "length (out st) \<le> length relevant \<and>
    (\<forall>j < length (out st). \<forall>p. out st ! j = Inr p \<longrightarrow>
       (\<exists>x a b. sha256_hex dg x = fc_sha256 (relevant ! j) \<and> p = slice_of a b x))"
proof -
  let ?run = "stream_loop dg B True early gone depth start end_pos 0 relevant [] (k * CHUNK_SIZE)
    \<lparr>out = [], stream_served = served, stream_store = s\<rparr>"
  have st: "st = fst ?run" using assms by (auto simp: stream_cached_def split: prod.splits)
  have "vetted_queue dg relevant []" by (simp add: vetted_queue_def)
  from vetted_loop [OF this, of B early gone depth start end_pos 0 "k * CHUNK_SIZE"
      "\<lparr>out = [], stream_served = served, stream_store = s\<rparr>"] obtain rs' where
    "out st = rs'" "length rs' \<le> length relevant" "\<forall>j < length rs'. vetted_piece dg (relevant ! j) (rs' ! j)"
    unfolding st by auto
  then show ?thesis by (auto simp: vetted_piece_def split: sum.splits)
qed

text \<open>
  A stored chunk that does not have its hash is fatal for its file. A stream that starts at
  it sends one error and deletes the chunk, and every later stream from there sends one
  error too; but the file still counts as complete, because completeness looks only at the
  recorded sizes.
\<close>

theorem corrupt_chunk_is_permanent:
  assumes "storage_laws B contents invar" "invar s" "get_complete_file name src d = Inr (Some f)"
    and "stream_cached_file name src rs re d = Inr (f, len, k, start, end_pos, ft # todo)"
    and "sha_key (fc_sha256 ft)" "contents s (fc_sha256 ft) = Some raw" "sha256_hex dg raw \<noteq> fc_sha256 ft"
    and "\<not> gone 0"
  shows "\<exists>st. stream_cached dg B True early gone depth name src rs re served d s = Inr (f, len, st, Error_sent) \<and>
    out st = [Inl (StreamError (CachedChecksumMismatch (fc_chunk_index ft)))] \<and>
    contents (stream_store st) (fc_sha256 ft) = None \<and>
    (\<exists>e st'. stream_cached dg B True early gone depth name src rs re served d (stream_store st) =
       Inr (f, len, st', Error_sent) \<and> out st' = [Inl e]) \<and>
    is_file_complete name src d = Inr True"
proof -
  obtain s1 where del: "b_delete B (fc_sha256 ft) s = (Inr (), s1)" "invar s1" "contents s1 (fc_sha256 ft) = None"
    using storage_laws.delete_removes [OF assms(1), OF assms(2,5)] assms(5) by force
  have "b_get B (fc_sha256 ft) s = Inr raw" using storage_laws.get_found [OF assms(1), OF assms(2,5,6)] .
  then have r1: "read_verified dg B True ft s =
      (Inl (StreamError (CachedChecksumMismatch (fc_chunk_index ft))), s1)"
    using assms(7) del(1) by (simp add: read_verified_def)
  obtain e where "b_get B (fc_sha256 ft) s1 = Inl e"
    using storage_laws.get_absent [OF assms(1), OF del(2) assms(5) del(3)] by blast
  then have r2: "read_verified dg B True ft s1 = (Inl e, s1)" by (simp add: read_verified_def)
  have one: "stream_cached dg B True early gone depth name src rs re served d s0 =
      Inr (f, len, \<lparr>out = [Inl e0], stream_served = served, stream_store = s1\<rparr>, Error_sent)"
    if "read_verified dg B True ft s0 = (Inl e0, s1)" for s0 e0
    using assms(4,8) that by (simp add: stream_cached_def)
  show ?thesis
    using one [OF r1] one [OF r2] del(3) assms(3) by (auto simp: is_file_complete_def)
qed

definition corrupt_fs :: fs where
  "corrupt_fs = [local_path (plain_backend ''r'') (sha256_hex zero_dg [7, 8, 9]) \<mapsto> [7, 8]]"

definition length_dg :: "bytes \<Rightarrow> bytes" where
  "length_dg x = replicate 31 0 @ [of_nat (length x) - 3]"

lemma length_dg_facts:
  "sha256_hex length_dg [7, 8, 9] = sha256_hex zero_dg [7, 8, 9]"
  "sha256_hex length_dg [7, 8] \<noteq> sha256_hex zero_dg [7, 8, 9]"
proof -
  show "sha256_hex length_dg [7, 8, 9] = sha256_hex zero_dg [7, 8, 9]"
    by (simp add: sha256_hex_def length_dg_def zero_dg_def numeral_eq_Suc)
  then show "sha256_hex length_dg [7, 8] \<noteq> sha256_hex zero_dg [7, 8, 9]"
    using sha256_hex_inj [of length_dg "[7, 8]" "[7, 8, 9]"] by (auto simp: length_dg_def)
qed

lemma cached_selection:
  "stream_cached_file ''o/r/a'' ''hf'' None None cached_db =
     Inr (tiny_file, 3, 0, 0, 2, rows_of 1 cached_db)"
proof -
  have "f_total_size tiny_file = int 3" "f_id tiny_file = 1" by (simp_all add: tiny_file_def)
  moreover have "first_byte None = 0" "last_byte 3 None = 2" by (simp_all add: first_byte_def last_byte_def)
  moreover have "0 div CHUNK_SIZE = 0" "2 div CHUNK_SIZE = 0" by (simp_all add: CHUNK_SIZE_def)
  moreover have "slice_of 0 1 (rows_of 1 cached_db) = rows_of 1 cached_db"
    by (simp add: cached_facts(4) slice_of_def)
  moreover have "length (rows_of 1 cached_db) = div_ceil 3 CHUNK_SIZE"
    by (simp add: cached_facts(4) numeral_3_eq_3)
  ultimately show ?thesis
    using stream_cached_file_eq [OF cached_facts(6,5), of 3 None None] by simp
qed

theorem corrupt_chunk_is_permanent_witness:
  "\<exists>st. stream_cached length_dg (local_ops id Some (plain_backend ''r'')) True (\<lambda>_. True) (\<lambda>_. False) 2
      ''o/r/a'' ''hf'' None None 0 cached_db corrupt_fs = Inr (tiny_file, 3, st, Error_sent) \<and>
     out st = [Inl (StreamError (CachedChecksumMismatch 0))] \<and>
     is_file_complete ''o/r/a'' ''hf'' cached_db = Inr True"
proof -
  let ?sha = "sha256_hex zero_dg [7, 8, 9]"
  have complete: "get_complete_file ''o/r/a'' ''hf'' cached_db = Inr (Some tiny_file)"
    using cached_facts(5,6)
    by (simp add: get_complete_file_def get_file_by_name_def with_conn_def get_file_downloaded_size_def
        downloaded_size_def cached_db_def tiny_file_def)
  have inv: "local_invar Some (plain_backend ''r'') corrupt_fs" by (simp add: local_invar_def plain_backend_def)
  have c: "local_contents Some (plain_backend ''r'') corrupt_fs ?sha = Some [7, 8]"
    using local_paths [OF cached_facts(2), of "plain_backend ''r''" "[7, 8, 9]"]
    by (simp add: local_contents_def corrupt_fs_def plain_backend_def)
  from corrupt_chunk_is_permanent [OF plain_local.storage_laws_axioms [of id Some "''r''"],
      OF inv complete cached_selection [unfolded cached_facts(4)], of "[7, 8]" length_dg "\<lambda>_. False" "\<lambda>_. True" 2 0]
  show ?thesis using c length_dg_facts(2) cached_facts(2) by auto
qed

theorem cached_stream_integrity_witness:
  "\<exists>f len st fin. stream_cached length_dg (local_ops id Some (plain_backend ''r'')) True (\<lambda>_. True) (\<lambda>_. False) 2
      ''o/r/a'' ''hf'' None None 0 cached_db corrupt_fs = Inr (f, len, st, fin) \<and> length (out st) \<le> 1"
proof -
  obtain f len st fin where run: "stream_cached length_dg (local_ops id Some (plain_backend ''r'')) True (\<lambda>_. True)
      (\<lambda>_. False) 2 ''o/r/a'' ''hf'' None None 0 cached_db corrupt_fs = Inr (f, len, st, fin)"
    by (cases "stream_loop length_dg (local_ops id Some (plain_backend ''r'')) True (\<lambda>_. True) (\<lambda>_. False) 2 0 2 0
        (rows_of 1 cached_db) [] 0 \<lparr>out = [], stream_served = 0, stream_store = corrupt_fs\<rparr>")
      (simp add: stream_cached_def cached_selection)
  from cached_stream_integrity [OF cached_selection run] run show ?thesis
    by (auto simp: cached_facts(4))
qed

end
