(* ===== verification/Upstream.thy ===== *)
theory Upstream
  imports Session Gc
begin

text \<open>
  The part of \<open>CacheService\<close> (\<open>src/service.rs\<close>) that talks to the hubs about a file: the
  metadata probe, the comparison of entity tags, the reconciliation of what a probe found with
  the database, and what leads from there to a file session; and \<open>resolve_redirect\<close> of
  \<open>src/server.rs\<close>, which the probe uses.

  The two HTTP clients are the parameter \<open>net\<close>: what the request numbered \<open>n\<close> is answered, as a
  function of the client, the method, the URL and the request headers, or \<open>None\<close> if it
  cannot be sent. Response headers are a list in which names are lower case.
\<close>

section \<open>Requests\<close>

datatype client_kind = Http_client | Head_client

datatype http_method = GET | HEAD | POST

record http_response =
  status :: nat
  resp_headers :: headers
  resp_body :: "bytes option"

type_synonym network = "nat \<Rightarrow> client_kind \<Rightarrow> http_method \<Rightarrow> string \<Rightarrow> headers \<Rightarrow> http_response option"

definition is_success :: "nat \<Rightarrow> bool" where
  "is_success s = (200 \<le> s \<and> s < 300)"

definition is_redirection :: "nat \<Rightarrow> bool" where
  "is_redirection s = (300 \<le> s \<and> s < 400)"

definition ua_headers :: "string option \<Rightarrow> headers" where
  "ua_headers ua = (case ua of None \<Rightarrow> [] | Some v \<Rightarrow> [(''User-Agent'', v)])"

definition use_get_for_first_hop_probe :: "string \<Rightarrow> string \<Rightarrow> bool" where
  "use_get_for_first_hop_probe source url =
     (source = ''ms'' \<and> contains url ''/api/v1/models/'' \<and> contains url ''/repo?'')"

definition resolve_redirect :: "string \<Rightarrow> string \<Rightarrow> string" where
  "resolve_redirect base_url location =
     (if location = [] then base_url
      else if contains location ''://'' then location
      else if starts_with location ''/''
      then (case find_str base_url ''://'' of
              Some pos \<Rightarrow>
                (case find_str (drop (pos + 3) base_url) ''/'' of
                   Some p \<Rightarrow> take (pos + 3 + p) base_url @ location
                 | None \<Rightarrow> base_url @ location)
            | None \<Rightarrow> base_url @ location)
      else (let base_dir =
                  (case rfind_char (CHR ''/'') base_url of
                     Some pos \<Rightarrow>
                       if pos > (case find_str base_url ''://'' of None \<Rightarrow> 0 | Some p \<Rightarrow> p + 3)
                       then take pos base_url else base_url
                   | None \<Rightarrow> base_url)
            in base_dir @ ''/'' @ location))"

section \<open>Entity tags\<close>

record etag_validation_outcome =
  matched :: bool
  eo_content_type :: "string option"

definition normalize_etag :: "string \<Rightarrow> string" where
  "normalize_etag etag = trim_matches (CHR 34) (trim_weak (trim etag))"

definition etags_equivalent :: "string option \<Rightarrow> string option \<Rightarrow> bool" where
  "etags_equivalent lhs rhs =
     (case (lhs, rhs) of
        (Some l, Some r) \<Rightarrow> normalize_etag l = normalize_etag r
      | (None, None) \<Rightarrow> True
      | _ \<Rightarrow> False)"

section \<open>The probe\<close>

record fetched_metadata =
  fm_size :: nat
  fm_etag :: "string option"
  fm_content_type :: "string option"
  fm_x_repo_commit :: "string option"
  fm_x_linked_size :: "int option"
  fm_x_linked_etag :: "string option"

datatype metadata_probe_result =
    Metadata_found fetched_metadata
  | Upstream_failure nat headers

text \<open>Size, tag and content type as one response gives them; an unreadable length is 0.\<close>

definition entity_headers :: "headers \<Rightarrow> nat \<times> string option \<times> string option" where
  "entity_headers h =
     ((case Option.bind (header_str h ''content-length'') parse_u64 of None \<Rightarrow> 0 | Some n \<Rightarrow> n),
      header_str h ''etag'', header_str h ''content-type'')"

definition probe_file_metadata ::
  "network \<Rightarrow> nat \<Rightarrow> string \<Rightarrow> string \<Rightarrow> string option \<Rightarrow> metadata_probe_result res" where
  "probe_file_metadata net n url source ua =
     (case net n Head_client (if use_get_for_first_hop_probe source url then GET else HEAD) url (ua_headers ua) of
        None \<Rightarrow> Inl (UpstreamError SendFailed)
      | Some r \<Rightarrow>
          let h = resp_headers r; st = status r
          in if \<not> is_success st \<and> \<not> is_redirection st
             then Inr (Upstream_failure st (forwardable_headers h))
             else let x_linked_size = Option.bind (header_str h ''x-linked-size'') parse_i64
                  in res_bind
                       (if is_redirection st
                        then let location = resolve_redirect url
                                   (case header_str h ''location'' of None \<Rightarrow> [] | Some l \<Rightarrow> l)
                             in case net (n + 1) Http_client HEAD location (ua_headers ua) of
                                  None \<Rightarrow> Inl (UpstreamError (RedirectFollowFailed url))
                                | Some r2 \<Rightarrow> Inr (entity_headers (resp_headers r2))
                        else Inr (entity_headers h))
                       (\<lambda>(upstream_size, etag, content_type).
                          let sz = (if upstream_size > 0 then upstream_size
                                    else i64_as_u64 (case x_linked_size of None \<Rightarrow> 0 | Some i \<Rightarrow> i))
                          in if sz = 0 then Inl (UpstreamError (SizeUnknown url))
                             else Inr (Metadata_found
                               \<lparr>fm_size = sz, fm_etag = etag, fm_content_type = content_type,
                                fm_x_repo_commit = header_str h ''x-repo-commit'',
                                fm_x_linked_size = x_linked_size,
                                fm_x_linked_etag = header_str h ''x-linked-etag''\<rparr>)))"

definition fetch_file_metadata ::
  "network \<Rightarrow> nat \<Rightarrow> string \<Rightarrow> string \<Rightarrow> string option \<Rightarrow> fetched_metadata res" where
  "fetch_file_metadata net n url source ua =
     res_bind (probe_file_metadata net n url source ua) (\<lambda>p.
       case p of
         Metadata_found m \<Rightarrow> Inr m
       | Upstream_failure st _ \<Rightarrow> Inl (UpstreamError (UpstreamReturned st)))"

text \<open>\<open>timed_out\<close>: the timeout of the validation fired before the probe was through.\<close>

definition validate_file_etag ::
  "network \<Rightarrow> bool \<Rightarrow> nat \<Rightarrow> string \<Rightarrow> string \<Rightarrow> string option \<Rightarrow> string \<Rightarrow> etag_validation_outcome res" where
  "validate_file_etag net timed_out n url source ua cached_etag =
     (if timed_out then Inl (UpstreamError EtagValidationTimeout)
      else res_bind (fetch_file_metadata net n url source ua) (\<lambda>m.
        Inr \<lparr>matched = (case fm_etag m of Some ue \<Rightarrow> ue = cached_etag | None \<Rightarrow> True),
             eo_content_type = fm_content_type m\<rparr>))"

section \<open>Reconciliation\<close>

definition should_delete :: "file_row option \<Rightarrow> string option \<Rightarrow> bool" where
  "should_delete existing etag =
     (case existing of
        None \<Rightarrow> False
      | Some f \<Rightarrow> f_etag f = None \<or> etag = None \<or> \<not> etags_equivalent (f_etag f) etag)"

text \<open>The statements of \<open>reconcile_fetched_metadata\<close>, each leaving the function on an error.\<close>

definition and_then :: "'a res \<times> db \<Rightarrow> ('a \<Rightarrow> db \<Rightarrow> 'b res \<times> db) \<Rightarrow> 'b res \<times> db" where
  "and_then p f = (case p of (Inl e, d) \<Rightarrow> (Inl e, d) | (Inr x, d) \<Rightarrow> f x d)"

definition reconcile_fetched_metadata ::
  "string \<Rightarrow> string \<Rightarrow> string \<Rightarrow> string \<Rightarrow> fetched_metadata \<Rightarrow> db \<Rightarrow> unit res \<times> db" where
  "reconcile_fetched_metadata now name repo source m d =
     and_then (get_file_by_name name source d, d) (\<lambda>existing d.
       and_then (if should_delete existing (fm_etag m)
                 then and_then (delete_file now name source d) (\<lambda>_ d. (Inr (), d)) else (Inr (), d)) (\<lambda>_ d.
         and_then (get_file_by_name name source d, d) (\<lambda>again d.
           and_then (if again = None
                     then and_then (add_file now name repo (u64_as_i64 (fm_size m)) source d) (\<lambda>_ d. (Inr (), d))
                     else (Inr (), d)) (\<lambda>_ d.
             and_then (set_file_headers name source (fm_etag m) (fm_x_repo_commit m)
                         (fm_x_linked_size m) (fm_x_linked_etag m) (fm_content_type m) d) (\<lambda>_ d.
               touch_repo now repo d)))))"

definition reconcile_file_metadata ::
  "string \<Rightarrow> network \<Rightarrow> nat \<Rightarrow> string \<Rightarrow> string \<Rightarrow> string \<Rightarrow> string \<Rightarrow> string option \<Rightarrow> db \<Rightarrow>
    unit res \<times> db" where
  "reconcile_file_metadata now net n url name repo source ua d =
     (case fetch_file_metadata net n url source ua of
        Inl e \<Rightarrow> (Inl e, d)
      | Inr m \<Rightarrow> reconcile_fetched_metadata now name repo source m d)"

section \<open>From a file to its session\<close>

text \<open>The state that requests share, apart from what is private to an actor.\<close>

record 's world =
  w_db :: db
  w_store :: 's
  w_sessions :: sessions

record service_config =
  sc_max_size :: "nat option"
  sc_prefetch_budget_base :: nat

definition cached_chunks_of :: "file_chunk list \<Rightarrow> nat \<rightharpoonup> string" where
  "cached_chunks_of fcs = map_of (rev (map (\<lambda>fc. (i64_as_u64 (fc_chunk_index fc), fc_sha256 fc)) fcs))"

definition cached_count :: "file_chunk list \<Rightarrow> nat" where
  "cached_count fcs = length (remdups (map (\<lambda>fc. i64_as_u64 (fc_chunk_index fc)) fcs))"

text \<open>
  \<open>stream_http_file\<close>. \<open>gone\<close> says which actors of the map have stopped, \<open>stopped\<close> whether the
  chosen one has when the message is sent; \<open>chan\<close> is the new channel. The result holds the
  message for the actor, and the actor with its map of cached chunks if it is new.
\<close>

type_synonym stream_start =
  "file_row \<times> nat \<times> session_message \<times> (actor \<times> (nat \<rightharpoonup> string)) option"

definition stream_http_file ::
  "'s backend \<Rightarrow> string \<Rightarrow> service_config \<Rightarrow> (int \<Rightarrow> bool) \<Rightarrow> bool \<Rightarrow> nat \<Rightarrow> string \<Rightarrow> file_row \<Rightarrow>
    nat option \<Rightarrow> nat option \<Rightarrow> string option \<Rightarrow> 's world \<Rightarrow> stream_start res \<times> 's world" where
  "stream_http_file B now cfg gone stopped chan url fl range_start range_end ua w =
     (case get_file_chunks (f_id fl) (w_db w) of
        Inl e \<Rightarrow> (Inl e, w)
      | Inr fcs \<Rightarrow>
          let total_size = i64_as_u64 (f_total_size fl);
              cached = cached_chunks_of fcs;
              expected = div_ceil total_size CHUNK_SIZE
          in case (case sc_max_size cfg of
                     Some limit \<Rightarrow>
                       if cached_count fcs < expected then evict_if_needed B now limit (w_db w, w_store w)
                       else (Inr (), (w_db w, w_store w))
                   | None \<Rightarrow> (Inr (), (w_db w, w_store w))) of
               (Inl e, (d, s)) \<Rightarrow> (Inl e, w\<lparr>w_db := d, w_store := s\<rparr>)
             | (Inr _, (d, s)) \<Rightarrow>
                 (case get_or_create gone (f_id fl) (f_name fl) url total_size
                         (sc_prefetch_budget_base cfg) ua fl (w_sessions w) of
                    (h, new, m) \<Rightarrow>
                      (res_bind (handle_subscribe stopped h chan
                                   (Some ((case range_start of None \<Rightarrow> 0 | Some x \<Rightarrow> x), range_end)))
                         (\<lambda>(f, n, msg). Inr (f, n, msg, map_option (\<lambda>a. (a, cached)) new)),
                       w\<lparr>w_db := d, w_store := s, w_sessions := m\<rparr>)))"

definition stream_from_upstream_with_metadata ::
  "'s backend \<Rightarrow> string \<Rightarrow> service_config \<Rightarrow> (int \<Rightarrow> bool) \<Rightarrow> bool \<Rightarrow> nat \<Rightarrow> string \<Rightarrow> string \<Rightarrow> string \<Rightarrow>
    string \<Rightarrow> fetched_metadata \<Rightarrow> nat option \<Rightarrow> nat option \<Rightarrow> string option \<Rightarrow> 's world \<Rightarrow>
    stream_start res \<times> 's world" where
  "stream_from_upstream_with_metadata B now cfg gone stopped chan url name repo source m range_start range_end ua w =
     (case reconcile_fetched_metadata now name repo source m (w_db w) of
        (Inl e, d) \<Rightarrow> (Inl e, w\<lparr>w_db := d\<rparr>)
      | (Inr _, d) \<Rightarrow>
          (case get_file_by_name name source d of
             Inl e \<Rightarrow> (Inl e, w\<lparr>w_db := d\<rparr>)
           | Inr None \<Rightarrow> (Inl (StreamError FileDisappeared), w\<lparr>w_db := d\<rparr>)
           | Inr (Some f) \<Rightarrow>
               stream_http_file B now cfg gone stopped chan url f range_start range_end ua (w\<lparr>w_db := d\<rparr>)))"

definition stream_from_upstream ::
  "'s backend \<Rightarrow> string \<Rightarrow> service_config \<Rightarrow> (int \<Rightarrow> bool) \<Rightarrow> bool \<Rightarrow> nat \<Rightarrow> network \<Rightarrow> nat \<Rightarrow> string \<Rightarrow>
    string \<Rightarrow> string \<Rightarrow> string \<Rightarrow> nat option \<Rightarrow> nat option \<Rightarrow> string option \<Rightarrow> 's world \<Rightarrow>
    stream_start res \<times> 's world" where
  "stream_from_upstream B now cfg gone stopped chan net n url name repo source range_start range_end ua w =
     (case fetch_file_metadata net n url source ua of
        Inl e \<Rightarrow> (Inl e, w)
      | Inr m \<Rightarrow>
          stream_from_upstream_with_metadata B now cfg gone stopped chan url name repo source m
            range_start range_end ua w)"

section \<open>Backfilling headers at startup\<close>

definition nth_or_empty :: "string list \<Rightarrow> nat \<Rightarrow> string" where
  "nth_or_empty parts i = (if i < length parts then parts ! i else [])"

definition split_repo_path :: "string \<Rightarrow> string \<times> string" where
  "split_repo_path file_name =
     (let parts = splitn 3 (CHR ''/'') file_name;
          org = nth_or_empty parts 0; repo = nth_or_empty parts 1; rest = nth_or_empty parts 2
      in (if rest = [] then file_name else take (length org + 1 + length repo) file_name, rest))"

definition backfill_url :: "string \<Rightarrow> string \<Rightarrow> file_row \<Rightarrow> string \<Rightarrow> string" where
  "backfill_url hf_endpoint ms_endpoint f commit =
     (case split_repo_path (f_name f) of (repo, filepath) \<Rightarrow>
        if f_source f = ''ms''
        then ms_endpoint @ ''/api/v1/models/'' @ repo @ ''/repo?Revision='' @ commit @ ''&FilePath='' @ filepath
        else hf_endpoint @ ''/'' @ repo @ ''/resolve/'' @ commit @ ''/'' @ filepath)"

text \<open>The loop; what a successful probe found is dropped, only the count goes up.\<close>

fun backfill_loop ::
  "network \<Rightarrow> (nat \<Rightarrow> bool) \<Rightarrow> nat \<Rightarrow> string \<Rightarrow> string \<Rightarrow> file_row list \<Rightarrow> nat \<Rightarrow> nat" where
  "backfill_loop net timed_out n hf ms [] fixed = fixed"
| "backfill_loop net timed_out n hf ms (f # fs) fixed =
     (case f_x_repo_commit f of
        None \<Rightarrow> backfill_loop net timed_out (n + 2) hf ms fs fixed
      | Some commit \<Rightarrow>
          backfill_loop net timed_out (n + 2) hf ms fs
            (if timed_out n then fixed
             else case fetch_file_metadata net n (backfill_url hf ms f commit) (f_source f) None of
                    Inl _ \<Rightarrow> fixed
                  | Inr _ \<Rightarrow> fixed + 1))"

definition backfill_missing_headers ::
  "network \<Rightarrow> (nat \<Rightarrow> bool) \<Rightarrow> string \<Rightarrow> string \<Rightarrow> db \<Rightarrow> nat res \<times> db" where
  "backfill_missing_headers net timed_out hf ms d =
     (case list_files_with_missing_headers d of
        Inl e \<Rightarrow> (Inl e, d)
      | Inr fs \<Rightarrow> (Inr (if fs = [] then 0 else backfill_loop net timed_out 0 hf ms fs 0), d))"

end
