(* ===== verification/Upstream_Props.thy ===== *)
theory Upstream_Props
  imports Upstream Gc_Props Metadata_Props Fetch
begin

text \<open>
  The properties of the dealings with the hubs: what the reconciliation of a probe leaves in
  the database, how redirects and entity tags are read, and what eviction can do to the file
  that is being streamed.
\<close>

section \<open>Entity tags and redirects\<close>

lemma etags_equivalent_equivp:
  "etags_equivalent a a" "etags_equivalent a b = etags_equivalent b a"
  "etags_equivalent a b \<Longrightarrow> etags_equivalent b c \<Longrightarrow> etags_equivalent a c"
  by (auto simp: etags_equivalent_def split: option.splits)

lemma find_str_scheme:
  "CHR '':'' \<notin> set scheme \<Longrightarrow> find_str (scheme @ ''://'' @ r) ''://'' = Some (length scheme)"
  by (induction scheme) (auto simp: starts_with_def)

lemma find_slash: "CHR ''/'' \<notin> set host \<Longrightarrow> find_str (host @ CHR ''/'' # r) ''/'' = Some (length host)"
  by (induction host) (auto simp: starts_with_def)

lemma find_no_slash: "CHR ''/'' \<notin> set host \<Longrightarrow> find_str host ''/'' = None"
  by (induction host) (auto simp: starts_with_def)

lemma drop_scheme: "drop (length scheme + 3) (scheme @ ''://'' @ r) = r"
  by simp

lemma rfind_char_append: "CHR ''/'' \<notin> set b \<Longrightarrow> rfind_char (CHR ''/'') (a @ CHR ''/'' # b) = Some (length a)"
proof (induction a)
  case Nil
  have "rfind_char (CHR ''/'') b = None" using Nil by (induction b) auto
  then show ?case by simp
qed simp

text \<open>
  A redirect target is resolved against a URL of a host as a browser does: an absolute
  location is taken as it is, one that starts with a slash replaces the path, any other replaces
  the last component of the path.
\<close>

theorem resolve_redirect_cases:
  assumes "CHR '':'' \<notin> set scheme" "CHR ''/'' \<notin> set host" "CHR ''/'' \<notin> set name" "location \<noteq> []"
    and "dir = [] \<or> hd dir = CHR ''/''" "host \<noteq> []"
  shows "(contains location ''://'' \<longrightarrow> resolve_redirect base location = location) \<and>
    (\<not> contains location ''://'' \<and> hd location = CHR ''/'' \<longrightarrow>
       resolve_redirect (scheme @ ''://'' @ host @ CHR ''/'' # path) location = scheme @ ''://'' @ host @ location) \<and>
    (\<not> contains location ''://'' \<and> hd location \<noteq> CHR ''/'' \<longrightarrow>
       resolve_redirect (scheme @ ''://'' @ host @ dir @ CHR ''/'' # name) location =
         scheme @ ''://'' @ host @ dir @ CHR ''/'' # location)"
proof (intro conjI impI)
  assume "contains location ''://''"
  then show "resolve_redirect base location = location" using assms(4) by (simp add: resolve_redirect_def)
next
  assume l: "\<not> contains location ''://'' \<and> hd location = CHR ''/''"
  then have "starts_with location ''/''" using assms(4) by (cases location) (simp_all add: starts_with_def)
  with l show "resolve_redirect (scheme @ ''://'' @ host @ CHR ''/'' # path) location = scheme @ ''://'' @ host @ location"
    using assms(4) find_str_scheme [OF assms(1), of "host @ CHR ''/'' # path"] find_slash [OF assms(2), of path]
      drop_scheme [of scheme "host @ CHR ''/'' # path"]
    by (simp add: resolve_redirect_def numeral_3_eq_3)
next
  assume l: "\<not> contains location ''://'' \<and> hd location \<noteq> CHR ''/''"
  then have "\<not> starts_with location ''/''" using assms(4) by (cases location) (simp_all add: starts_with_def)
  moreover have "rfind_char (CHR ''/'') (scheme @ ''://'' @ host @ dir @ CHR ''/'' # name) =
      Some (length (scheme @ ''://'' @ host @ dir))"
    using rfind_char_append [OF assms(3), of "scheme @ ''://'' @ host @ dir"] by simp
  moreover have "0 < length host" using assms(6) by simp
  ultimately show "resolve_redirect (scheme @ ''://'' @ host @ dir @ CHR ''/'' # name) location =
      scheme @ ''://'' @ host @ dir @ CHR ''/'' # location"
    using l assms(4) find_str_scheme [OF assms(1), of "host @ dir @ CHR ''/'' # name"]
    by (simp add: resolve_redirect_def Let_def numeral_3_eq_3)
qed

theorem resolve_redirect_cases_witness:
  "resolve_redirect ''https://h.co/a/b'' ''/x'' = ''https://h.co/x'' \<and>
   resolve_redirect ''https://h.co/a/b'' ''x'' = ''https://h.co/a/x''"
proof -
  have n: "\<not> contains ''/x'' ''://''" "\<not> contains ''x'' ''://''" by (simp_all add: contains_def starts_with_def)
  show ?thesis
    using resolve_redirect_cases [of "''https''" "''h.co''" "''b''" "''/x''" "''/a''" "[]" "''a/b''"]
      resolve_redirect_cases [of "''https''" "''h.co''" "''b''" "''x''" "''/a''" "[]" "''a/b''"] n
    by simp
qed

section \<open>Reconciliation\<close>

lemma find_append: "find P (xs @ ys) = (case find P xs of None \<Rightarrow> find P ys | Some x \<Rightarrow> Some x)"
  by (induction xs) auto

lemma and_then_simps [simp]:
  "and_then (Inr x, d) f = f x d" "and_then (Inl e, d) f = (Inl e, d)"
  by (simp_all add: and_then_def)

lemma lookup_update_files:
  assumes "\<And>f. f_name (g f) = f_name f" "\<And>f. f_source (g f) = f_source f"
  shows "lookup_file name src (update_files P g d) =
    map_option (\<lambda>f. if P f then g f else f) (lookup_file name src d)"
proof -
  have "find (\<lambda>f. f_name f = name \<and> f_source f = src) (map (\<lambda>f. if P f then g f else f) xs) =
      map_option (\<lambda>f. if P f then g f else f) (find (\<lambda>f. f_name f = name \<and> f_source f = src) xs)" for xs
    using assms by (induction xs) auto
  then show ?thesis by (simp add: lookup_file_def update_files_def)
qed

definition with_headers :: "fetched_metadata \<Rightarrow> file_row \<Rightarrow> file_row" where
  "with_headers m f = f\<lparr>f_etag := fm_etag m, f_x_repo_commit := fm_x_repo_commit m,
     f_x_linked_size := fm_x_linked_size m, f_x_linked_etag := fm_x_linked_etag m,
     f_content_type := fm_content_type m\<rparr>"

definition touched :: "string \<Rightarrow> string \<Rightarrow> file_row \<Rightarrow> file_row" where
  "touched now repo f = (if f_repo f = repo then f\<lparr>f_last_accessed := now\<rparr> else f)"

text \<open>The last two statements, on a database that has the file.\<close>

lemma finish_reconcile:
  assumes "\<not> poisoned d" "lookup_file name src d = Some f"
  shows "\<exists>d'. and_then (set_file_headers name src (fm_etag m) (fm_x_repo_commit m) (fm_x_linked_size m)
      (fm_x_linked_etag m) (fm_content_type m) d) (\<lambda>_ d. touch_repo now repo d) = (Inr (), d') \<and>
    lookup_file name src d' = Some (touched now repo (with_headers m f)) \<and> file_chunks d' = file_chunks d"
proof -
  have f: "f_name f = name" "f_source f = src" using assms(2) by (auto simp: lookup_file_def find_Some_iff)
  let ?P = "\<lambda>f. f_name f = name \<and> f_source f = src"
  let ?g = "\<lambda>f. f\<lparr>f_etag := fm_etag m, f_x_repo_commit := fm_x_repo_commit m,
    f_x_linked_size := fm_x_linked_size m, f_x_linked_etag := fm_x_linked_etag m, f_content_type := fm_content_type m\<rparr>"
  let ?d1 = "update_files ?P ?g d"
  let ?d2 = "update_files (\<lambda>f. f_repo f = repo) (\<lambda>f. f\<lparr>f_last_accessed := now\<rparr>) ?d1"
  have "lookup_file name src ?d1 = Some (with_headers m f)"
    using lookup_update_files [of ?g name src ?P d] assms(2) f by (simp add: with_headers_def)
  then have "lookup_file name src ?d2 = Some (touched now repo (with_headers m f))"
    using lookup_update_files [of "\<lambda>f. f\<lparr>f_last_accessed := now\<rparr>" name src "\<lambda>f. f_repo f = repo" ?d1]
    by (simp add: touched_def)
  with assms(1) show ?thesis by (simp add: set_file_headers_def touch_repo_def)
qed

lemma reconcile_inv_upstream:
  "db_inv d \<Longrightarrow> db_inv (snd (reconcile_fetched_metadata now name repo src m d))"
proof -
  have and_then_inv: "db_inv (snd p) \<Longrightarrow> (\<And>x d. db_inv d \<Longrightarrow> db_inv (snd (f x d))) \<Longrightarrow> db_inv (snd (and_then p f))"
    for p :: "'x res \<times> db" and f :: "'x \<Rightarrow> db \<Rightarrow> 'y res \<times> db"
    by (cases p) (auto simp: and_then_def split: sum.split)
  assume "db_inv d"
  then show ?thesis
    unfolding reconcile_fetched_metadata_def
    by (intro and_then_inv) (simp_all add: and_then_inv delete_file_inv add_file_inv set_file_headers_inv touch_repo_inv)
qed

lemma lookup_after_delete:
  assumes "db_inv d" "\<not> poisoned d"
  shows "lookup_file name src (snd (delete_file now name src d)) = None"
proof (cases "lookup_file name src d")
  case None
  with assms(2) show ?thesis by (simp add: delete_file_def)
next
  case (Some f)
  then have f: "f \<in> set (files d)" "f_name f = name" "f_source f = src"
    by (auto simp: lookup_file_def find_Some_iff)
  from delete_file_row [OF assms f(1), of now] f(2,3) have
    "files (snd (delete_file now name src d)) = filter (\<lambda>g. g \<noteq> f) (files d)" by simp
  moreover have "g = f" if "g \<in> set (files d)" "f_name g = name" "f_source g = src" for g
  proof -
    have "inj_on (\<lambda>f. (f_name f, f_source f)) (set (files d))"
      using assms(1) by (simp add: db_inv_def db_wf_def distinct_map)
    with that f show ?thesis by (auto dest: inj_onD)
  qed
  ultimately show ?thesis by (auto simp: lookup_file_def find_None_iff)
qed

lemma fresh_id_unlinked: "db_inv d \<Longrightarrow> downloaded_size (last_file_id d + 1) d = 0"
proof -
  assume inv: "db_inv d"
  have "fc_file_id r \<noteq> last_file_id d + 1" if r: "r \<in> set (file_chunks d)" for r
  proof -
    have "fk_ok (fc_file_id r) (fc_sha256 r) d" using inv r by (simp add: db_inv_def db_wf_def)
    then obtain f where "f \<in> set (files d)" "f_id f = fc_file_id r" by (auto simp: fk_ok_def)
    then show ?thesis using inv by (auto simp: db_inv_def db_wf_def)
  qed
  then have "filter (\<lambda>r. fc_file_id r = last_file_id d + 1) (file_chunks d) = []" by (simp add: filter_empty_conv)
  then show ?thesis by (simp add: downloaded_size_def)
qed

lemma and_then_Inr: "and_then p f = (Inr x, d') \<Longrightarrow> \<exists>y d. p = (Inr y, d) \<and> f y d = (Inr x, d')"
  by (cases p) (auto simp: and_then_def split: sum.splits)

lemma reconcile_keeps_open:
  "reconcile_fetched_metadata now name repo src m d = (Inr (), d') \<Longrightarrow> \<not> poisoned d'"
  unfolding reconcile_fetched_metadata_def
  by (auto dest!: and_then_Inr simp: touch_repo_def with_conn_mut_def update_files_def split: if_splits)

lemma reconcile_ok:
  assumes "db_inv d" "\<not> poisoned d"
  shows "\<exists>d' f. reconcile_fetched_metadata now name repo src m d = (Inr (), d') \<and> db_inv d' \<and>
    lookup_file name src d' = Some f \<and> f_etag f = fm_etag m \<and> f_content_type f = fm_content_type m \<and>
    f_x_repo_commit f = fm_x_repo_commit m \<and>
    (case lookup_file name src d of
       Some f0 \<Rightarrow>
         if f_etag f0 \<noteq> None \<and> fm_etag m \<noteq> None \<and> etags_equivalent (f_etag f0) (fm_etag m)
         then f_id f = f_id f0 \<and> f_total_size f = f_total_size f0 \<and> file_chunks d' = file_chunks d
         else f_id f = last_file_id d + 1 \<and> f_total_size f = u64_as_i64 (fm_size m) \<and>
           downloaded_size (f_id f) d' = 0
     | None \<Rightarrow> f_id f = last_file_id d + 1 \<and> f_total_size f = u64_as_i64 (fm_size m) \<and>
         downloaded_size (f_id f) d' = 0)"
proof -
  let ?old = "lookup_file name src d"
  let ?del = "should_delete ?old (fm_etag m)"
  let ?d1 = "if ?del then snd (delete_file now name src d) else d"
  have d1: "\<not> poisoned ?d1" "last_file_id ?d1 = last_file_id d" "db_inv ?d1"
    using assms by (auto simp: delete_file_def delete_tx_sel delete_tx_inv split: option.split)
  have del: "(if ?del then and_then (delete_file now name src d) (\<lambda>_ d. (Inr (), d)) else (Inr (), d)) = (Inr (), ?d1)"
    using assms(2) by (auto simp: delete_file_def split: option.splits)
  note inv = reconcile_inv_upstream [OF assms(1), of now name repo src m]
  have kept: "should_delete (Some f0) e \<longleftrightarrow> \<not> (f_etag f0 \<noteq> None \<and> e \<noteq> None \<and> etags_equivalent (f_etag f0) e)" for f0 e
    by (auto simp: should_delete_def)
  show ?thesis
  proof (cases "?old = None \<or> ?del")
    case True
    then have gone: "lookup_file name src ?d1 = None"
      using lookup_after_delete [OF assms] by (auto simp: should_delete_def)
    let ?row = "\<lparr>f_id = last_file_id d + 1, f_name = name, f_repo = repo, f_total_size = u64_as_i64 (fm_size m),
      f_created_at = now, f_last_accessed = now, f_source = src, f_etag = None, f_x_repo_commit = None,
      f_x_linked_size = None, f_x_linked_etag = None, f_content_type = None\<rparr>"
    let ?d2 = "?d1\<lparr>files := files ?d1 @ [?row], last_file_id := last_file_id d + 1\<rparr>"
    have add: "snd (add_file now name repo (u64_as_i64 (fm_size m)) src ?d1) = ?d2"
      "is_ok (fst (add_file now name repo (u64_as_i64 (fm_size m)) src ?d1))"
      using gone d1(1,2) by (auto simp: add_file_def Let_def lookup_file_def find_None_iff is_ok_def)
    then have added: "and_then (add_file now name repo (u64_as_i64 (fm_size m)) src ?d1) (\<lambda>_ d. (Inr (), d)) = (Inr (), ?d2)"
      by (cases "add_file now name repo (u64_as_i64 (fm_size m)) src ?d1") (auto simp: and_then_def is_ok_def split: sum.splits)
    have d2: "\<not> poisoned ?d2" "lookup_file name src ?d2 = Some ?row"
      using d1(1) gone by (simp_all add: lookup_file_def find_append)
    have run: "reconcile_fetched_metadata now name repo src m d =
      and_then (set_file_headers name src (fm_etag m) (fm_x_repo_commit m) (fm_x_linked_size m)
        (fm_x_linked_etag m) (fm_content_type m) ?d2) (\<lambda>_ d. touch_repo now repo d)"
      unfolding reconcile_fetched_metadata_def get_file_by_name_def with_conn_open [OF assms(2)] and_then_simps del
        with_conn_open [OF d1(1)] gone added by (simp only: simp_thms if_True added and_then_simps)
    have "downloaded_size (last_file_id d + 1) ?d1 = 0" using fresh_id_unlinked [OF d1(3)] d1(2) by simp
    then have "downloaded_size (last_file_id d + 1) d' = 0" if "file_chunks d' = file_chunks ?d2" for d'
      using that by (simp add: downloaded_size_def)
    with finish_reconcile [OF d2, of m now repo] inv True kept show ?thesis
      unfolding run by (fastforce simp: touched_def with_headers_def should_delete_def split: option.splits)
  next
    case False
    then obtain f0 where f0: "?old = Some f0" and nd: "\<not> ?del" by auto
    have "reconcile_fetched_metadata now name repo src m d =
      and_then (set_file_headers name src (fm_etag m) (fm_x_repo_commit m) (fm_x_linked_size m)
        (fm_x_linked_etag m) (fm_content_type m) d) (\<lambda>_ d. touch_repo now repo d)"
      using f0 nd assms(2) by (simp add: reconcile_fetched_metadata_def get_file_by_name_def)
    with finish_reconcile [OF assms(2) f0, of m now repo] inv f0 nd kept show ?thesis
      by (force simp: touched_def with_headers_def)
  qed
qed


definition probed :: fetched_metadata where
  "probed = \<lparr>fm_size = 12, fm_etag = Some ''e'', fm_content_type = None, fm_x_repo_commit = Some ''c'',
     fm_x_linked_size = None, fm_x_linked_etag = None\<rparr>"


section \<open>The probe\<close>

lemma forwardable_no_te: "(k, v) \<in> set (forwardable_headers hs) \<Longrightarrow> k \<noteq> ''transfer-encoding''"
  by (auto simp: forwardable_headers_def)

text \<open>
  A probe whose request is answered reports either a failure status, with the headers to
  forward and no transfer encoding among them, or metadata of a positive size: the commit and
  the linked size and tag of the first answer, and the size, tag and content type of the
  answer itself or, when it is a redirect, of the place it leads to.
\<close>

theorem probe_result:
  assumes "probe_file_metadata net n url source ua = Inr p"
  shows "\<exists>r. net n Head_client (if use_get_for_first_hop_probe source url then GET else HEAD) url (ua_headers ua) = Some r \<and>
    (case p of
       Upstream_failure st hs \<Rightarrow> st = status r \<and> (st < 200 \<or> 400 \<le> st) \<and> ''transfer-encoding'' \<notin> fst ` set hs
     | Metadata_found m \<Rightarrow>
         0 < fm_size m \<and> 200 \<le> status r \<and> status r < 400 \<and>
         fm_x_repo_commit m = header_str (resp_headers r) ''x-repo-commit'' \<and>
         (\<exists>r'. (if status r < 300 then r' = r
               else net (n + 1) Http_client HEAD
                 (resolve_redirect url (case header_str (resp_headers r) ''location'' of None \<Rightarrow> [] | Some l \<Rightarrow> l))
                 (ua_headers ua) = Some r') \<and>
            fm_etag m = header_str (resp_headers r') ''etag'' \<and>
            fm_content_type m = header_str (resp_headers r') ''content-type''))"
proof (cases "net n Head_client (if use_get_for_first_hop_probe source url then GET else HEAD) url (ua_headers ua)")
  case None
  with assms show ?thesis by (simp add: probe_file_metadata_def)
next
  case (Some r)
  show ?thesis
  proof (cases "\<not> is_success (status r) \<and> \<not> is_redirection (status r)")
    case True
    with Some assms have p: "p = Upstream_failure (status r) (forwardable_headers (resp_headers r))"
      by (simp add: probe_file_metadata_def Let_def)
    have "status r < 200 \<or> 400 \<le> status r" using True by (auto simp: is_success_def is_redirection_def)
    with Some p forwardable_no_te show ?thesis by force
  next
    case False
    have range: "200 \<le> status r" "status r < 400" using False by (auto simp: is_success_def is_redirection_def)
    have red: "is_redirection (status r) \<longleftrightarrow> \<not> status r < 300" using range by (auto simp: is_redirection_def)
    show ?thesis
      using Some assms False range
      by (auto simp: probe_file_metadata_def Let_def red entity_headers_def res_bind_Inr_iff
          split: if_splits option.splits)
  qed
qed

definition ok_network :: network where
  "ok_network _ _ _ _ _ = Some \<lparr>status = 200,
     resp_headers = [(''content-length'', ''12''), (''etag'', ''e'')], resp_body = None\<rparr>"

theorem probe_result_witness:
  "\<exists>m. probe_file_metadata ok_network 0 ''u'' ''hf'' None = Inr (Metadata_found m) \<and> fm_etag m = Some ''e'' \<and> 0 < fm_size m"
proof -
  obtain m where m: "probe_file_metadata ok_network 0 ''u'' ''hf'' None = Inr (Metadata_found m)"
    by (simp add: probe_file_metadata_def ok_network_def Let_def is_success_def is_redirection_def entity_headers_def
        use_get_for_first_hop_probe_def header_str_def header_get_def to_str_def visible_ascii_def parse_u64_def
        parse_unsigned_def digit_val_def)
  from probe_result [OF m] show ?thesis
    by (auto simp: ok_network_def m header_str_def header_get_def to_str_def visible_ascii_def split: if_splits)
qed

section \<open>Eviction while streaming\<close>

lemma i64_sum_bound:
  fixes xs :: "int list"
  assumes "x \<in> set xs" "\<forall>y \<in> set xs. 0 \<le> y" "sum_list xs < 2 ^ 63" "i64_as_u64 (sum_list xs) \<le> m"
  shows "x \<le> int m"
proof -
  have "x \<le> sum_list xs" using assms(1,2)
  proof (induction xs)
    case (Cons a xs)
    then have "0 \<le> sum_list xs" by (intro sum_list_nonneg) auto
    with Cons show ?case by auto
  qed simp
  moreover from this assms(1,2) have "0 \<le> sum_list xs" by (meson order_trans)
  ultimately show ?thesis using assms(3,4) by (simp add: i64_as_u64_nonneg)
qed

lemma sum_list_subset_bound:
  fixes f :: "'a \<Rightarrow> int"
  assumes "distinct ys" "set ys \<subseteq> set xs" "distinct xs" "\<forall>x \<in> set xs. 0 \<le> f x"
  shows "sum_list (map f ys) \<le> sum_list (map f xs)"
proof -
  have "sum f (set ys) \<le> sum f (set xs)" by (rule sum_mono2) (use assms in auto)
  with assms(1,3) show ?thesis by (simp add: sum_list_distinct_conv_sum_set)
qed

lemma files_distinct: "db_inv d \<Longrightarrow> distinct (files d)"
  by (auto simp: db_inv_def db_wf_def distinct_map)

text \<open>
  C38: Starting the stream of an incomplete file that is larger than the configured limit evicts
  that very file: the actor runs for an identity that no row has any more, and recording a
  chunk it fetches fails on the foreign key and changes nothing.
\<close>

theorem streaming_can_evict_its_file:
  assumes "storage_laws B contents invar" "db_inv (w_db w)" "\<not> poisoned (w_db w)" "invar (w_store w)"
    and "keys_ok (w_db w)" "fl \<in> set (files (w_db w))" "get_file_chunks (f_id fl) (w_db w) = Inr fcs"
    and "cached_count fcs < div_ceil (i64_as_u64 (f_total_size fl)) CHUNK_SIZE"
    and "sc_max_size cfg = Some limit" "int limit < f_total_size fl"
    and "\<forall>f \<in> set (files (w_db w)). 0 \<le> f_total_size f" "sum_list (map f_total_size (files (w_db w))) < 2 ^ 63"
  shows "\<exists>r w'. stream_http_file B now cfg gone stopped chan url fl a b ua w = (r, w') \<and>
    w_sessions w' (f_id fl) \<noteq> None \<and> (\<forall>f \<in> set (files (w_db w')). f_id f \<noteq> f_id fl) \<and>
    (\<forall>ev. ev_file_id ev = f_id fl \<longrightarrow> record_event now' ev (w_db w') = w_db w')"
proof -
  obtain d' s' where ev: "evict_if_needed B now limit (w_db w, w_store w) = (Inr (), (d', s'))"
    and d': "db_inv d'" "\<not> poisoned d'" "i64_as_u64 (sum_list (map f_total_size (files d'))) \<le> limit"
      "set (files d') \<subseteq> set (files (w_db w))"
    using storage_laws.evict_ok [OF assms(1), OF assms(2-5), of now limit] by blast
  have "sum_list (map f_total_size (files d')) < 2 ^ 63"
    using sum_list_subset_bound [OF files_distinct [OF d'(1)] d'(4) files_distinct [OF assms(2)] assms(11)] assms(12)
    by simp
  then have "fl \<notin> set (files d')"
    using i64_sum_bound [of "f_total_size fl" "map f_total_size (files d')" limit] d'(3,4) assms(10,11) by fastforce
  moreover have "inj_on f_id (set (files (w_db w)))"
    using assms(2) by (simp add: db_inv_def db_wf_def distinct_map)
  ultimately have no: "f_id f \<noteq> f_id fl" if "f \<in> set (files d')" for f
    using that d'(4) assms(6) by (auto dest: inj_onD)
  obtain h nw m where gc: "get_or_create gone (f_id fl) (f_name fl) url (i64_as_u64 (f_total_size fl))
      (sc_prefetch_budget_base cfg) ua fl (w_sessions w) = (h, nw, m)" by (metis prod_cases3)
  then have "m (f_id fl) \<noteq> None"
    by (auto simp: get_or_create_def split: option.splits if_splits prod.splits)
  moreover have "stream_http_file B now cfg gone stopped chan url fl a b ua w =
      (res_bind (handle_subscribe stopped h chan (Some ((case a of None \<Rightarrow> 0 | Some x \<Rightarrow> x), b)))
         (\<lambda>(f, n, msg). Inr (f, n, msg, map_option (\<lambda>a. (a, cached_chunks_of fcs)) nw)),
       w\<lparr>w_db := d', w_store := s', w_sessions := m\<rparr>)"
    using assms(7-9) ev gc by (simp add: stream_http_file_def Let_def)
  ultimately show ?thesis
    using ensure_chunk_and_link_rollback [OF d'(1,2)] no by (auto simp: record_event_def)
qed

definition small_config :: service_config where
  "small_config = \<lparr>sc_max_size = Some 7, sc_prefetch_budget_base = 8\<rparr>"

definition big_db :: db where
  "big_db = snd (add_file ''t0'' ''o/r/a'' ''o/r'' 12 ''hf'' empty_db)"

lemma big_facts: "db_inv big_db" "\<not> poisoned big_db" "keys_ok big_db"
proof -
  have "db_reachable big_db"
    unfolding big_db_def by (rule db_reachable_step [OF db_reachable_start s_add_file])
  then show "db_inv big_db" by (rule db_reachable_inv)
  show "\<not> poisoned big_db" "keys_ok big_db" by code_simp+
qed

lemma big_files: "length (files big_db) = 1" "map f_id (files big_db) = [1]" "map f_total_size (files big_db) = [12]"
  "file_chunks big_db = []"
  by code_simp+

theorem streaming_can_evict_its_file_witness:
  "\<exists>r w'. stream_http_file (local_ops id Some (plain_backend ''root'')) ''t9'' small_config (\<lambda>_. False) False 0
      ''u'' (hd (files big_db)) None None None
      \<lparr>w_db = big_db, w_store = garbage_fs, w_sessions = Map.empty\<rparr> = (r, w') \<and>
    w_sessions w' 1 \<noteq> None \<and> f_id ` set (files (w_db w')) \<inter> {1} = {}"
proof -
  obtain f where f: "files big_db = [f]" "f_id f = 1" "f_total_size f = 12"
    using big_files by (cases "files big_db") auto
  have c: "get_file_chunks 1 big_db = Inr []" using big_files(4) big_facts(2) by (simp add: get_file_chunks_def)
  have "i64_as_u64 12 = 12" by (simp add: i64_as_u64_nonneg)
  then have n: "cached_count [] < div_ceil (i64_as_u64 12) CHUNK_SIZE"
    by (simp add: cached_count_def div_ceil_def CHUNK_SIZE_def)
  show ?thesis
    using streaming_can_evict_its_file [OF plain_local.storage_laws_axioms, where fl = f and fcs = "[]" and limit = 7
        and cfg = small_config and w = "\<lparr>w_db = big_db, w_store = garbage_fs, w_sessions = Map.empty\<rparr>"
        and now = "''t9''" and gone = "\<lambda>_. False" and stopped = False and chan = 0 and url = "''u''"
        and a = None and b = None and ua = None]
      big_facts plain_fs_ok f c n
    by (fastforce simp: small_config_def)
qed

end
