(* ===== verification/Singleflight.thy ===== *)
theory Singleflight
  imports Upstream Reach
begin

text \<open>
  \<open>reconcile_metadata_singleflight\<close> of \<open>src/server.rs\<close>: concurrent HEAD requests for one file
  share one probe of the hub. What requests do to the shared table (\<open>MetadataInflight\<close>) is a
  state machine whose events are the atomic actions of the code: a request takes the lock and
  joins or leads, the probe of a leader is through, a leader hands its result to one waiter,
  a request is dropped because its client hung up. A request is named by its position in the
  list of requests, a waiter's channel by the request that waits on it.
\<close>

section \<open>The leader's own work\<close>

datatype metadata_reconcile_outcome =
    MetadataReady
  | ForwardHeadFailure nat headers

text \<open>The probe and the reconciliation; an error leaves the whole function.\<close>

definition leader_attempt ::
  "string \<Rightarrow> network \<Rightarrow> nat \<Rightarrow> string \<Rightarrow> string \<Rightarrow> string \<Rightarrow> string \<Rightarrow> string option \<Rightarrow> db \<Rightarrow>
    metadata_reconcile_outcome res \<times> db" where
  "leader_attempt now net n url cache_name repo source ua d =
     (case probe_file_metadata net n url source ua of
        Inl e \<Rightarrow> (Inl e, d)
      | Inr (Metadata_found m) \<Rightarrow>
          (case reconcile_fetched_metadata now cache_name repo source m d of
             (Inl e, d') \<Rightarrow> (Inl e, d')
           | (Inr _, d') \<Rightarrow> (Inr MetadataReady, d'))
      | Inr (Upstream_failure st hs) \<Rightarrow> (Inr (ForwardHeadFailure st hs), d))"

section \<open>The shared table\<close>

datatype 'o request =
    Leading string
  | Publishing string 'o "nat list"
  | Waiting string
  | Returned "'o res"
  | Dropped

record 'o inflight =
  leaders :: "string \<rightharpoonup> nat list"
  requests :: "'o request list"

datatype 'o inflight_event =
    Arrived string
  | Attempted nat "'o res"
  | Sent nat
  | Client_gone nat

definition inflight_default :: "'o inflight" where
  "inflight_default = \<lparr>leaders = Map.empty, requests = []\<rparr>"

text \<open>
  A send reaches a waiter that still waits; the senders that a dropped leader held are dropped
  with it, and their waiters see a closed channel.
\<close>

definition deliver :: "'o res \<Rightarrow> nat list \<Rightarrow> 'o request list \<Rightarrow> 'o request list" where
  "deliver r ws rs =
     map (\<lambda>(i, q). case q of Waiting k \<Rightarrow> if i \<in> set ws then Returned r else q | _ \<Rightarrow> q) (enumerate 0 rs)"

fun inflight_step :: "'o inflight_event \<Rightarrow> 'o inflight \<Rightarrow> 'o inflight option" where
  "inflight_step (Arrived k) t =
     (case leaders t k of
        Some ws \<Rightarrow>
          Some (t\<lparr>leaders := (leaders t)(k \<mapsto> ws @ [length (requests t)]),
                  requests := requests t @ [Waiting k]\<rparr>)
      | None \<Rightarrow>
          Some (t\<lparr>leaders := (leaders t)(k \<mapsto> []), requests := requests t @ [Leading k]\<rparr>))"
| "inflight_step (Attempted i r) t =
     (if i < length (requests t)
      then case requests t ! i of
             Leading k \<Rightarrow>
               (case r of
                  Inl e \<Rightarrow> Some (t\<lparr>requests := (requests t)[i := Returned (Inl e)]\<rparr>)
                | Inr out \<Rightarrow>
                    Some (t\<lparr>leaders := (leaders t)(k := None),
                            requests := (requests t)[i := Publishing k out
                              (case leaders t k of None \<Rightarrow> [] | Some ws \<Rightarrow> ws)]\<rparr>))
           | _ \<Rightarrow> None
      else None)"
| "inflight_step (Sent i) t =
     (if i < length (requests t)
      then case requests t ! i of
             Publishing k out [] \<Rightarrow> Some (t\<lparr>requests := (requests t)[i := Returned (Inr out)]\<rparr>)
           | Publishing k out (w # ws) \<Rightarrow>
               Some (t\<lparr>requests := (deliver (Inr out) [w] (requests t))[i := Publishing k out ws]\<rparr>)
           | _ \<Rightarrow> None
      else None)"
| "inflight_step (Client_gone i) t =
     (if i < length (requests t)
      then case requests t ! i of
             Returned _ \<Rightarrow> None
           | Dropped \<Rightarrow> None
           | Publishing _ _ ws \<Rightarrow>
               Some (t\<lparr>requests := (deliver (Inl (UpstreamError WaiterDropped)) ws (requests t))[i := Dropped]\<rparr>)
           | _ \<Rightarrow> Some (t\<lparr>requests := (requests t)[i := Dropped]\<rparr>)
      else None)"

abbreviation inflight_run :: "'o inflight \<Rightarrow> 'o inflight \<Rightarrow> bool" where
  "inflight_run \<equiv> reach (by_event inflight_step)"

fun inflight_steps :: "'o inflight_event list \<Rightarrow> 'o inflight \<Rightarrow> 'o inflight option" where
  "inflight_steps [] t = Some t"
| "inflight_steps (ev # evs) t = Option.bind (inflight_step ev t) (inflight_steps evs)"

section \<open>The invariant\<close>

text \<open>
  At most one request leads a key and only while the table has the key; a waiter of a key is
  in the table's list, or in the list of a leader that is handing out its result.
\<close>

definition one_leader :: "'o inflight \<Rightarrow> bool" where
  "one_leader t = (\<forall>i < length (requests t). \<forall>k. requests t ! i = Leading k \<longrightarrow>
     leaders t k \<noteq> None \<and> (\<forall>j < length (requests t). requests t ! j = Leading k \<longrightarrow> j = i))"

definition lists_match :: "'o inflight \<Rightarrow> bool" where
  "lists_match t =
     ((\<forall>k ws. leaders t k = Some ws \<longrightarrow> (\<forall>w \<in> set ws. w < length (requests t) \<and>
         (\<forall>k'. requests t ! w = Waiting k' \<longrightarrow> k' = k))) \<and>
      (\<forall>j < length (requests t). \<forall>k out ws. requests t ! j = Publishing k out ws \<longrightarrow> (\<forall>w \<in> set ws.
         w < length (requests t) \<and> (\<forall>k'. requests t ! w = Waiting k' \<longrightarrow> k' = k))))"

definition waiters_listed :: "'o inflight \<Rightarrow> bool" where
  "waiters_listed t = (\<forall>i < length (requests t). \<forall>k. requests t ! i = Waiting k \<longrightarrow>
     (\<exists>ws. leaders t k = Some ws \<and> i \<in> set ws) \<or>
     (\<exists>j < length (requests t). \<exists>out ws. requests t ! j = Publishing k out ws \<and> i \<in> set ws))"

definition inflight_inv :: "'o inflight \<Rightarrow> bool" where
  "inflight_inv t = (one_leader t \<and> waiters_listed t \<and> lists_match t)"

lemma deliver_length [simp]: "length (deliver r ws rs) = length rs"
  by (simp add: deliver_def)

lemma deliver_nth:
  "i < length rs \<Longrightarrow> deliver r ws rs ! i =
     (case rs ! i of Waiting k \<Rightarrow> if i \<in> set ws then Returned r else Waiting k | q \<Rightarrow> q)"
  by (simp add: deliver_def nth_enumerate_eq split: request.splits)

lemma deliver_none [simp]: "deliver r [] rs = rs"
  by (rule nth_equalityI) (auto simp: deliver_nth split: request.split)

lemma deliver_cases:
  assumes "i < length rs" "deliver r ws rs ! i = q"
  shows "rs ! i = q \<and> (\<forall>k. q = Waiting k \<longrightarrow> i \<notin> set ws) \<or>
    (\<exists>k. rs ! i = Waiting k \<and> i \<in> set ws \<and> q = Returned r)"
  using assms by (auto simp: deliver_nth split: request.splits if_splits)

lemmas inv_parts = inflight_inv_def one_leader_def waiters_listed_def lists_match_def

lemma leading_listed:
  "inflight_inv t \<Longrightarrow> i < length (requests t) \<Longrightarrow> requests t ! i = Leading k \<Longrightarrow> \<exists>us. leaders t k = Some us"
  unfolding inflight_inv_def one_leader_def by auto

lemma inflight_inv_start: "inflight_inv inflight_default"
  by (simp add: inv_parts inflight_default_def)

lemma waiters_listed_extend:
  assumes "waiters_listed t" "requests t' = requests t @ [q]"
    and "\<And>k us. leaders t k = Some us \<Longrightarrow> \<exists>us'. leaders t' k = Some us' \<and> set us \<subseteq> set us'"
    and "\<And>k. q = Waiting k \<Longrightarrow> \<exists>us'. leaders t' k = Some us' \<and> length (requests t) \<in> set us'"
  shows "waiters_listed t'"
  unfolding waiters_listed_def
proof (intro allI impI)
  fix i k
  assume i: "i < length (requests t')" "requests t' ! i = Waiting k"
  show "(\<exists>ws. leaders t' k = Some ws \<and> i \<in> set ws) \<or>
    (\<exists>j < length (requests t'). \<exists>out ws. requests t' ! j = Publishing k out ws \<and> i \<in> set ws)"
  proof (cases "i = length (requests t)")
    case True
    with i assms(2,4) show ?thesis by fastforce
  next
    case False
    with i assms(2) have "i < length (requests t)" "requests t ! i = Waiting k" by (auto simp: nth_append)
    then consider us where "leaders t k = Some us" "i \<in> set us"
      | j out us where "j < length (requests t)" "requests t ! j = Publishing k out us" "i \<in> set us"
      using assms(1) unfolding waiters_listed_def by blast
    then show ?thesis
    proof cases
      case 1
      with assms(3) show ?thesis by blast
    next
      case (2 j out us)
      then have "j < length (requests t')" "requests t' ! j = Publishing k out us"
        using assms(2) by (simp_all add: nth_append)
      with 2(3) show ?thesis by blast
    qed
  qed
qed

lemma lists_match_extend:
  assumes "lists_match t" "requests t' = requests t @ [q]" "\<And>k out us. q \<noteq> Publishing k out us"
    and "\<And>k us w. leaders t' k = Some us \<Longrightarrow> w \<in> set us \<Longrightarrow>
      (\<exists>vs. leaders t k = Some vs \<and> w \<in> set vs) \<or> w = length (requests t) \<and> (\<forall>k'. q = Waiting k' \<longrightarrow> k' = k)"
  shows "lists_match t'"
  unfolding lists_match_def
proof (intro conjI allI impI ballI)
  fix k us w k'
  assume us: "leaders t' k = Some us" "w \<in> set us"
  from assms(4) [OF us] show "w < length (requests t')"
    using assms(1,2) unfolding lists_match_def by fastforce
  assume "requests t' ! w = Waiting k'"
  with assms(4) [OF us] show "k' = k"
    using assms(1,2) unfolding lists_match_def by (fastforce simp: nth_append)
next
  fix j k out us w k'
  assume j: "j < length (requests t')" "requests t' ! j = Publishing k out us" "w \<in> set us"
  with assms(2,3) have old: "j < length (requests t)" "requests t ! j = Publishing k out us"
    by (auto simp: nth_append split: if_splits)
  then have w: "w < length (requests t)" "\<forall>k'. requests t ! w = Waiting k' \<longrightarrow> k' = k"
    using assms(1) j(3) unfolding lists_match_def by blast+
  then show "w < length (requests t')" using assms(2) by simp
  assume "requests t' ! w = Waiting k'"
  with w assms(2) show "k' = k" by (simp add: nth_append)
qed

lemma arrived_inv:
  assumes inv: "inflight_inv t" and st: "inflight_step (Arrived k) t = Some t'"
  shows "inflight_inv t'"
proof (cases "leaders t k")
  case None
  then have t': "t' = t\<lparr>leaders := (leaders t)(k \<mapsto> []), requests := requests t @ [Leading k]\<rparr>" using st by simp
  have no: "\<not> (i < length (requests t) \<and> requests t ! i = Leading k)" for i
    using inv None by (auto simp: inv_parts)
  have "one_leader t'" using inv no unfolding t'
    by (auto simp: inv_parts nth_append less_Suc_eq)
  moreover have "waiters_listed t'"
    by (rule waiters_listed_extend [of t _ "Leading k"]) (use inv None in \<open>auto simp: t' inflight_inv_def\<close>)
  moreover have "lists_match t'"
    by (rule lists_match_extend [of t _ "Leading k"]) (use inv None in \<open>auto simp: t' inflight_inv_def split: if_splits\<close>)
  ultimately show ?thesis by (simp add: inflight_inv_def)
next
  case (Some ws)
  then have t': "t' = t\<lparr>leaders := (leaders t)(k \<mapsto> ws @ [length (requests t)]), requests := requests t @ [Waiting k]\<rparr>"
    using st by simp
  have "one_leader t'" using inv Some unfolding t'
    by (auto simp: inv_parts nth_append less_Suc_eq)
  moreover have "waiters_listed t'"
    by (rule waiters_listed_extend [of t _ "Waiting k"]) (use inv Some in \<open>auto simp: t' inflight_inv_def\<close>)
  moreover have "lists_match t'"
    by (rule lists_match_extend [of t _ "Waiting k"]) (use inv Some in \<open>auto simp: t' inflight_inv_def split: if_splits\<close>)
  ultimately show ?thesis by (simp add: inflight_inv_def)
qed

text \<open>What any other step does: some waiters are answered, and request \<open>i\<close> moves on.\<close>

definition moves_on :: "nat \<Rightarrow> nat list \<Rightarrow> 'o res \<Rightarrow> 'o request \<Rightarrow> 'o inflight \<Rightarrow> 'o inflight \<Rightarrow> bool" where
  "moves_on i ws r q t t' =
     (i < length (requests t) \<and> requests t' = (deliver r ws (requests t))[i := q] \<and>
      (\<forall>k. q \<noteq> Waiting k \<and> q \<noteq> Leading k) \<and>
      requests t ! i \<noteq> Dropped \<and> (\<forall>k. requests t ! i = Waiting k \<longrightarrow> q = Dropped) \<and>
      (ws = [] \<or> (\<exists>k out vs. requests t ! i = Publishing k out vs \<and> set ws \<subseteq> set vs)) \<and>
      (\<forall>k out vs. requests t ! i = Publishing k out vs \<longrightarrow>
         (\<exists>us. (q = Publishing k out us \<or> us = []) \<and> set vs \<subseteq> set ws \<union> set us \<and> set us \<subseteq> set vs)) \<and>
      (leaders t' = leaders t \<and> (\<forall>k out us. q = Publishing k out us \<longrightarrow>
           (\<exists>vs. requests t ! i = Publishing k out vs \<and> set us \<subseteq> set vs)) \<or>
       (\<exists>k out us. requests t ! i = Leading k \<and> leaders t k = Some us \<and>
          leaders t' = (leaders t)(k := None) \<and> q = Publishing k out us)))"

lemma step_moves_on:
  assumes "inflight_inv t" "inflight_step ev t = Some t'" "\<forall>k. ev \<noteq> Arrived k"
  shows "\<exists>i ws r q. moves_on i ws r q t t'"
proof (cases ev)
  case (Attempted i r)
  show ?thesis
  proof (cases r)
    case (Inl e)
    with Attempted assms obtain k where k: "i < length (requests t)" "requests t ! i = Leading k"
      by (cases "requests t ! i") (simp_all split: if_splits)
    with Inl Attempted assms have "moves_on i [] (Inl Panicked) (Returned (Inl e)) t t'"
      by (auto simp: moves_on_def)
    then show ?thesis by blast
  next
    case (Inr out)
    with Attempted assms obtain k where k: "i < length (requests t)" "requests t ! i = Leading k"
      by (cases "requests t ! i") (simp_all split: if_splits)
    then obtain us where "leaders t k = Some us" using leading_listed [OF assms(1)] by blast
    with k Inr Attempted assms have "moves_on i [] (Inl Panicked) (Publishing k out us) t t'"
      by (auto simp: moves_on_def)
    then show ?thesis by blast
  qed
next
  case (Sent i)
  from Sent assms obtain k out vs where k: "i < length (requests t)" "requests t ! i = Publishing k out vs"
    by (cases "requests t ! i") (simp_all split: if_splits)
  show ?thesis
  proof (cases vs)
    case Nil
    with Sent k assms have "moves_on i [] (Inl Panicked) (Returned (Inr out)) t t'"
      by (auto simp: moves_on_def)
    then show ?thesis by blast
  next
    case (Cons w ws)
    with Sent k assms have "moves_on i [w] (Inr out) (Publishing k out ws) t t'"
      by (auto simp: moves_on_def)
    then show ?thesis by blast
  qed
next
  case (Client_gone i)
  from Client_gone assms have i: "i < length (requests t)" by (auto split: if_splits)
  show ?thesis
  proof (cases "\<exists>k out vs. requests t ! i = Publishing k out vs")
    case True
    then obtain k out vs where "requests t ! i = Publishing k out vs" by blast
    with Client_gone i assms have "moves_on i vs (Inl (UpstreamError WaiterDropped)) Dropped t t'"
      by (auto simp: moves_on_def)
    then show ?thesis by blast
  next
    case False
    with Client_gone i assms have "moves_on i [] (Inl Panicked) Dropped t t'"
      by (cases "requests t ! i") (auto simp: moves_on_def)
    then show ?thesis by blast
  qed
qed (use assms in simp)

lemma deliver_keeps:
  assumes "j < length rs"
  shows "deliver r ws rs ! j = Leading k \<longleftrightarrow> rs ! j = Leading k"
    "deliver r ws rs ! j = Publishing k out us \<longleftrightarrow> rs ! j = Publishing k out us"
    "deliver r ws rs ! j = Waiting k \<longleftrightarrow> rs ! j = Waiting k \<and> j \<notin> set ws"
    "deliver r ws rs ! j = Dropped \<longleftrightarrow> rs ! j = Dropped"
  using assms by (auto simp: deliver_nth split: request.splits)

lemma moves_on_nth:
  assumes "moves_on i ws r q t t'" "j < length (requests t')"
  shows "requests t' ! j = (if j = i then q else deliver r ws (requests t) ! j)" "j < length (requests t)"
  using assms by (auto simp: moves_on_def nth_list_update)

lemma moves_on_len: "moves_on i ws r q t t' \<Longrightarrow> length (requests t') = length (requests t)"
  by (simp add: moves_on_def)

lemma moves_on_q: "moves_on i ws r q t t' \<Longrightarrow> q \<noteq> Waiting k" "moves_on i ws r q t t' \<Longrightarrow> q \<noteq> Leading k"
  by (auto simp: moves_on_def)

lemma moves_on_waiting:
  assumes "moves_on i ws r q t t'" "j < length (requests t')" "requests t' ! j = Waiting k"
  shows "j < length (requests t)" "requests t ! j = Waiting k" "j \<notin> set ws" "j \<noteq> i"
proof -
  have ne: "j \<noteq> i" using moves_on_nth(1) [OF assms(1,2)] moves_on_q [OF assms(1), of k] assms(3) by auto
  then have "deliver r ws (requests t) ! j = Waiting k" using moves_on_nth(1) [OF assms(1,2)] assms(3) by simp
  with ne moves_on_nth(2) [OF assms(1,2)] show "j < length (requests t)" "requests t ! j = Waiting k" "j \<notin> set ws" "j \<noteq> i"
    by (simp_all add: deliver_keeps)
qed

lemma moves_on_leading:
  assumes "moves_on i ws r q t t'" "j < length (requests t')" "requests t' ! j = Leading k"
  shows "j < length (requests t)" "requests t ! j = Leading k" "j \<noteq> i"
proof -
  have ne: "j \<noteq> i" using moves_on_nth(1) [OF assms(1,2)] moves_on_q [OF assms(1), of k] assms(3) by auto
  then have "deliver r ws (requests t) ! j = Leading k" using moves_on_nth(1) [OF assms(1,2)] assms(3) by simp
  with ne moves_on_nth(2) [OF assms(1,2)] show "j < length (requests t)" "requests t ! j = Leading k" "j \<noteq> i"
    by (simp_all add: deliver_keeps)
qed

lemma moves_on_leaders:
  assumes "moves_on i ws r q t t'"
  obtains "leaders t' = leaders t"
  | k out us where "requests t ! i = Leading k" "leaders t k = Some us" "leaders t' = (leaders t)(k := None)"
      "q = Publishing k out us"
  using assms unfolding moves_on_def by blast

lemma moves_on_one_leader:
  assumes m: "moves_on i ws r q t t'" and inv: "inflight_inv t"
  shows "one_leader t'"
  unfolding one_leader_def
proof (intro allI impI)
  note len = moves_on_len [OF m]
  have i: "i < length (requests t)" using m by (simp add: moves_on_def)
  fix j k
  assume j: "j < length (requests t')" "requests t' ! j = Leading k"
  note old = moves_on_leading [OF m j]
  from moves_on_leaders [OF m] show "leaders t' k \<noteq> None \<and> (\<forall>j' < length (requests t'). requests t' ! j' = Leading k \<longrightarrow> j' = j)"
  proof cases
    case 1
    with leading_listed [OF inv old(1,2)] inv old(1,2) moves_on_leading [OF m] show ?thesis
      unfolding inflight_inv_def one_leader_def by auto
  next
    case (2 k' out us)
    have "k \<noteq> k'" using inv old i 2(1) unfolding inflight_inv_def one_leader_def by blast
    with 2 leading_listed [OF inv old(1,2)] inv old(1,2) moves_on_leading [OF m] show ?thesis
      unfolding inflight_inv_def one_leader_def by auto
  qed
qed

lemma moves_on_waiters_listed:
  assumes m: "moves_on i ws r q t t'" and inv: "inflight_inv t"
  shows "waiters_listed t'"
  unfolding waiters_listed_def
proof (intro allI impI)
  note len = moves_on_len [OF m]
  have i: "i < length (requests t)" using m by (simp add: moves_on_def)
  fix j k
  assume j: "j < length (requests t')" "requests t' ! j = Waiting k"
  note old = moves_on_waiting [OF m j]
  from old(1,2) inv consider (table) us where "leaders t k = Some us" "j \<in> set us"
    | (handed) l out us where "l < length (requests t)" "requests t ! l = Publishing k out us" "j \<in> set us"
    unfolding inflight_inv_def waiters_listed_def by blast
  then show "(\<exists>us. leaders t' k = Some us \<and> j \<in> set us) \<or>
    (\<exists>l < length (requests t'). \<exists>out us. requests t' ! l = Publishing k out us \<and> j \<in> set us)"
  proof cases
    case table
    from moves_on_leaders [OF m] show ?thesis
    proof cases
      case 1
      with table show ?thesis by simp
    next
      case (2 k' out us')
      show ?thesis
      proof (cases "k = k'")
        case True
        with 2 table have "requests t' ! i = Publishing k out us" "i < length (requests t')"
          using m i len by (simp_all add: moves_on_def)
        with table(2) show ?thesis by blast
      next
        case False
        with 2 table show ?thesis by simp
      qed
    qed
  next
    case (handed l out us)
    show ?thesis
    proof (cases "l = i")
      case False
      with handed have "requests t' ! l = Publishing k out us" "l < length (requests t')"
        using moves_on_nth(1) [OF m, of l] len by (simp_all add: deliver_keeps)
      with handed(3) show ?thesis by blast
    next
      case True
      with handed m obtain us' where "q = Publishing k out us' \<or> us' = []" "set us \<subseteq> set ws \<union> set us'"
        unfolding moves_on_def by blast
      with handed(3) old(3) have "q = Publishing k out us'" "j \<in> set us'" by auto
      moreover have "requests t' ! i = q" "i < length (requests t')" using m i len by (simp_all add: moves_on_def)
      ultimately show ?thesis by blast
    qed
  qed
qed

lemma moves_on_lists_match:
  assumes m: "moves_on i ws r q t t'" and inv: "inflight_inv t"
  shows "lists_match t'"
  unfolding lists_match_def
proof (intro conjI allI impI ballI)
  note len = moves_on_len [OF m]
  fix k us w k'
  assume us: "leaders t' k = Some us" "w \<in> set us"
  then have "leaders t k = Some us" using moves_on_leaders [OF m] by (metis fun_upd_apply option.distinct(1))
  then have w: "w < length (requests t)" "\<And>k'. requests t ! w = Waiting k' \<Longrightarrow> k' = k"
    using inv us(2) unfolding inflight_inv_def lists_match_def by blast+
  then show "w < length (requests t')" using len by simp
  show "k' = k" if "requests t' ! w = Waiting k'"
    using moves_on_waiting(2) [OF m _ that] w len by simp
next
  note len = moves_on_len [OF m]
  have i: "i < length (requests t)" using m by (simp add: moves_on_def)
  fix j k out us w k'
  assume j: "j < length (requests t')" "requests t' ! j = Publishing k out us" "w \<in> set us"
  have "\<exists>vs. w \<in> set vs \<and> (leaders t k = Some vs \<or> (\<exists>l < length (requests t). requests t ! l = Publishing k out vs))"
  proof (cases "j = i")
    case False
    with j moves_on_nth [OF m j(1)] show ?thesis by (auto simp: deliver_keeps)
  next
    case True
    then have q: "q = Publishing k out us" using j(2) m i by (simp add: moves_on_def)
    with m have "(\<exists>vs. requests t ! i = Publishing k out vs \<and> set us \<subseteq> set vs) \<or> leaders t k = Some us"
      unfolding moves_on_def by auto
    with i j(3) show ?thesis by blast
  qed
  then have w: "w < length (requests t)" "\<And>k'. requests t ! w = Waiting k' \<Longrightarrow> k' = k"
    using inv unfolding inflight_inv_def lists_match_def by blast+
  then show "w < length (requests t')" using len by simp
  show "k' = k" if "requests t' ! w = Waiting k'"
    using moves_on_waiting(2) [OF m _ that] w len by simp
qed

lemma moves_on_inv: "moves_on i ws r q t t' \<Longrightarrow> inflight_inv t \<Longrightarrow> inflight_inv t'"
  using moves_on_one_leader moves_on_waiters_listed moves_on_lists_match unfolding inflight_inv_def by blast

lemma inflight_step_inv:
  assumes "inflight_inv t" "inflight_step ev t = Some t'"
  shows "inflight_inv t'"
proof (cases "\<exists>k. ev = Arrived k")
  case True
  with arrived_inv [OF assms(1)] assms(2) show ?thesis by blast
next
  case False
  with step_moves_on [OF assms] moves_on_inv [OF _ assms(1)] show ?thesis by blast
qed

interpretation inflight_states: state_invariant "by_event inflight_step" inflight_inv
  by unfold_locales (auto simp: by_event_def intro: inflight_step_inv)

lemmas inflight_run_inv = inflight_states.inv_reach

section \<open>Properties\<close>

text \<open>
  C14: Whatever the order in which requests arrive, are answered and are dropped, a key has at
  most one leading request, that is, at most one probe of the hub under way, and every request
  that waits for a key is in the list of the table or of a leader that hands out its result.
\<close>

theorem one_probe_per_key:
  assumes "inflight_run inflight_default t"
  shows "(\<forall>i < length (requests t). \<forall>j < length (requests t). \<forall>k.
      requests t ! i = Leading k \<and> requests t ! j = Leading k \<longrightarrow> i = j) \<and>
    (\<forall>i < length (requests t). \<forall>k. requests t ! i = Waiting k \<longrightarrow>
      (\<exists>ws. leaders t k = Some ws \<and> i \<in> set ws) \<or>
      (\<exists>j < length (requests t). \<exists>out ws. requests t ! j = Publishing k out ws \<and> i \<in> set ws))"
  using inflight_run_inv [OF assms inflight_inv_start]
  unfolding inflight_inv_def one_leader_def waiters_listed_def by blast

definition two_heads :: "metadata_reconcile_outcome inflight" where
  "two_heads = \<lparr>leaders = [''hf:a'' \<mapsto> [1]], requests = [Leading ''hf:a'', Waiting ''hf:a'']\<rparr>"

lemma two_heads_run: "inflight_run inflight_default two_heads"
proof -
  let ?t = "\<lparr>leaders = [''hf:a'' \<mapsto> []], requests = [Leading ''hf:a'']\<rparr>"
  have "inflight_run inflight_default ?t"
    by (rule event_step [OF reach.run_start, where ev = "Arrived ''hf:a''"]) (simp add: inflight_default_def)
  then show ?thesis
    by (rule event_step [where ev = "Arrived ''hf:a''"]) (simp add: two_heads_def)
qed

theorem one_probe_per_key_witness:
  "\<exists>ws. leaders two_heads ''hf:a'' = Some ws \<and> 1 \<in> set ws"
  using conjunct2 [OF one_probe_per_key [OF two_heads_run]]
  by (auto simp: two_heads_def less_Suc_eq)

lemma publish_all:
  assumes "i < length (requests t)" "requests t ! i = Publishing k out ws"
  shows "inflight_steps (replicate (Suc (length ws)) (Sent i)) t =
    Some (t\<lparr>requests := (deliver (Inr out) ws (requests t))[i := Returned (Inr out)]\<rparr>)"
  using assms
proof (induction ws arbitrary: t)
  case Nil
  then show ?case by simp
next
  case (Cons w ws)
  let ?t1 = "t\<lparr>requests := (deliver (Inr out) [w] (requests t))[i := Publishing k out ws]\<rparr>"
  have "(deliver (Inr out) ws (requests ?t1))[i := Returned (Inr out)] ! j =
      (deliver (Inr out) (w # ws) (requests t))[i := Returned (Inr out)] ! j" if "j < length (requests t)" for j
  proof (cases "j = i")
    case False
    with that show ?thesis by (cases "requests t ! j") (simp_all add: deliver_nth)
  qed (use that in simp)
  then have "(deliver (Inr out) ws (requests ?t1))[i := Returned (Inr out)] =
      (deliver (Inr out) (w # ws) (requests t))[i := Returned (Inr out)]"
    by (intro nth_equalityI) simp_all
  moreover have "inflight_step (Sent i) t = Some ?t1" using Cons.prems by simp
  moreover have "inflight_steps (replicate (Suc (length ws)) (Sent i)) ?t1 =
      Some (?t1\<lparr>requests := (deliver (Inr out) ws (requests ?t1))[i := Returned (Inr out)]\<rparr>)"
    using Cons.prems by (intro Cons.IH) auto
  ultimately show ?case by simp
qed

text \<open>
  C15: When the leader of a key is through, the key is free again, and handing out its result
  reaches exactly the requests that had joined it and still wait: each returns the outcome
  that the leader itself returns, and no other request changes.
\<close>

theorem waiters_get_the_outcome:
  assumes "inflight_run inflight_default t" "i < length (requests t)" "requests t ! i = Leading k"
  shows "\<exists>ws t'. leaders t k = Some ws \<and>
    inflight_steps (Attempted i (Inr out) # replicate (Suc (length ws)) (Sent i)) t = Some t' \<and>
    leaders t' = (leaders t)(k := None) \<and> requests t' ! i = Returned (Inr out) \<and>
    (\<forall>w < length (requests t). w \<noteq> i \<longrightarrow>
       requests t' ! w = (if w \<in> set ws \<and> requests t ! w = Waiting k then Returned (Inr out) else requests t ! w))"
proof -
  have inv: "inflight_inv t" by (rule inflight_run_inv [OF assms(1) inflight_inv_start])
  obtain ws where ws: "leaders t k = Some ws" using leading_listed [OF inv assms(2,3)] by blast
  have own: "w < length (requests t)" "requests t ! w = Waiting k' \<Longrightarrow> k' = k" if "w \<in> set ws" for w k'
    using inv ws that unfolding inflight_inv_def lists_match_def by blast+
  let ?t1 = "t\<lparr>leaders := (leaders t)(k := None), requests := (requests t)[i := Publishing k out ws]\<rparr>"
  let ?t2 = "?t1\<lparr>requests := (deliver (Inr out) ws (requests ?t1))[i := Returned (Inr out)]\<rparr>"
  have "inflight_step (Attempted i (Inr out)) t = Some ?t1" using assms(2,3) ws by simp
  moreover have "inflight_steps (replicate (Suc (length ws)) (Sent i)) ?t1 = Some ?t2"
    using assms(2) by (intro publish_all) simp_all
  ultimately have "inflight_steps (Attempted i (Inr out) # replicate (Suc (length ws)) (Sent i)) t = Some ?t2"
    by simp
  moreover have "requests ?t2 ! w =
      (if w \<in> set ws \<and> requests t ! w = Waiting k then Returned (Inr out) else requests t ! w)"
    if "w < length (requests t)" "w \<noteq> i" for w
    using that own(2) [of w] by (cases "requests t ! w") (auto simp: deliver_nth)
  ultimately show ?thesis using ws assms(2) by (intro exI [of _ ws] exI [of _ ?t2]) simp
qed

theorem waiters_get_the_outcome_witness:
  "\<exists>t'. inflight_steps [Attempted 0 (Inr MetadataReady), Sent 0, Sent 0] two_heads = Some t' \<and>
     requests t' ! 0 = Returned (Inr MetadataReady) \<and> requests t' ! 1 = Returned (Inr MetadataReady)"
proof -
  have "leaders two_heads ''hf:a'' = Some [1]" "length (requests two_heads) = 2"
    "requests two_heads ! 0 = Leading ''hf:a''" "requests two_heads ! 1 = Waiting ''hf:a''"
    by (simp_all add: two_heads_def)
  with waiters_get_the_outcome [OF two_heads_run, of 0 "''hf:a''" MetadataReady] show ?thesis
    by (auto simp: numeral_2_eq_2)
qed

section \<open>A leader that fails\<close>

text \<open>Request \<open>w\<close> waits for a key that nobody leads and that the table never frees.\<close>

definition blocked :: "string \<Rightarrow> 'o inflight \<Rightarrow> bool" where
  "blocked k t = (leaders t k \<noteq> None \<and> (\<forall>j < length (requests t). requests t ! j \<noteq> Leading k))"

definition abandoned :: "string \<Rightarrow> nat \<Rightarrow> 'o inflight \<Rightarrow> bool" where
  "abandoned k w t =
     (blocked k t \<and> w < length (requests t) \<and> (requests t ! w = Waiting k \<or> requests t ! w = Dropped) \<and>
      (\<forall>k' us. k' \<noteq> k \<longrightarrow> leaders t k' = Some us \<longrightarrow> w \<notin> set us) \<and>
      (\<forall>j < length (requests t). \<forall>k' out us. requests t ! j = Publishing k' out us \<longrightarrow> w \<notin> set us))"

lemma arrived_shape:
  assumes "inflight_step (Arrived k) t = Some t'"
  obtains q us where "requests t' = requests t @ [q]" "q = Leading k \<or> q = Waiting k" "leaders t k \<noteq> None \<Longrightarrow> q = Waiting k"
    "leaders t' = (leaders t)(k \<mapsto> us)"
    "\<And>w. w \<in> set us \<Longrightarrow> w = length (requests t) \<or> (\<exists>vs. leaders t k = Some vs \<and> w \<in> set vs)"
  using assms by (cases "leaders t k") force+

lemma blocked_step:
  assumes "inflight_inv t" "blocked k t" "inflight_step ev t = Some t'"
  shows "blocked k t'"
proof (cases "\<exists>k'. ev = Arrived k'")
  case True
  then obtain k' where "ev = Arrived k'" by blast
  with assms(2,3) show ?thesis
    by (cases "leaders t k'") (auto simp: blocked_def nth_append less_Suc_eq)
next
  case False
  then obtain i ws r q where m: "moves_on i ws r q t t'" using step_moves_on [OF assms(1,3)] by blast
  have "leaders t' k \<noteq> None"
    using m assms(2) unfolding moves_on_def blocked_def by auto
  with assms(2) moves_on_leading [OF m] show ?thesis unfolding blocked_def by blast
qed

lemma abandoned_step:
  assumes "inflight_inv t" "abandoned k w t" "inflight_step ev t = Some t'"
  shows "abandoned k w t'"
proof -
  have b: "blocked k t'" using blocked_step [OF assms(1) _ assms(3)] assms(2) by (simp add: abandoned_def)
  have old: "w < length (requests t)" "requests t ! w = Waiting k \<or> requests t ! w = Dropped"
    "\<And>k' us. k' \<noteq> k \<Longrightarrow> leaders t k' = Some us \<Longrightarrow> w \<notin> set us"
    "\<And>j k' out us. j < length (requests t) \<Longrightarrow> requests t ! j = Publishing k' out us \<Longrightarrow> w \<notin> set us"
    "\<And>j. j < length (requests t) \<Longrightarrow> requests t ! j \<noteq> Leading k"
    using assms(2) unfolding abandoned_def blocked_def by blast+
  show ?thesis
  proof (cases "\<exists>k'. ev = Arrived k'")
    case True
    then obtain k' where "ev = Arrived k'" by blast
    with assms(3) have "inflight_step (Arrived k') t = Some t'" by simp
    then obtain q us where s: "requests t' = requests t @ [q]" "q = Leading k' \<or> q = Waiting k'"
        "leaders t' = (leaders t)(k' \<mapsto> us)"
        "\<And>v. v \<in> set us \<Longrightarrow> v = length (requests t) \<or> (\<exists>vs. leaders t k' = Some vs \<and> v \<in> set vs)"
      by (rule arrived_shape) blast
    have "w \<notin> set vs" if "k'' \<noteq> k" "leaders t' k'' = Some vs" for k'' vs
      using that s(3,4) old(1,3) by (fastforce split: if_splits)
    moreover have "w \<notin> set vs" if j: "j < length (requests t')" "requests t' ! j = Publishing k'' out vs" for j k'' out vs
    proof -
      have "j < length (requests t)" "requests t ! j = Publishing k'' out vs"
        using j s(1,2) by (auto simp: nth_append split: if_splits)
      then show ?thesis by (rule old(4))
    qed
    moreover have "w < length (requests t')" "requests t' ! w = requests t ! w" using s(1) old(1) by (simp_all add: nth_append)
    ultimately show ?thesis using b old(2) unfolding abandoned_def by metis
  next
    case False
    then obtain i ws r q where m: "moves_on i ws r q t t'" using step_moves_on [OF assms(1,3)] by blast
    have i: "i < length (requests t)" using m by (simp add: moves_on_def)
    have "ws = [] \<or> (\<exists>k out vs. requests t ! i = Publishing k out vs \<and> set ws \<subseteq> set vs)"
      using m unfolding moves_on_def by simp
    then have ws: "w \<notin> set ws" using old(4) [OF i] by auto
    have len: "w < length (requests t')" using old(1) moves_on_len [OF m] by simp
    have own: "requests t' ! w = Waiting k \<or> requests t' ! w = Dropped"
    proof (cases "w = i")
      case True
      with m old(2) have "q = Dropped" unfolding moves_on_def by auto
      with moves_on_nth(1) [OF m len] True show ?thesis by simp
    next
      case False
      with moves_on_nth(1) [OF m len] old(1,2) ws show ?thesis by (auto simp: deliver_nth)
    qed
    have table: "w \<notin> set us" if "k' \<noteq> k" "leaders t' k' = Some us" for k' us
    proof -
      have "leaders t k' = Some us" using moves_on_leaders [OF m] that(2) by (metis fun_upd_apply option.distinct(1))
      with old(3) that(1) show ?thesis by blast
    qed
    have handed: "w \<notin> set us" if j: "j < length (requests t')" "requests t' ! j = Publishing k' out us" for j k' out us
    proof (cases "j = i")
      case False
      with j moves_on_nth [OF m j(1)] old(4) show ?thesis by (auto simp: deliver_keeps)
    next
      case True
      with j moves_on_nth(1) [OF m j(1)] have "q = Publishing k' out us" by simp
      with m have "(\<exists>vs. requests t ! i = Publishing k' out vs \<and> set us \<subseteq> set vs) \<or>
          (requests t ! i = Leading k' \<and> leaders t k' = Some us)"
        unfolding moves_on_def by auto
      then show ?thesis
      proof (elim disjE exE conjE)
        fix vs
        assume "requests t ! i = Publishing k' out vs" "set us \<subseteq> set vs"
        with old(4) [OF i] show ?thesis by blast
      next
        assume l: "requests t ! i = Leading k'" "leaders t k' = Some us"
        then have "k' \<noteq> k" using old(5) [OF i] by blast
        with l(2) old(3) show ?thesis by blast
      qed
    qed
    from b len own table handed show ?thesis unfolding abandoned_def by blast
  qed
qed

lemma abandoned_arrival:
  assumes "inflight_inv t" "blocked k t" "inflight_step (Arrived k) t = Some t'"
  shows "abandoned k (length (requests t)) t'"
proof -
  let ?w = "length (requests t)"
  have b: "blocked k t'" by (rule blocked_step [OF assms])
  obtain q us where s: "requests t' = requests t @ [q]" "q = Waiting k" "leaders t' = (leaders t)(k \<mapsto> us)"
    by (rule arrived_shape [OF assms(3)]) (use assms(2) in \<open>auto simp: blocked_def\<close>)
  have "?w \<notin> set vs" if "k' \<noteq> k" "leaders t' k' = Some vs" for k' vs
  proof -
    have "leaders t k' = Some vs" using that s(3) by simp
    then show ?thesis using assms(1) unfolding inflight_inv_def lists_match_def by blast
  qed
  moreover have "?w \<notin> set vs" if j: "j < length (requests t')" "requests t' ! j = Publishing k' out vs" for j k' out vs
  proof -
    have "j < length (requests t)" "requests t ! j = Publishing k' out vs"
      using j s(1,2) by (auto simp: nth_append split: if_splits)
    then show ?thesis using assms(1) unfolding inflight_inv_def lists_match_def by blast
  qed
  ultimately show ?thesis using b s(1,2) unfolding abandoned_def by simp
qed

lemma abandoned_run: "inflight_run t t' \<Longrightarrow> inflight_inv t \<Longrightarrow> abandoned k w t \<Longrightarrow> abandoned k w t'"
  by (erule inflight_states.kept) (auto simp: by_event_def intro: abandoned_step)

lemma blocked_run: "inflight_run t t' \<Longrightarrow> inflight_inv t \<Longrightarrow> blocked k t \<Longrightarrow> blocked k t'"
  by (erule inflight_states.kept) (auto simp: by_event_def intro: blocked_step)

text \<open>
  C37: A leader whose probe fails, or whose client hangs up, leaves its key in the table. From
  then on no request ever leads that key again: every later request joins a leader that is
  gone, and waits for ever, until its own client gives up.
\<close>

theorem failed_leader_blocks_key:
  assumes "inflight_run inflight_default t" "i < length (requests t)" "requests t ! i = Leading k"
    and "ev = Attempted i (Inl e) \<or> ev = Client_gone i" "inflight_step ev t = Some t1"
    and "inflight_run t1 t2" "inflight_step (Arrived k) t2 = Some t3" "inflight_run t3 t4"
  shows "requests t4 ! length (requests t2) \<in> {Waiting k, Dropped} \<and>
    (\<forall>j < length (requests t4). requests t4 ! j \<noteq> Leading k)"
proof -
  have inv: "inflight_inv t" by (rule inflight_run_inv [OF assms(1) inflight_inv_start])
  have only: "j = i" if "j < length (requests t)" "requests t ! j = Leading k" for j
    using inv that assms(2,3) unfolding inflight_inv_def one_leader_def by blast
  obtain ws where ws: "leaders t k = Some ws" using leading_listed [OF inv assms(2,3)] by blast
  obtain q where "requests t1 = (requests t)[i := q]" "leaders t1 = leaders t" "q \<noteq> Leading k"
    using assms(4)
  proof (elim disjE)
    assume "ev = Attempted i (Inl e)"
    with assms(2,3,5) show ?thesis by (intro that [of "Returned (Inl e)"]) auto
  next
    assume "ev = Client_gone i"
    with assms(2,3,5) show ?thesis by (intro that [of Dropped]) auto
  qed
  then have t1: "requests t1 = (requests t)[i := q]" "leaders t1 = leaders t" "q \<noteq> Leading k" by simp_all
  have "requests t1 ! j \<noteq> Leading k" if "j < length (requests t1)" for j
    using only [of j] that t1 by (cases "j = i") auto
  with ws t1(2) have "blocked k t1" by (simp add: blocked_def)
  moreover have inv1: "inflight_inv t1" by (rule inflight_step_inv [OF inv assms(5)])
  ultimately have b2: "blocked k t2" using blocked_run [OF assms(6)] by blast
  have inv2: "inflight_inv t2" by (rule inflight_run_inv [OF assms(6) inv1])
  from abandoned_arrival [OF inv2 b2 assms(7)] have "abandoned k (length (requests t2)) t4"
    using abandoned_run [OF assms(8)] inflight_step_inv [OF inv2 assms(7)] by blast
  then show ?thesis by (auto simp: abandoned_def blocked_def)
qed

theorem failed_leader_blocks_key_witness:
  "\<exists>t1 t3. inflight_step (Attempted 0 (Inl (UpstreamError SendFailed))) two_heads = Some t1 \<and>
     inflight_step (Arrived ''hf:a'') t1 = Some t3 \<and> requests t3 ! 2 \<in> {Waiting ''hf:a'', Dropped}"
proof -
  obtain t1 where t1: "inflight_step (Attempted 0 (Inl (UpstreamError SendFailed))) two_heads = Some t1"
    "length (requests t1) = 2" by (simp add: two_heads_def)
  obtain t3 where t3: "inflight_step (Arrived ''hf:a'') t1 = Some t3"
    by (cases "leaders t1 ''hf:a''") auto
  have "length (requests two_heads) = 2" "requests two_heads ! 0 = Leading ''hf:a''" by (simp_all add: two_heads_def)
  with failed_leader_blocks_key [OF two_heads_run _ _ _ t1(1) reach.run_start t3 reach.run_start] t1 t3
  show ?thesis by auto
qed

end
