(* ===== verification/Config.thy ===== *)
theory Config
  imports Storage
begin

text \<open>
  \<open>src/config.rs\<close> and \<open>src/daemon_cli.rs\<close>: the configuration of the daemon, put together from
  defaults, the first configuration file that exists, environment variables and command-line
  options. The machine is a record of what the process asks of it: environment variables, the
  directories the \<open>dirs\<close> crate finds, text files and directories. Paths are strings in the
  notation of Unix, without \<open>.\<close> components. The merging itself is the \<open>figment\<close> crate, a
  parameter; \<open>figment_merges\<close> states what its documentation promises of it.
\<close>

section \<open>The machine\<close>

datatype env_var = Var string | Var_not_present | Var_not_unicode

record host =
  h_vars :: "string \<Rightarrow> env_var"
  h_config_dir :: "string option"
  h_data_local_dir :: "string option"
  h_home_dir :: "string option"
  h_current_dir :: "string option"

record text_fs =
  t_files :: "string \<rightharpoonup> string"
  t_dirs :: "string set"
  t_denied :: "string \<Rightarrow> bool"

definition path_exists :: "text_fs \<Rightarrow> string \<Rightarrow> bool" where
  "path_exists fs p = (t_files fs p \<noteq> None \<or> p \<in> t_dirs fs)"

definition path_join :: "string \<Rightarrow> string \<Rightarrow> string" where
  "path_join a b =
     (if starts_with b ''/'' then b
      else if a = [] \<or> last a = CHR ''/'' then a @ b else a @ CHR ''/'' # b)"

definition trim_slashes :: "string \<Rightarrow> string" where
  "trim_slashes p = rev (dropWhile (\<lambda>c. c = CHR ''/'') (rev p))"

definition path_parent :: "string \<Rightarrow> string option" where
  "path_parent p =
     (let q = trim_slashes p
      in if q = [] then None
         else case rfind_char (CHR ''/'') q of
                None \<Rightarrow> Some []
              | Some n \<Rightarrow> (let r = trim_slashes (take n q) in Some (if r = [] then ''/'' else r)))"

definition ancestor_paths :: "string \<Rightarrow> string list" where
  "ancestor_paths p =
     map (\<lambda>n. take n p) (filter (\<lambda>n. n = length p \<or> p ! n = CHR ''/'') [1 ..< length p + 1])"

text \<open>\<open>std::fs::create_dir_all\<close>, \<open>File::create\<close> with \<open>write_all\<close>, and \<open>rename\<close>.\<close>

definition create_dir_all :: "string \<Rightarrow> text_fs \<Rightarrow> unit res \<times> text_fs" where
  "create_dir_all p fs =
     (if p = [] \<or> p \<in> t_dirs fs then (Inr (), fs)
      else if t_denied fs p then (Inl (ConfigError (FileUnreadable p)), fs)
      else (Inr (), fs\<lparr>t_dirs := t_dirs fs \<union> set (ancestor_paths p)\<rparr>))"

definition write_text :: "string \<Rightarrow> string \<Rightarrow> text_fs \<Rightarrow> unit res \<times> text_fs" where
  "write_text p s fs =
     (if t_denied fs p \<or> p \<in> t_dirs fs then (Inl (ConfigError (FileUnreadable p)), fs)
      else (Inr (), fs\<lparr>t_files := (t_files fs)(p \<mapsto> s)\<rparr>))"

definition moved_path :: "string \<Rightarrow> string \<Rightarrow> string \<Rightarrow> string" where
  "moved_path a b p =
     (if p = a then b else if starts_with p (a @ ''/'') then b @ drop (length a) p else p)"

definition rename_path :: "string \<Rightarrow> string \<Rightarrow> text_fs \<Rightarrow> unit res \<times> text_fs" where
  "rename_path a b fs =
     (if t_denied fs a \<or> t_denied fs b then (Inl (ConfigError (FileUnreadable a)), fs)
      else (Inr (), fs\<lparr>t_files := (\<lambda>p. if p = b \<or> starts_with p (b @ ''/'') then t_files fs (moved_path b a p)
                                 else if p = a \<or> starts_with p (a @ ''/'') then None else t_files fs p),
                       t_dirs := moved_path a b ` t_dirs fs\<rparr>))"

section \<open>The configuration\<close>

record storage_config =
  cs_backend :: string
  cs_local_root :: string
  cs_s3_bucket :: "string option"
  cs_s3_region :: "string option"
  cs_s3_prefix :: "string option"
  cs_s3_endpoint :: "string option"
  cs_compression :: compression
  cs_max_size :: "nat option"
  cs_prefetch_depth :: nat
  cs_prefetch_budget_base :: nat
  cs_verify_sha256 :: bool
  cs_etag_validation_timeout_secs :: nat
  cs_chunk_retries :: nat

record database_config =
  cd_path :: string

record server_config =
  cv_host :: string
  cv_port :: nat

record admin_config =
  ca_token :: "string option"
  ca_token_file :: string

record hf_config =
  ch_endpoint :: string
  ch_token :: "string option"
  ch_proxy :: "string option"
  ch_timeout_secs :: nat
  ch_connect_timeout_secs :: nat

record ms_config =
  cm_endpoint :: string
  cm_token :: "string option"
  cm_proxy :: "string option"
  cm_timeout_secs :: nat
  cm_connect_timeout_secs :: nat

record config =
  c_storage :: storage_config
  c_database :: database_config
  c_server :: server_config
  c_admin :: admin_config
  c_huggingface :: hf_config
  c_modelscope :: ms_config

definition app_dir :: "host \<Rightarrow> string \<Rightarrow> string" where
  "app_dir h base =
     (if \<not> starts_with base ''/''
      then path_join (path_join (case h_current_dir h of None \<Rightarrow> [] | Some d \<Rightarrow> d) base) ''hugrs''
      else path_join base ''hugrs'')"

definition fallback_home_dir :: "host \<Rightarrow> string list \<Rightarrow> string" where
  "fallback_home_dir h segments =
     fold (\<lambda>segment path. path_join path segment) segments
       (case h_home_dir h of None \<Rightarrow> ''.'' | Some d \<Rightarrow> d)"

definition app_config_dir :: "host \<Rightarrow> string" where
  "app_config_dir h =
     app_dir h (case h_config_dir h of None \<Rightarrow> fallback_home_dir h [''.config''] | Some d \<Rightarrow> d)"

definition app_data_dir :: "host \<Rightarrow> string" where
  "app_data_dir h =
     app_dir h (case h_data_local_dir h of None \<Rightarrow> fallback_home_dir h [''.local'', ''share''] | Some d \<Rightarrow> d)"

definition default_local_root :: "host \<Rightarrow> string" where
  "default_local_root h = path_join (app_data_dir h) ''chunks''"

definition default_db_path :: "host \<Rightarrow> string" where
  "default_db_path h = path_join (app_data_dir h) ''hugrs.db''"

definition default_admin_token_file_path :: "host \<Rightarrow> string" where
  "default_admin_token_file_path h = path_join (app_data_dir h) ''admin.token''"

definition storage_default :: "host \<Rightarrow> storage_config" where
  "storage_default h =
     \<lparr>cs_backend = ''local'', cs_local_root = default_local_root h, cs_s3_bucket = None, cs_s3_region = None,
      cs_s3_prefix = None, cs_s3_endpoint = None, cs_compression = compression_default, cs_max_size = None,
      cs_prefetch_depth = 0, cs_prefetch_budget_base = 8, cs_verify_sha256 = True,
      cs_etag_validation_timeout_secs = 5, cs_chunk_retries = 3\<rparr>"

definition hf_default :: hf_config where
  "hf_default = \<lparr>ch_endpoint = ''https://huggingface.co'', ch_token = None, ch_proxy = None,
     ch_timeout_secs = 60, ch_connect_timeout_secs = 15\<rparr>"

definition ms_default :: ms_config where
  "ms_default = \<lparr>cm_endpoint = ''https://modelscope.cn'', cm_token = None, cm_proxy = None,
     cm_timeout_secs = 60, cm_connect_timeout_secs = 15\<rparr>"

definition config_default :: "host \<Rightarrow> config" where
  "config_default h =
     \<lparr>c_storage = storage_default h, c_database = \<lparr>cd_path = default_db_path h\<rparr>,
      c_server = \<lparr>cv_host = ''127.0.0.1'', cv_port = 3000\<rparr>,
      c_admin = \<lparr>ca_token = None, ca_token_file = default_admin_token_file_path h\<rparr>,
      c_huggingface = hf_default, c_modelscope = ms_default\<rparr>"

section \<open>Command line\<close>

record cli_overrides =
  o_db_path :: "string option"
  o_storage_backend :: "string option"
  o_local_root :: "string option"
  o_s3_bucket :: "string option"
  o_s3_region :: "string option"
  o_s3_prefix :: "string option"
  o_s3_endpoint :: "string option"
  o_server_host :: "string option"
  o_server_port :: "nat option"
  o_hf_endpoint :: "string option"
  o_hf_token :: "string option"
  o_hf_proxy :: "string option"
  o_hf_timeout :: "nat option"
  o_hf_connect_timeout :: "nat option"
  o_ms_endpoint :: "string option"
  o_ms_token :: "string option"
  o_ms_proxy :: "string option"
  o_ms_timeout :: "nat option"
  o_ms_connect_timeout :: "nat option"
  o_admin_token :: "string option"
  o_admin_token_file :: "string option"
  o_config_file :: "string option"
  o_compression :: "string option"
  o_max_size :: "nat option"
  o_prefetch_depth :: "nat option"
  o_prefetch_budget_base :: "nat option"
  o_enable_sha256_verify :: "bool option"
  o_etag_validation_timeout_secs :: "nat option"
  o_chunk_retries :: "nat option"

record daemon_cli =
  d_config_file :: "string option"
  d_db_path :: "string option"
  d_storage_backend :: "string option"
  d_local_root :: "string option"
  d_s3_bucket :: "string option"
  d_s3_region :: "string option"
  d_s3_prefix :: "string option"
  d_s3_endpoint :: "string option"
  d_server_host :: "string option"
  d_server_port :: "nat option"
  d_hf_endpoint :: "string option"
  d_hf_token :: "string option"
  d_hf_proxy :: "string option"
  d_hf_timeout :: "nat option"
  d_hf_connect_timeout :: "nat option"
  d_ms_endpoint :: "string option"
  d_ms_token :: "string option"
  d_ms_proxy :: "string option"
  d_ms_timeout :: "nat option"
  d_ms_connect_timeout :: "nat option"
  d_admin_token :: "string option"
  d_admin_token_file :: "string option"
  d_compression :: "string option"
  d_max_size :: "nat option"
  d_prefetch_depth :: "nat option"
  d_prefetch_budget_base :: "nat option"
  d_enable_sha256_verify :: "bool option"
  d_etag_validation_timeout_secs :: "nat option"
  d_chunk_retries :: "nat option"

definition overrides :: "daemon_cli \<Rightarrow> cli_overrides" where
  "overrides cli =
     \<lparr>o_db_path = d_db_path cli,
      o_storage_backend = d_storage_backend cli,
      o_local_root = d_local_root cli,
      o_s3_bucket = d_s3_bucket cli,
      o_s3_region = d_s3_region cli,
      o_s3_prefix = d_s3_prefix cli,
      o_s3_endpoint = d_s3_endpoint cli,
      o_server_host = d_server_host cli,
      o_server_port = d_server_port cli,
      o_hf_endpoint = d_hf_endpoint cli,
      o_hf_token = d_hf_token cli,
      o_hf_proxy = d_hf_proxy cli,
      o_hf_timeout = d_hf_timeout cli,
      o_hf_connect_timeout = d_hf_connect_timeout cli,
      o_ms_endpoint = d_ms_endpoint cli,
      o_ms_token = d_ms_token cli,
      o_ms_proxy = d_ms_proxy cli,
      o_ms_timeout = d_ms_timeout cli,
      o_ms_connect_timeout = d_ms_connect_timeout cli,
      o_admin_token = d_admin_token cli,
      o_admin_token_file = d_admin_token_file cli,
      o_config_file = d_config_file cli,
      o_compression = d_compression cli,
      o_max_size = d_max_size cli,
      o_prefetch_depth = d_prefetch_depth cli,
      o_prefetch_budget_base = d_prefetch_budget_base cli,
      o_enable_sha256_verify = d_enable_sha256_verify cli,
      o_etag_validation_timeout_secs = d_etag_validation_timeout_secs cli,
      o_chunk_retries = d_chunk_retries cli\<rparr>"

definition config_paths :: "host \<Rightarrow> cli_overrides \<Rightarrow> string list" where
  "config_paths h v =
     (case o_config_file v of
        Some path \<Rightarrow> [path]
      | None \<Rightarrow> [''hugrs.toml'', path_join (app_config_dir h) ''hugrs.toml'', ''/etc/hugrs/hugrs.toml''])"

section \<open>Patches\<close>

record storage_patch =
  ps_backend :: "string option"
  ps_local_root :: "string option"
  ps_s3_bucket :: "string option"
  ps_s3_region :: "string option"
  ps_s3_prefix :: "string option"
  ps_s3_endpoint :: "string option"
  ps_compression :: "compression option"
  ps_max_size :: "nat option"
  ps_prefetch_depth :: "nat option"
  ps_prefetch_budget_base :: "nat option"
  ps_verify_sha256 :: "bool option"
  ps_etag_validation_timeout_secs :: "nat option"
  ps_chunk_retries :: "nat option"

record database_patch =
  pd_path :: "string option"

record server_patch =
  pv_host :: "string option"
  pv_port :: "nat option"

record admin_patch =
  pa_token :: "string option"
  pa_token_file :: "string option"

record hf_patch =
  ph_endpoint :: "string option"
  ph_token :: "string option"
  ph_proxy :: "string option"
  ph_timeout_secs :: "nat option"
  ph_connect_timeout_secs :: "nat option"

record ms_patch =
  pm_endpoint :: "string option"
  pm_token :: "string option"
  pm_proxy :: "string option"
  pm_timeout_secs :: "nat option"
  pm_connect_timeout_secs :: "nat option"

record config_patch =
  p_storage :: "storage_patch option"
  p_database :: "database_patch option"
  p_server :: "server_patch option"
  p_admin :: "admin_patch option"
  p_huggingface :: "hf_patch option"
  p_modelscope :: "ms_patch option"

definition has_any :: "bool list \<Rightarrow> bool" where
  "has_any values = list_ex (\<lambda>value. value) values"

definition storage_is_empty :: "storage_patch \<Rightarrow> bool" where
  "storage_is_empty v =
     (\<not> has_any [ps_backend v \<noteq> None,
        ps_local_root v \<noteq> None,
        ps_s3_bucket v \<noteq> None,
        ps_s3_region v \<noteq> None,
        ps_s3_prefix v \<noteq> None,
        ps_s3_endpoint v \<noteq> None,
        ps_compression v \<noteq> None,
        ps_max_size v \<noteq> None,
        ps_prefetch_depth v \<noteq> None,
        ps_prefetch_budget_base v \<noteq> None,
        ps_verify_sha256 v \<noteq> None,
        ps_etag_validation_timeout_secs v \<noteq> None,
        ps_chunk_retries v \<noteq> None])"

definition server_is_empty :: "server_patch \<Rightarrow> bool" where
  "server_is_empty v =
     (\<not> has_any [pv_host v \<noteq> None,
        pv_port v \<noteq> None])"

definition admin_is_empty :: "admin_patch \<Rightarrow> bool" where
  "admin_is_empty v =
     (\<not> has_any [pa_token v \<noteq> None,
        pa_token_file v \<noteq> None])"

definition hf_is_empty :: "hf_patch \<Rightarrow> bool" where
  "hf_is_empty v =
     (\<not> has_any [ph_endpoint v \<noteq> None,
        ph_token v \<noteq> None,
        ph_proxy v \<noteq> None,
        ph_timeout_secs v \<noteq> None,
        ph_connect_timeout_secs v \<noteq> None])"

definition ms_is_empty :: "ms_patch \<Rightarrow> bool" where
  "ms_is_empty v =
     (\<not> has_any [pm_endpoint v \<noteq> None,
        pm_token v \<noteq> None,
        pm_proxy v \<noteq> None,
        pm_timeout_secs v \<noteq> None,
        pm_connect_timeout_secs v \<noteq> None])"

definition cli_storage :: "cli_overrides \<Rightarrow> storage_patch option res" where
  "cli_storage v =
     (if has_any [o_storage_backend v \<noteq> None,
          o_local_root v \<noteq> None,
          o_s3_bucket v \<noteq> None,
          o_s3_region v \<noteq> None,
          o_s3_prefix v \<noteq> None,
          o_s3_endpoint v \<noteq> None,
          o_compression v \<noteq> None,
          o_max_size v \<noteq> None,
          o_prefetch_depth v \<noteq> None,
          o_prefetch_budget_base v \<noteq> None,
          o_enable_sha256_verify v \<noteq> None,
          o_etag_validation_timeout_secs v \<noteq> None,
          o_chunk_retries v \<noteq> None]
      then res_bind (case o_compression v of Some value \<Rightarrow> res_bind (compression_from_str value) (\<lambda>c. Inr (Some c))
                     | None \<Rightarrow> Inr None) (\<lambda>comp.
        Inr (Some
          \<lparr>ps_backend = o_storage_backend v,
           ps_local_root = o_local_root v,
           ps_s3_bucket = o_s3_bucket v,
           ps_s3_region = o_s3_region v,
           ps_s3_prefix = o_s3_prefix v,
           ps_s3_endpoint = o_s3_endpoint v,
           ps_compression = comp,
           ps_max_size = o_max_size v,
           ps_prefetch_depth = o_prefetch_depth v,
           ps_prefetch_budget_base = o_prefetch_budget_base v,
           ps_verify_sha256 = o_enable_sha256_verify v,
           ps_etag_validation_timeout_secs = o_etag_validation_timeout_secs v,
           ps_chunk_retries = o_chunk_retries v\<rparr>))
      else Inr None)"

definition cli_patch :: "cli_overrides \<Rightarrow> config_patch res" where
  "cli_patch v =
     res_bind (cli_storage v) (\<lambda>storage. Inr
       \<lparr>p_storage = storage,
        p_database =
          (if o_db_path v \<noteq> None
           then Some \<lparr>pd_path = o_db_path v\<rparr>
           else None),
        p_server =
          (if has_any [o_server_host v \<noteq> None,
          o_server_port v \<noteq> None]
           then Some \<lparr>pv_host = o_server_host v,
             pv_port = o_server_port v\<rparr>
           else None),
        p_admin =
          (if has_any [o_admin_token v \<noteq> None,
          o_admin_token_file v \<noteq> None]
           then Some \<lparr>pa_token = o_admin_token v,
             pa_token_file = o_admin_token_file v\<rparr>
           else None),
        p_huggingface =
          (if has_any [o_hf_endpoint v \<noteq> None,
          o_hf_token v \<noteq> None,
          o_hf_proxy v \<noteq> None,
          o_hf_timeout v \<noteq> None,
          o_hf_connect_timeout v \<noteq> None]
           then Some \<lparr>ph_endpoint = o_hf_endpoint v,
             ph_token = o_hf_token v,
             ph_proxy = o_hf_proxy v,
             ph_timeout_secs = o_hf_timeout v,
             ph_connect_timeout_secs = o_hf_connect_timeout v\<rparr>
           else None),
        p_modelscope =
          (if has_any [o_ms_endpoint v \<noteq> None,
          o_ms_token v \<noteq> None,
          o_ms_proxy v \<noteq> None,
          o_ms_timeout v \<noteq> None,
          o_ms_connect_timeout v \<noteq> None]
           then Some \<lparr>pm_endpoint = o_ms_endpoint v,
             pm_token = o_ms_token v,
             pm_proxy = o_ms_proxy v,
             pm_timeout_secs = o_ms_timeout v,
             pm_connect_timeout_secs = o_ms_connect_timeout v\<rparr>
           else None)\<rparr>)"

section \<open>The environment\<close>

definition env_string :: "host \<Rightarrow> string \<Rightarrow> string option" where
  "env_string h key = (case h_vars h key of Var s \<Rightarrow> Some s | _ \<Rightarrow> None)"

definition env_path :: "host \<Rightarrow> string \<Rightarrow> string option" where
  "env_path h key = env_string h key"

definition env_parsed :: "(string \<Rightarrow> 'a res) \<Rightarrow> host \<Rightarrow> string \<Rightarrow> 'a option res" where
  "env_parsed parse h key =
     (case h_vars h key of
        Var value \<Rightarrow>
          (case parse value of
             Inl _ \<Rightarrow> Inl (ConfigError (EnvParseFailed key))
           | Inr x \<Rightarrow> Inr (Some x))
      | Var_not_present \<Rightarrow> Inr None
      | Var_not_unicode \<Rightarrow> Inl (ConfigError (EnvNotUnicode key)))"

definition parse_int :: "nat \<Rightarrow> string \<Rightarrow> nat res" where
  "parse_int w s =
     (case parse_unsigned w s of None \<Rightarrow> Inl (ConfigError (EnvParseFailed s)) | Some n \<Rightarrow> Inr n)"

definition parse_bool :: "string \<Rightarrow> bool res" where
  "parse_bool s =
     (if s = ''true'' then Inr True else if s = ''false'' then Inr False
      else Inl (ConfigError (EnvParseFailed s)))"

definition parse_compression :: "string \<Rightarrow> compression res" where
  "parse_compression = compression_from_str"

definition env_storage :: "host \<Rightarrow> storage_patch option res" where
  "env_storage h =
     res_bind (env_parsed parse_compression h ''HUGRS_COMPRESSION'') (\<lambda>v_compression.
     res_bind (env_parsed (parse_int 64) h ''HUGRS_MAX_SIZE'') (\<lambda>v_max_size.
     res_bind (env_parsed (parse_int 64) h ''HUGRS_PREFETCH_DEPTH'') (\<lambda>v_prefetch_depth.
     res_bind (env_parsed (parse_int 64) h ''HUGRS_PREFETCH_BUDGET_BASE'') (\<lambda>v_prefetch_budget_base.
     res_bind (env_parsed parse_bool h ''HUGRS_VERIFY_SHA256'') (\<lambda>v_verify_sha256.
     res_bind (env_parsed (parse_int 64) h ''HUGRS_ETAG_VALIDATION_TIMEOUT'') (\<lambda>v_etag_validation_timeout_secs.
     res_bind (env_parsed (parse_int 32) h ''HUGRS_CHUNK_RETRIES'') (\<lambda>v_chunk_retries.
     (let p =
       \<lparr>ps_backend = env_string h ''HUGRS_STORAGE_BACKEND'',
        ps_local_root = env_path h ''HUGRS_LOCAL_ROOT'',
        ps_s3_bucket = env_string h ''HUGRS_S3_BUCKET'',
        ps_s3_region = env_string h ''HUGRS_S3_REGION'',
        ps_s3_prefix = env_string h ''HUGRS_S3_PREFIX'',
        ps_s3_endpoint = env_string h ''HUGRS_S3_ENDPOINT'',
        ps_compression = v_compression,
        ps_max_size = v_max_size,
        ps_prefetch_depth = v_prefetch_depth,
        ps_prefetch_budget_base = v_prefetch_budget_base,
        ps_verify_sha256 = v_verify_sha256,
        ps_etag_validation_timeout_secs = v_etag_validation_timeout_secs,
        ps_chunk_retries = v_chunk_retries\<rparr>
      in Inr (if storage_is_empty p then None else Some p)))))))))"

definition env_database :: "host \<Rightarrow> database_patch option res" where
  "env_database h =
     (let p =
       \<lparr>pd_path = env_path h ''HUGRS_DB_PATH''\<rparr>
      in Inr (if pd_path p = None then None else Some p))"

definition env_server :: "host \<Rightarrow> server_patch option res" where
  "env_server h =
     res_bind (env_parsed (parse_int 16) h ''HUGRS_SERVER_PORT'') (\<lambda>v_port.
     (let p =
       \<lparr>pv_host = env_string h ''HUGRS_SERVER_HOST'',
        pv_port = v_port\<rparr>
      in Inr (if server_is_empty p then None else Some p)))"

definition env_admin :: "host \<Rightarrow> admin_patch option res" where
  "env_admin h =
     (let p =
       \<lparr>pa_token = env_string h ''HUGRS_ADMIN_TOKEN'',
        pa_token_file = env_path h ''HUGRS_ADMIN_TOKEN_FILE''\<rparr>
      in Inr (if admin_is_empty p then None else Some p))"

definition env_hf :: "host \<Rightarrow> hf_patch option res" where
  "env_hf h =
     res_bind (env_parsed (parse_int 64) h ''HUGRS_HF_TIMEOUT'') (\<lambda>v_timeout_secs.
     res_bind (env_parsed (parse_int 64) h ''HUGRS_HF_CONNECT_TIMEOUT'') (\<lambda>v_connect_timeout_secs.
     (let p =
       \<lparr>ph_endpoint = env_string h ''HUGRS_HF_ENDPOINT'',
        ph_token = env_string h ''HUGRS_HF_TOKEN'',
        ph_proxy = env_string h ''HUGRS_HF_PROXY'',
        ph_timeout_secs = v_timeout_secs,
        ph_connect_timeout_secs = v_connect_timeout_secs\<rparr>
      in Inr (if hf_is_empty p then None else Some p))))"

definition env_ms :: "host \<Rightarrow> ms_patch option res" where
  "env_ms h =
     res_bind (env_parsed (parse_int 64) h ''HUGRS_MS_TIMEOUT'') (\<lambda>v_timeout_secs.
     res_bind (env_parsed (parse_int 64) h ''HUGRS_MS_CONNECT_TIMEOUT'') (\<lambda>v_connect_timeout_secs.
     (let p =
       \<lparr>pm_endpoint = env_string h ''HUGRS_MS_ENDPOINT'',
        pm_token = env_string h ''HUGRS_MS_TOKEN'',
        pm_proxy = env_string h ''HUGRS_MS_PROXY'',
        pm_timeout_secs = v_timeout_secs,
        pm_connect_timeout_secs = v_connect_timeout_secs\<rparr>
      in Inr (if ms_is_empty p then None else Some p))))"

definition env_patch :: "host \<Rightarrow> config_patch res" where
  "env_patch h =
     res_bind (env_storage h) (\<lambda>storage.
     res_bind (env_database h) (\<lambda>database.
     res_bind (env_server h) (\<lambda>server.
     res_bind (env_admin h) (\<lambda>admin.
     res_bind (env_hf h) (\<lambda>huggingface.
     res_bind (env_ms h) (\<lambda>modelscope.
     Inr \<lparr>p_storage = storage, p_database = database, p_server = server, p_admin = admin, p_huggingface = huggingface, p_modelscope = modelscope\<rparr>))))))"

section \<open>Loading\<close>

definition take_val :: "'a option \<Rightarrow> 'a \<Rightarrow> 'a" where
  "take_val p c = (case p of None \<Rightarrow> c | Some v \<Rightarrow> v)"

definition take_opt :: "'a option \<Rightarrow> 'a option \<Rightarrow> 'a option" where
  "take_opt p c = (case p of None \<Rightarrow> c | Some v \<Rightarrow> Some v)"

text \<open>A configuration with the values of a patch put over it.\<close>

definition overlay_storage :: "storage_patch option \<Rightarrow> storage_config \<Rightarrow> storage_config" where
  "overlay_storage p c =
     (case p of None \<Rightarrow> c
      | Some v \<Rightarrow> \<lparr>cs_backend = take_val (ps_backend v) (cs_backend c),
          cs_local_root = take_val (ps_local_root v) (cs_local_root c),
          cs_s3_bucket = take_opt (ps_s3_bucket v) (cs_s3_bucket c),
          cs_s3_region = take_opt (ps_s3_region v) (cs_s3_region c),
          cs_s3_prefix = take_opt (ps_s3_prefix v) (cs_s3_prefix c),
          cs_s3_endpoint = take_opt (ps_s3_endpoint v) (cs_s3_endpoint c),
          cs_compression = take_val (ps_compression v) (cs_compression c),
          cs_max_size = take_opt (ps_max_size v) (cs_max_size c),
          cs_prefetch_depth = take_val (ps_prefetch_depth v) (cs_prefetch_depth c),
          cs_prefetch_budget_base = take_val (ps_prefetch_budget_base v) (cs_prefetch_budget_base c),
          cs_verify_sha256 = take_val (ps_verify_sha256 v) (cs_verify_sha256 c),
          cs_etag_validation_timeout_secs = take_val (ps_etag_validation_timeout_secs v) (cs_etag_validation_timeout_secs c),
          cs_chunk_retries = take_val (ps_chunk_retries v) (cs_chunk_retries c)\<rparr>)"

definition overlay_database :: "database_patch option \<Rightarrow> database_config \<Rightarrow> database_config" where
  "overlay_database p c =
     (case p of None \<Rightarrow> c
      | Some v \<Rightarrow> \<lparr>cd_path = take_val (pd_path v) (cd_path c)\<rparr>)"

definition overlay_server :: "server_patch option \<Rightarrow> server_config \<Rightarrow> server_config" where
  "overlay_server p c =
     (case p of None \<Rightarrow> c
      | Some v \<Rightarrow> \<lparr>cv_host = take_val (pv_host v) (cv_host c),
          cv_port = take_val (pv_port v) (cv_port c)\<rparr>)"

definition overlay_admin :: "admin_patch option \<Rightarrow> admin_config \<Rightarrow> admin_config" where
  "overlay_admin p c =
     (case p of None \<Rightarrow> c
      | Some v \<Rightarrow> \<lparr>ca_token = take_opt (pa_token v) (ca_token c),
          ca_token_file = take_val (pa_token_file v) (ca_token_file c)\<rparr>)"

definition overlay_hf :: "hf_patch option \<Rightarrow> hf_config \<Rightarrow> hf_config" where
  "overlay_hf p c =
     (case p of None \<Rightarrow> c
      | Some v \<Rightarrow> \<lparr>ch_endpoint = take_val (ph_endpoint v) (ch_endpoint c),
          ch_token = take_opt (ph_token v) (ch_token c),
          ch_proxy = take_opt (ph_proxy v) (ch_proxy c),
          ch_timeout_secs = take_val (ph_timeout_secs v) (ch_timeout_secs c),
          ch_connect_timeout_secs = take_val (ph_connect_timeout_secs v) (ch_connect_timeout_secs c)\<rparr>)"

definition overlay_ms :: "ms_patch option \<Rightarrow> ms_config \<Rightarrow> ms_config" where
  "overlay_ms p c =
     (case p of None \<Rightarrow> c
      | Some v \<Rightarrow> \<lparr>cm_endpoint = take_val (pm_endpoint v) (cm_endpoint c),
          cm_token = take_opt (pm_token v) (cm_token c),
          cm_proxy = take_opt (pm_proxy v) (cm_proxy c),
          cm_timeout_secs = take_val (pm_timeout_secs v) (cm_timeout_secs c),
          cm_connect_timeout_secs = take_val (pm_connect_timeout_secs v) (cm_connect_timeout_secs c)\<rparr>)"

definition overlay :: "config_patch \<Rightarrow> config \<Rightarrow> config" where
  "overlay p c =
     \<lparr>c_storage = overlay_storage (p_storage p) (c_storage c),
      c_database = overlay_database (p_database p) (c_database c),
      c_server = overlay_server (p_server p) (c_server c),
      c_admin = overlay_admin (p_admin p) (c_admin c),
      c_huggingface = overlay_hf (p_huggingface p) (c_huggingface c),
      c_modelscope = overlay_ms (p_modelscope p) (c_modelscope c)\<rparr>"

text \<open>
  \<open>Figment::from(defaults).merge(file).merge(environment).merge(options).extract()\<close> for the file
  that was found, if any. Its documentation promises that a later layer wins, key by key; a
  file that is not a configuration is an error. \<open>toml\<close> is the content of a file as a patch.
\<close>

type_synonym figment = "config \<Rightarrow> string option \<Rightarrow> config_patch \<Rightarrow> config_patch \<Rightarrow> config res"

definition figment_merges :: "figment \<Rightarrow> (string \<Rightarrow> config_patch res) \<Rightarrow> bool" where
  "figment_merges fig toml =
     (\<forall>d e c. fig d None e c = Inr (overlay c (overlay e d)) \<and>
        (\<forall>p. fig d (Some p) e c = res_bind (toml p) (\<lambda>f. Inr (overlay c (overlay e (overlay f d))))))"

definition load :: "figment \<Rightarrow> host \<Rightarrow> cli_overrides \<Rightarrow> text_fs \<Rightarrow> config res \<times> text_fs" where
  "load fig h v fs =
     (case res_bind (env_patch h) (\<lambda>e. res_bind (cli_patch v) (\<lambda>c.
             fig (config_default h) (find (path_exists fs) (config_paths h v)) e c)) of
        Inl e \<Rightarrow> (Inl e, fs)
      | Inr config \<Rightarrow>
          let root = cs_local_root (c_storage config)
          in if cs_backend (c_storage config) = ''local'' \<and> \<not> path_exists fs root
             then case path_parent root of
                    None \<Rightarrow> (Inr config, fs)
                  | Some parent \<Rightarrow>
                      let legacy = path_join parent ''trunks''
                      in if path_exists fs legacy
                         then case rename_path legacy root fs of
                                (Inl e, fs') \<Rightarrow> (Inl e, fs')
                              | (Inr _, fs') \<Rightarrow> (Inr config, fs')
                         else (Inr config, fs)
             else (Inr config, fs))"

section \<open>The admin token\<close>

text \<open>
  \<open>ensure_admin_token\<close>, with the process id and the nanoseconds of the clock, or \<open>None\<close> for a clock
  before the epoch. The result holds the token, the configuration and the files.
\<close>

definition with_token :: "string \<Rightarrow> config \<Rightarrow> config" where
  "with_token t c = c\<lparr>c_admin := (c_admin c)\<lparr>ca_token := Some t\<rparr>\<rparr>"

definition generated_token :: "nat \<Rightarrow> nat \<Rightarrow> string" where
  "generated_token pid nanos = ''hugrs-'' @ show_nat pid @ ''-'' @ show_nat nanos"

definition ensure_admin_token ::
  "nat \<Rightarrow> nat option \<Rightarrow> config \<Rightarrow> text_fs \<Rightarrow> string res \<times> config \<times> text_fs" where
  "ensure_admin_token pid clock c fs =
     (case ca_token (c_admin c) of
        Some token \<Rightarrow> (Inr token, c, fs)
      | None \<Rightarrow>
          let path = ca_token_file (c_admin c);
              token = (case t_files fs path of None \<Rightarrow> [] | Some s \<Rightarrow> trim s)
          in if token \<noteq> [] then (Inr token, with_token token c, fs)
             else case (case path_parent path of None \<Rightarrow> (Inr (), fs) | Some parent \<Rightarrow> create_dir_all parent fs) of
                    (Inl e, fs1) \<Rightarrow> (Inl e, c, fs1)
                  | (Inr _, fs1) \<Rightarrow>
                      (case clock of
                         None \<Rightarrow> (Inl (ConfigError (EnvParseFailed ''clock'')), c, fs1)
                       | Some nanos \<Rightarrow>
                           let fresh = generated_token pid nanos
                           in case write_text path fresh fs1 of
                                (Inl e, fs2) \<Rightarrow> (Inl e, c, fs2)
                              | (Inr _, fs2) \<Rightarrow> (Inr fresh, with_token fresh c, fs2)))"

end
