(* ===== verification/Config_Props.thy ===== *)
theory Config_Props
  imports Config
begin

text \<open>
  The properties of the configuration: the value of every setting after \<open>load\<close>, what makes
  loading fail, and the life of the admin token.
\<close>

section \<open>Precedence\<close>

text \<open>
  The reference: each setting on its own. A command-line option wins over the environment
  variable of the setting, which wins over what the file and the defaults say. A variable
  whose value cannot be read does not count here; \<open>load\<close> fails on it.
\<close>

definition env_value :: "(string \<Rightarrow> 'a res) \<Rightarrow> host \<Rightarrow> string \<Rightarrow> 'a option" where
  "env_value parse h key =
     (case h_vars h key of
        Var value \<Rightarrow> (case parse value of Inl _ \<Rightarrow> None | Inr x \<Rightarrow> Some x)
      | _ \<Rightarrow> None)"

definition parse_compression_opt :: "string \<Rightarrow> compression option" where
  "parse_compression_opt s = (case compression_from_str s of Inl _ \<Rightarrow> None | Inr c \<Rightarrow> Some c)"


definition effective_storage :: "cli_overrides \<Rightarrow> host \<Rightarrow> config \<Rightarrow> storage_config" where
  "effective_storage v h c =
     \<lparr>cs_backend = take_val (o_storage_backend v) (take_val (env_string h ''HUGRS_STORAGE_BACKEND'') (cs_backend (c_storage c))),
      cs_local_root = take_val (o_local_root v) (take_val (env_path h ''HUGRS_LOCAL_ROOT'') (cs_local_root (c_storage c))),
      cs_s3_bucket = take_opt (o_s3_bucket v) (take_opt (env_string h ''HUGRS_S3_BUCKET'') (cs_s3_bucket (c_storage c))),
      cs_s3_region = take_opt (o_s3_region v) (take_opt (env_string h ''HUGRS_S3_REGION'') (cs_s3_region (c_storage c))),
      cs_s3_prefix = take_opt (o_s3_prefix v) (take_opt (env_string h ''HUGRS_S3_PREFIX'') (cs_s3_prefix (c_storage c))),
      cs_s3_endpoint = take_opt (o_s3_endpoint v) (take_opt (env_string h ''HUGRS_S3_ENDPOINT'') (cs_s3_endpoint (c_storage c))),
      cs_compression = take_val (Option.bind (o_compression v) parse_compression_opt) (take_val (env_value parse_compression h ''HUGRS_COMPRESSION'') (cs_compression (c_storage c))),
      cs_max_size = take_opt (o_max_size v) (take_opt (env_value (parse_int 64) h ''HUGRS_MAX_SIZE'') (cs_max_size (c_storage c))),
      cs_prefetch_depth = take_val (o_prefetch_depth v) (take_val (env_value (parse_int 64) h ''HUGRS_PREFETCH_DEPTH'') (cs_prefetch_depth (c_storage c))),
      cs_prefetch_budget_base = take_val (o_prefetch_budget_base v) (take_val (env_value (parse_int 64) h ''HUGRS_PREFETCH_BUDGET_BASE'') (cs_prefetch_budget_base (c_storage c))),
      cs_verify_sha256 = take_val (o_enable_sha256_verify v) (take_val (env_value parse_bool h ''HUGRS_VERIFY_SHA256'') (cs_verify_sha256 (c_storage c))),
      cs_etag_validation_timeout_secs = take_val (o_etag_validation_timeout_secs v) (take_val (env_value (parse_int 64) h ''HUGRS_ETAG_VALIDATION_TIMEOUT'') (cs_etag_validation_timeout_secs (c_storage c))),
      cs_chunk_retries = take_val (o_chunk_retries v) (take_val (env_value (parse_int 32) h ''HUGRS_CHUNK_RETRIES'') (cs_chunk_retries (c_storage c)))\<rparr>"

definition effective_database :: "cli_overrides \<Rightarrow> host \<Rightarrow> config \<Rightarrow> database_config" where
  "effective_database v h c =
     \<lparr>cd_path = take_val (o_db_path v) (take_val (env_path h ''HUGRS_DB_PATH'') (cd_path (c_database c)))\<rparr>"

definition effective_server :: "cli_overrides \<Rightarrow> host \<Rightarrow> config \<Rightarrow> server_config" where
  "effective_server v h c =
     \<lparr>cv_host = take_val (o_server_host v) (take_val (env_string h ''HUGRS_SERVER_HOST'') (cv_host (c_server c))),
      cv_port = take_val (o_server_port v) (take_val (env_value (parse_int 16) h ''HUGRS_SERVER_PORT'') (cv_port (c_server c)))\<rparr>"

definition effective_admin :: "cli_overrides \<Rightarrow> host \<Rightarrow> config \<Rightarrow> admin_config" where
  "effective_admin v h c =
     \<lparr>ca_token = take_opt (o_admin_token v) (take_opt (env_string h ''HUGRS_ADMIN_TOKEN'') (ca_token (c_admin c))),
      ca_token_file = take_val (o_admin_token_file v) (take_val (env_path h ''HUGRS_ADMIN_TOKEN_FILE'') (ca_token_file (c_admin c)))\<rparr>"

definition effective_hf :: "cli_overrides \<Rightarrow> host \<Rightarrow> config \<Rightarrow> hf_config" where
  "effective_hf v h c =
     \<lparr>ch_endpoint = take_val (o_hf_endpoint v) (take_val (env_string h ''HUGRS_HF_ENDPOINT'') (ch_endpoint (c_huggingface c))),
      ch_token = take_opt (o_hf_token v) (take_opt (env_string h ''HUGRS_HF_TOKEN'') (ch_token (c_huggingface c))),
      ch_proxy = take_opt (o_hf_proxy v) (take_opt (env_string h ''HUGRS_HF_PROXY'') (ch_proxy (c_huggingface c))),
      ch_timeout_secs = take_val (o_hf_timeout v) (take_val (env_value (parse_int 64) h ''HUGRS_HF_TIMEOUT'') (ch_timeout_secs (c_huggingface c))),
      ch_connect_timeout_secs = take_val (o_hf_connect_timeout v) (take_val (env_value (parse_int 64) h ''HUGRS_HF_CONNECT_TIMEOUT'') (ch_connect_timeout_secs (c_huggingface c)))\<rparr>"

definition effective_ms :: "cli_overrides \<Rightarrow> host \<Rightarrow> config \<Rightarrow> ms_config" where
  "effective_ms v h c =
     \<lparr>cm_endpoint = take_val (o_ms_endpoint v) (take_val (env_string h ''HUGRS_MS_ENDPOINT'') (cm_endpoint (c_modelscope c))),
      cm_token = take_opt (o_ms_token v) (take_opt (env_string h ''HUGRS_MS_TOKEN'') (cm_token (c_modelscope c))),
      cm_proxy = take_opt (o_ms_proxy v) (take_opt (env_string h ''HUGRS_MS_PROXY'') (cm_proxy (c_modelscope c))),
      cm_timeout_secs = take_val (o_ms_timeout v) (take_val (env_value (parse_int 64) h ''HUGRS_MS_TIMEOUT'') (cm_timeout_secs (c_modelscope c))),
      cm_connect_timeout_secs = take_val (o_ms_connect_timeout v) (take_val (env_value (parse_int 64) h ''HUGRS_MS_CONNECT_TIMEOUT'') (cm_connect_timeout_secs (c_modelscope c)))\<rparr>"

definition effective :: "cli_overrides \<Rightarrow> host \<Rightarrow> config \<Rightarrow> config" where
  "effective v h c =
     \<lparr>c_storage = effective_storage v h c,
      c_database = effective_database v h c,
      c_server = effective_server v h c,
      c_admin = effective_admin v h c,
      c_huggingface = effective_hf v h c,
      c_modelscope = effective_ms v h c\<rparr>"

lemma take_simps [simp]:
  "take_val None c = c" "take_val (Some v) c = v" "take_opt None c' = c'" "take_opt (Some v') c' = Some v'"
  by (simp_all add: take_val_def take_opt_def)

lemma has_any_iff [simp]: "has_any bs \<longleftrightarrow> True \<in> set bs"
  by (auto simp: has_any_def list_ex_iff)

lemma env_parsed_value: "env_parsed parse h key = Inr v \<Longrightarrow> v = env_value parse h key"
  by (auto simp: env_parsed_def env_value_def split: env_var.splits sum.splits)

text \<open>What a patch from the command line, and one from the environment, does to a section.\<close>

lemma cli_storage_overlay:
  assumes "cli_storage v = Inr p"
  shows "overlay_storage p c = \<lparr>cs_backend = take_val (o_storage_backend v) (cs_backend c), cs_local_root = take_val (o_local_root v) (cs_local_root c), cs_s3_bucket = take_opt (o_s3_bucket v) (cs_s3_bucket c), cs_s3_region = take_opt (o_s3_region v) (cs_s3_region c), cs_s3_prefix = take_opt (o_s3_prefix v) (cs_s3_prefix c), cs_s3_endpoint = take_opt (o_s3_endpoint v) (cs_s3_endpoint c), cs_compression = take_val (Option.bind (o_compression v) parse_compression_opt) (cs_compression c), cs_max_size = take_opt (o_max_size v) (cs_max_size c), cs_prefetch_depth = take_val (o_prefetch_depth v) (cs_prefetch_depth c), cs_prefetch_budget_base = take_val (o_prefetch_budget_base v) (cs_prefetch_budget_base c), cs_verify_sha256 = take_val (o_enable_sha256_verify v) (cs_verify_sha256 c), cs_etag_validation_timeout_secs = take_val (o_etag_validation_timeout_secs v) (cs_etag_validation_timeout_secs c), cs_chunk_retries = take_val (o_chunk_retries v) (cs_chunk_retries c)\<rparr>"
  using assms
  by (cases c) (auto simp: cli_storage_def overlay_storage_def res_bind_Inr_iff parse_compression_opt_def
      split: if_splits option.splits)

lemma cli_database_overlay:
  assumes "cli_patch v = Inr p"
  shows "overlay_database (p_database p) c = \<lparr>cd_path = take_val (o_db_path v) (cd_path c)\<rparr>"
  using assms
  by (cases c) (auto simp: cli_patch_def overlay_database_def res_bind_Inr_iff)

lemma cli_server_overlay:
  assumes "cli_patch v = Inr p"
  shows "overlay_server (p_server p) c = \<lparr>cv_host = take_val (o_server_host v) (cv_host c), cv_port = take_val (o_server_port v) (cv_port c)\<rparr>"
  using assms
  by (cases c) (auto simp: cli_patch_def overlay_server_def res_bind_Inr_iff)

lemma cli_admin_overlay:
  assumes "cli_patch v = Inr p"
  shows "overlay_admin (p_admin p) c = \<lparr>ca_token = take_opt (o_admin_token v) (ca_token c), ca_token_file = take_val (o_admin_token_file v) (ca_token_file c)\<rparr>"
  using assms
  by (cases c) (auto simp: cli_patch_def overlay_admin_def res_bind_Inr_iff)

lemma cli_hf_overlay:
  assumes "cli_patch v = Inr p"
  shows "overlay_hf (p_huggingface p) c = \<lparr>ch_endpoint = take_val (o_hf_endpoint v) (ch_endpoint c), ch_token = take_opt (o_hf_token v) (ch_token c), ch_proxy = take_opt (o_hf_proxy v) (ch_proxy c), ch_timeout_secs = take_val (o_hf_timeout v) (ch_timeout_secs c), ch_connect_timeout_secs = take_val (o_hf_connect_timeout v) (ch_connect_timeout_secs c)\<rparr>"
  using assms
  by (cases c) (auto simp: cli_patch_def overlay_hf_def res_bind_Inr_iff)

lemma cli_ms_overlay:
  assumes "cli_patch v = Inr p"
  shows "overlay_ms (p_modelscope p) c = \<lparr>cm_endpoint = take_val (o_ms_endpoint v) (cm_endpoint c), cm_token = take_opt (o_ms_token v) (cm_token c), cm_proxy = take_opt (o_ms_proxy v) (cm_proxy c), cm_timeout_secs = take_val (o_ms_timeout v) (cm_timeout_secs c), cm_connect_timeout_secs = take_val (o_ms_connect_timeout v) (cm_connect_timeout_secs c)\<rparr>"
  using assms
  by (cases c) (auto simp: cli_patch_def overlay_ms_def res_bind_Inr_iff)

lemma env_storage_overlay:
  assumes "env_storage h = Inr p"
  shows "overlay_storage p c = \<lparr>cs_backend = take_val (env_string h ''HUGRS_STORAGE_BACKEND'') (cs_backend c), cs_local_root = take_val (env_path h ''HUGRS_LOCAL_ROOT'') (cs_local_root c), cs_s3_bucket = take_opt (env_string h ''HUGRS_S3_BUCKET'') (cs_s3_bucket c), cs_s3_region = take_opt (env_string h ''HUGRS_S3_REGION'') (cs_s3_region c), cs_s3_prefix = take_opt (env_string h ''HUGRS_S3_PREFIX'') (cs_s3_prefix c), cs_s3_endpoint = take_opt (env_string h ''HUGRS_S3_ENDPOINT'') (cs_s3_endpoint c), cs_compression = take_val (env_value parse_compression h ''HUGRS_COMPRESSION'') (cs_compression c), cs_max_size = take_opt (env_value (parse_int 64) h ''HUGRS_MAX_SIZE'') (cs_max_size c), cs_prefetch_depth = take_val (env_value (parse_int 64) h ''HUGRS_PREFETCH_DEPTH'') (cs_prefetch_depth c), cs_prefetch_budget_base = take_val (env_value (parse_int 64) h ''HUGRS_PREFETCH_BUDGET_BASE'') (cs_prefetch_budget_base c), cs_verify_sha256 = take_val (env_value parse_bool h ''HUGRS_VERIFY_SHA256'') (cs_verify_sha256 c), cs_etag_validation_timeout_secs = take_val (env_value (parse_int 64) h ''HUGRS_ETAG_VALIDATION_TIMEOUT'') (cs_etag_validation_timeout_secs c), cs_chunk_retries = take_val (env_value (parse_int 32) h ''HUGRS_CHUNK_RETRIES'') (cs_chunk_retries c)\<rparr>"
  using assms
  by (cases c) (auto simp: env_storage_def overlay_storage_def storage_is_empty_def res_bind_Inr_iff Let_def
      dest!: env_parsed_value split: if_splits)

lemma env_database_overlay:
  assumes "env_database h = Inr p"
  shows "overlay_database p c = \<lparr>cd_path = take_val (env_path h ''HUGRS_DB_PATH'') (cd_path c)\<rparr>"
  using assms
  by (cases c) (auto simp: env_database_def overlay_database_def  res_bind_Inr_iff Let_def
      dest!: env_parsed_value split: if_splits)

lemma env_server_overlay:
  assumes "env_server h = Inr p"
  shows "overlay_server p c = \<lparr>cv_host = take_val (env_string h ''HUGRS_SERVER_HOST'') (cv_host c), cv_port = take_val (env_value (parse_int 16) h ''HUGRS_SERVER_PORT'') (cv_port c)\<rparr>"
  using assms
  by (cases c) (auto simp: env_server_def overlay_server_def server_is_empty_def res_bind_Inr_iff Let_def
      dest!: env_parsed_value split: if_splits)

lemma env_admin_overlay:
  assumes "env_admin h = Inr p"
  shows "overlay_admin p c = \<lparr>ca_token = take_opt (env_string h ''HUGRS_ADMIN_TOKEN'') (ca_token c), ca_token_file = take_val (env_path h ''HUGRS_ADMIN_TOKEN_FILE'') (ca_token_file c)\<rparr>"
  using assms
  by (cases c) (auto simp: env_admin_def overlay_admin_def admin_is_empty_def res_bind_Inr_iff Let_def
      dest!: env_parsed_value split: if_splits)

lemma env_hf_overlay:
  assumes "env_hf h = Inr p"
  shows "overlay_hf p c = \<lparr>ch_endpoint = take_val (env_string h ''HUGRS_HF_ENDPOINT'') (ch_endpoint c), ch_token = take_opt (env_string h ''HUGRS_HF_TOKEN'') (ch_token c), ch_proxy = take_opt (env_string h ''HUGRS_HF_PROXY'') (ch_proxy c), ch_timeout_secs = take_val (env_value (parse_int 64) h ''HUGRS_HF_TIMEOUT'') (ch_timeout_secs c), ch_connect_timeout_secs = take_val (env_value (parse_int 64) h ''HUGRS_HF_CONNECT_TIMEOUT'') (ch_connect_timeout_secs c)\<rparr>"
  using assms
  by (cases c) (auto simp: env_hf_def overlay_hf_def hf_is_empty_def res_bind_Inr_iff Let_def
      dest!: env_parsed_value split: if_splits)

lemma env_ms_overlay:
  assumes "env_ms h = Inr p"
  shows "overlay_ms p c = \<lparr>cm_endpoint = take_val (env_string h ''HUGRS_MS_ENDPOINT'') (cm_endpoint c), cm_token = take_opt (env_string h ''HUGRS_MS_TOKEN'') (cm_token c), cm_proxy = take_opt (env_string h ''HUGRS_MS_PROXY'') (cm_proxy c), cm_timeout_secs = take_val (env_value (parse_int 64) h ''HUGRS_MS_TIMEOUT'') (cm_timeout_secs c), cm_connect_timeout_secs = take_val (env_value (parse_int 64) h ''HUGRS_MS_CONNECT_TIMEOUT'') (cm_connect_timeout_secs c)\<rparr>"
  using assms
  by (cases c) (auto simp: env_ms_def overlay_ms_def ms_is_empty_def res_bind_Inr_iff Let_def
      dest!: env_parsed_value split: if_splits)

lemma overlays_are_effective:
  assumes "cli_patch v = Inr pc" "env_patch h = Inr pe"
  shows "overlay pc (overlay pe c) = effective v h c"
proof -
  have "cli_storage v = Inr (p_storage pc)" using assms(1) by (auto simp: cli_patch_def res_bind_Inr_iff)
  note cli = cli_storage_overlay [OF this] cli_database_overlay [OF assms(1)] cli_server_overlay [OF assms(1)]
    cli_admin_overlay [OF assms(1)] cli_hf_overlay [OF assms(1)] cli_ms_overlay [OF assms(1)]
  have e: "env_storage h = Inr (p_storage pe)" "env_database h = Inr (p_database pe)" "env_server h = Inr (p_server pe)"
    "env_admin h = Inr (p_admin pe)" "env_hf h = Inr (p_huggingface pe)" "env_ms h = Inr (p_modelscope pe)"
    using assms(2) by (auto simp: env_patch_def res_bind_Inr_iff)
  note env = env_storage_overlay [OF e(1)] env_database_overlay [OF e(2)] env_server_overlay [OF e(3)]
    env_admin_overlay [OF e(4)] env_hf_overlay [OF e(5)] env_ms_overlay [OF e(6)]
  show ?thesis
    unfolding overlay_def effective_def config.simps cli env
    by (simp add: effective_storage_def effective_database_def effective_server_def effective_admin_def
        effective_hf_def effective_ms_def)
qed

lemma load_config:
  assumes "load fig h v fs = (Inr c, fs')"
  obtains pe pc where "env_patch h = Inr pe" "cli_patch v = Inr pc"
    "fig (config_default h) (find (path_exists fs) (config_paths h v)) pe pc = Inr c"
  using assms by (auto simp: load_def res_iff Let_def split: sum.splits if_splits option.splits prod.splits)

definition checked_vars :: "(string \<times> (string \<Rightarrow> bool)) list" where
  "checked_vars =
     [(''HUGRS_COMPRESSION'', \<lambda>s. is_ok (parse_compression s)),
      (''HUGRS_MAX_SIZE'', \<lambda>s. is_ok ((parse_int 64) s)),
      (''HUGRS_PREFETCH_DEPTH'', \<lambda>s. is_ok ((parse_int 64) s)),
      (''HUGRS_PREFETCH_BUDGET_BASE'', \<lambda>s. is_ok ((parse_int 64) s)),
      (''HUGRS_VERIFY_SHA256'', \<lambda>s. is_ok (parse_bool s)),
      (''HUGRS_ETAG_VALIDATION_TIMEOUT'', \<lambda>s. is_ok ((parse_int 64) s)),
      (''HUGRS_CHUNK_RETRIES'', \<lambda>s. is_ok ((parse_int 32) s)),
      (''HUGRS_SERVER_PORT'', \<lambda>s. is_ok ((parse_int 16) s)),
      (''HUGRS_HF_TIMEOUT'', \<lambda>s. is_ok ((parse_int 64) s)),
      (''HUGRS_HF_CONNECT_TIMEOUT'', \<lambda>s. is_ok ((parse_int 64) s)),
      (''HUGRS_MS_TIMEOUT'', \<lambda>s. is_ok ((parse_int 64) s)),
      (''HUGRS_MS_CONNECT_TIMEOUT'', \<lambda>s. is_ok ((parse_int 64) s))]"

definition var_valid :: "host \<Rightarrow> string \<times> (string \<Rightarrow> bool) \<Rightarrow> bool" where
  "var_valid h kp = (case h_vars h (fst kp) of Var s \<Rightarrow> snd kp s | Var_not_present \<Rightarrow> True | Var_not_unicode \<Rightarrow> False)"

lemma env_parsed_valid: "is_ok (env_parsed parse h key) = var_valid h (key, \<lambda>s. is_ok (parse s))"
  by (auto simp: env_parsed_def var_valid_def split: env_var.split sum.split)

lemma is_ok_bind: "is_ok (res_bind m f) \<longleftrightarrow> is_ok m \<and> (\<forall>x. m = Inr x \<longrightarrow> is_ok (f x))"
  by (cases m) auto

lemma ex_ok: "(\<exists>x. m = Inr x) = is_ok m"
  by (simp add: is_ok_iff)

lemma env_section_ok:
  "is_ok (env_storage h) \<longleftrightarrow> var_valid h (checked_vars ! 0) \<and> var_valid h (checked_vars ! 1) \<and>
     var_valid h (checked_vars ! 2) \<and> var_valid h (checked_vars ! 3) \<and> var_valid h (checked_vars ! 4) \<and>
     var_valid h (checked_vars ! 5) \<and> var_valid h (checked_vars ! 6)"
  "is_ok (env_database h)" "is_ok (env_server h) \<longleftrightarrow> var_valid h (checked_vars ! 7)" "is_ok (env_admin h)"
  "is_ok (env_hf h) \<longleftrightarrow> var_valid h (checked_vars ! 8) \<and> var_valid h (checked_vars ! 9)"
  "is_ok (env_ms h) \<longleftrightarrow> var_valid h (checked_vars ! 10) \<and> var_valid h (checked_vars ! 11)"
  by (simp_all add: env_storage_def env_database_def env_server_def env_admin_def env_hf_def env_ms_def
      is_ok_bind ex_ok Let_def env_parsed_valid checked_vars_def cong: conj_cong)

lemma env_patch_ok: "is_ok (env_patch h) \<longleftrightarrow> (\<forall>kp \<in> set checked_vars. var_valid h kp)"
  by (simp add: env_patch_def is_ok_bind ex_ok env_section_ok checked_vars_def cong: conj_cong)

text \<open>
  C9: After a successful load every setting has the value of its command-line option, else
  that of its environment variable, else that of the first configuration file that exists,
  else its default: the configuration is the one that sets each of the thirty keys on its own.
\<close>

theorem load_is_effective:
  assumes "figment_merges fig toml" "load fig h v fs = (Inr c, fs')"
  shows "\<exists>base. (case find (path_exists fs) (config_paths h v) of
      None \<Rightarrow> base = config_default h
    | Some p \<Rightarrow> \<exists>f. toml p = Inr f \<and> base = overlay f (config_default h)) \<and>
    c = effective v h base"
proof -
  obtain pe pc where p: "env_patch h = Inr pe" "cli_patch v = Inr pc"
    and c: "fig (config_default h) (find (path_exists fs) (config_paths h v)) pe pc = Inr c"
    using assms(2) by (rule load_config)
  note over = overlays_are_effective [OF p(2,1)]
  show ?thesis
    using c assms(1) over by (cases "find (path_exists fs) (config_paths h v)")
      (auto simp: figment_merges_def res_bind_Inr_iff)
qed

definition layered :: figment where
  "layered d p e c = (case p of None \<Rightarrow> Inr (overlay c (overlay e d))
     | Some _ \<Rightarrow> Inl (ConfigError (FileUnreadable [])))"

definition no_files :: "string \<Rightarrow> config_patch res" where
  "no_files p = Inl (ConfigError (FileUnreadable []))"

definition sample_host :: host where
  "sample_host = \<lparr>h_vars = (\<lambda>k. if k = ''HUGRS_SERVER_PORT'' then Var ''4000''
       else if k = ''HUGRS_SERVER_HOST'' then Var ''0.0.0.0'' else Var_not_present),
     h_config_dir = Some ''/c'', h_data_local_dir = Some ''/d'', h_home_dir = None, h_current_dir = None\<rparr>"

definition no_overrides :: cli_overrides where
  "no_overrides = overrides \<lparr>d_config_file = None, d_db_path = None, d_storage_backend = None, d_local_root = None, d_s3_bucket = None, d_s3_region = None, d_s3_prefix = None, d_s3_endpoint = None, d_server_host = None, d_server_port = None, d_hf_endpoint = None, d_hf_token = None, d_hf_proxy = None, d_hf_timeout = None, d_hf_connect_timeout = None, d_ms_endpoint = None, d_ms_token = None, d_ms_proxy = None, d_ms_timeout = None, d_ms_connect_timeout = None, d_admin_token = None, d_admin_token_file = None, d_compression = None, d_max_size = None, d_prefetch_depth = None, d_prefetch_budget_base = None, d_enable_sha256_verify = None, d_etag_validation_timeout_secs = None, d_chunk_retries = None\<rparr>"

definition port_override :: cli_overrides where
  "port_override = no_overrides\<lparr>o_server_port := Some 5000\<rparr>"

definition sample_fs :: text_fs where
  "sample_fs = \<lparr>t_files = Map.empty, t_dirs = {''/d/hugrs/chunks''}, t_denied = (\<lambda>_. False)\<rparr>"

lemma layered_merges: "figment_merges layered no_files"
  by (simp add: figment_merges_def layered_def no_files_def)

lemma sample_paths: "find (path_exists sample_fs) (config_paths sample_host port_override) = None"
  by (simp add: config_paths_def port_override_def no_overrides_def overrides_def path_exists_def sample_fs_def
      app_config_dir_def app_dir_def sample_host_def path_join_def starts_with_def)

lemma sample_env: "is_ok (env_patch sample_host)"
  unfolding env_patch_ok by (simp add: checked_vars_def var_valid_def sample_host_def parse_int_def
      parse_unsigned_def digit_val_def)

lemma sample_cli: "is_ok (cli_patch port_override)"
  by (simp add: cli_patch_def cli_storage_def port_override_def no_overrides_def overrides_def)

abbreviation sample_config :: config where
  "sample_config \<equiv> effective port_override sample_host (config_default sample_host)"

lemma sample_load_eq: "load layered sample_host port_override sample_fs = (Inr sample_config, sample_fs)"
proof -
  obtain pe pc where p: "env_patch sample_host = Inr pe" "cli_patch port_override = Inr pc"
    using sample_env sample_cli by (auto simp: is_ok_iff)
  let ?c = "effective port_override sample_host (config_default sample_host)"
  have "cs_local_root (c_storage ?c) = ''/d/hugrs/chunks''"
    by (simp add: effective_def effective_storage_def port_override_def no_overrides_def overrides_def sample_host_def
        env_path_def env_string_def config_default_def storage_default_def default_local_root_def app_data_dir_def
        app_dir_def path_join_def starts_with_def)
  then have "path_exists sample_fs (cs_local_root (c_storage ?c))" by (simp add: path_exists_def sample_fs_def)
  with p sample_paths overlays_are_effective [OF p(2,1), of "config_default sample_host"] show ?thesis
    by (simp add: load_def layered_def Let_def)
qed

lemma sample_load: "\<exists>c. load layered sample_host port_override sample_fs = (Inr c, sample_fs)"
  using sample_load_eq by blast

theorem load_is_effective_witness:
  "\<exists>c. load layered sample_host port_override sample_fs = (Inr c, sample_fs) \<and>
     cv_port (c_server c) = 5000 \<and> cv_host (c_server c) = ''0.0.0.0'' \<and>
     ch_endpoint (c_huggingface c) = ''https://huggingface.co''"
proof -
  obtain c where c: "load layered sample_host port_override sample_fs = (Inr c, sample_fs)" using sample_load by blast
  from load_is_effective [OF layered_merges c] sample_paths
  have "c = effective port_override sample_host (config_default sample_host)" by simp
  with c show ?thesis
    by (simp add: effective_def effective_server_def effective_hf_def port_override_def no_overrides_def overrides_def
        sample_host_def env_string_def env_value_def config_default_def hf_default_def)
qed

section \<open>Invalid settings\<close>

text \<open>
  A setting of the environment that does not parse, or is not Unicode, stops the daemon
  whatever the command line says about that setting: \<open>load\<close> fails and changes no file.
\<close>

theorem invalid_variable_stops_load:
  assumes "kp \<in> set checked_vars" "\<not> var_valid h kp"
  shows "\<exists>e. load fig h v fs = (Inl e, fs)"
proof -
  have "\<not> is_ok (env_patch h)" using assms env_patch_ok by blast
  then obtain e where "env_patch h = Inl e" by (cases "env_patch h") auto
  then show ?thesis by (simp add: load_def)
qed

theorem invalid_variable_stops_load_witness:
  "\<exists>e. load layered (sample_host\<lparr>h_vars := (\<lambda>k. if k = ''HUGRS_SERVER_PORT'' then Var ''70000'' else Var_not_present)\<rparr>)
     port_override sample_fs = (Inl e, sample_fs)"
  by (rule invalid_variable_stops_load [of "checked_vars ! 7"])
    (simp_all add: checked_vars_def var_valid_def parse_int_def parse_unsigned_def digit_val_def)



section \<open>The admin token\<close>

lemma trim_id:
  assumes "s \<noteq> []" "\<not> is_space (hd s)" "\<not> is_space (last s)"
  shows "trim s = s"
  using assms dropWhile_eq_self_iff [of is_space s] dropWhile_eq_self_iff [of is_space "rev s"]
  by (simp add: trim_def hd_rev)

lemma trim_nonempty_ends:
  assumes "trim s \<noteq> []"
  shows "\<not> is_space (hd (trim s))" "\<not> is_space (last (trim s))"
proof -
  define u where "u = dropWhile is_space s"
  define v where "v = dropWhile is_space (rev u)"
  have t: "trim s = rev v" by (simp add: trim_def u_def v_def)
  with assms have v: "v \<noteq> []" by simp
  then have "last (rev u) = last v" unfolding v_def
    by (metis dropWhile_eq_drop last_drop length_drop length_greater_0_conv zero_less_diff)
  moreover have u: "u \<noteq> []" using v by (auto simp: v_def)
  ultimately have "last v = hd u" by (simp add: last_rev)
  moreover have "\<not> is_space (hd u)" using u unfolding u_def by (rule hd_dropWhile)
  moreover have "\<not> is_space (hd v)" using v unfolding v_def by (rule hd_dropWhile)
  ultimately show "\<not> is_space (hd (trim s))" "\<not> is_space (last (trim s))"
    using t v by (simp_all add: hd_rev last_rev)
qed

lemma trim_trim [simp]: "trim (trim s) = trim s"
proof (cases "trim s = []")
  case True
  then show ?thesis by (simp only: True) (simp add: trim_def)
next
  case False
  with trim_id [OF False] trim_nonempty_ends show ?thesis by simp
qed

lemma digit_no_space: "digit_val c \<noteq> None \<Longrightarrow> \<not> is_space c"
  by (auto simp: is_space_def digit_val_def)

lemma generated_trim: "trim (generated_token pid nanos) = generated_token pid nanos"
proof (rule trim_id)
  have "last (show_nat nanos) \<in> set (show_nat nanos)" by simp
  then have "\<not> is_space (last (show_nat nanos))" by (intro digit_no_space show_nat_digits)
  then show "\<not> is_space (last (generated_token pid nanos))" by (simp add: generated_token_def)
qed (simp_all add: generated_token_def is_space_def)

lemma admin_token_file_holds:
  assumes "ensure_admin_token pid clock c fs = (Inr t, c', fs')"
  shows "ca_token (c_admin c') = Some t \<and>
    (ca_token (c_admin c) = None \<longrightarrow> (\<exists>s. t_files fs' (ca_token_file (c_admin c)) = Some s \<and> trim s = t \<and> t \<noteq> []))"
proof (cases "ca_token (c_admin c)")
  case (Some t0)
  with assms show ?thesis by (simp add: ensure_admin_token_def)
next
  case None
  let ?path = "ca_token_file (c_admin c)"
  have "\<exists>s. t_files fs' ?path = Some s \<and> trim s = t \<and> t \<noteq> []"
    using assms None generated_trim
    by (auto simp: ensure_admin_token_def Let_def write_text_def generated_token_def
        split: option.splits if_splits prod.splits sum.splits)
  moreover have "ca_token (c_admin c') = Some t"
    using assms None
    by (auto simp: ensure_admin_token_def Let_def with_token_def split: option.splits if_splits prod.splits sum.splits)
  ultimately show ?thesis by simp
qed

lemma sample_token:
  "\<exists>c' fs'. ensure_admin_token 42 (Some 7) (config_default sample_host) sample_fs = (Inr ''hugrs-42-7'', c', fs')"
proof -
  have n: "show_nat 42 = ''42''" "show_nat 7 = ''7''" by code_simp+
  show ?thesis
    by (simp add: ensure_admin_token_def config_default_def sample_fs_def Let_def create_dir_all_def write_text_def
        generated_token_def n default_admin_token_file_path_def app_data_dir_def app_dir_def sample_host_def path_join_def
        path_parent_def trim_slashes_def starts_with_def ancestor_paths_def)
qed

text \<open>
  The admin token is stable. Once \<open>ensure_admin_token\<close> has returned a token, a restart with
  the same settings returns it again, whatever the process id and the clock, and touches no
  file; if no token was configured, the token file holds it.
\<close>

theorem admin_token_stable:
  assumes "ensure_admin_token pid clock c fs = (Inr t, c', fs')"
  shows "ca_token (c_admin c') = Some t \<and>
    (\<exists>c''. ensure_admin_token pid2 clock2 c fs' = (Inr t, c'', fs') \<and> ca_token (c_admin c'') = Some t) \<and>
    (ca_token (c_admin c) = None \<longrightarrow> (\<exists>s. t_files fs' (ca_token_file (c_admin c)) = Some s \<and> trim s = t \<and> t \<noteq> []))"
proof (cases "ca_token (c_admin c)")
  case (Some t0)
  with assms show ?thesis by (simp add: ensure_admin_token_def)
next
  case None
  with admin_token_file_holds [OF assms] show ?thesis
    by (auto simp: ensure_admin_token_def Let_def with_token_def)
qed

theorem admin_token_stable_witness:
  "\<exists>t c' fs' c''. ensure_admin_token 42 (Some 7) (config_default sample_host) sample_fs = (Inr t, c', fs') \<and>
     t = ''hugrs-42-7'' \<and> ensure_admin_token 43 None (config_default sample_host) fs' = (Inr t, c'', fs')"
proof -
  obtain c' fs' where e: "ensure_admin_token 42 (Some 7) (config_default sample_host) sample_fs = (Inr ''hugrs-42-7'', c', fs')"
    using sample_token by blast
  from admin_token_stable [OF e, of 43 None] e show ?thesis by blast
qed

end
