(* ===== verification/Control.thy ===== *)
theory Control
  imports Config Upstream
begin

text \<open>
  The administration interface: the records of \<open>src/control.rs\<close>, and in \<open>src/server.rs\<close> the check
  of the admin token, the grouping of files by name and the handlers of the routes under
  \<open>/_hugrs\<close>. The values that the handlers return as JSON are the records themselves. A handler
  acts on the database and the store; \<open>now\<close> is the time its statements see.
\<close>

section \<open>State and errors\<close>

record 's app_state =
  as_config :: config
  as_admin_token :: string
  as_backend :: "'s backend"
  as_service :: service_config
  as_version :: string
  as_fetched :: nat
  as_served :: nat

datatype app_error = App_anyhow anyhow | Unauthorized | Not_found string

type_synonym 'a app_res = "app_error + 'a"

text \<open>The conversion \<open>From<anyhow::Error>\<close>, and \<open>?\<close> in a handler.\<close>

definition app :: "'a res \<Rightarrow> 'a app_res" where
  "app r = (case r of Inl e \<Rightarrow> Inl (App_anyhow e) | Inr x \<Rightarrow> Inr x)"

definition app_bind :: "'a app_res \<Rightarrow> ('a \<Rightarrow> 'b app_res) \<Rightarrow> 'b app_res" where
  "app_bind m f = (case m of Inl e \<Rightarrow> Inl e | Inr x \<Rightarrow> f x)"

text \<open>\<open>iter().map(f).collect::<Result<Vec<_>, _>>()\<close>: the first error, or all values.\<close>

fun app_map :: "('a \<Rightarrow> 'b app_res) \<Rightarrow> 'a list \<Rightarrow> 'b list app_res" where
  "app_map f [] = Inr []"
| "app_map f (x # xs) = app_bind (f x) (\<lambda>y. app_bind (app_map f xs) (\<lambda>ys. Inr (y # ys)))"

text \<open>\<open>into_response\<close>: the status and the message of the body; \<open>show_error\<close> displays an error.\<close>

definition into_response :: "(anyhow \<Rightarrow> string) \<Rightarrow> app_error \<Rightarrow> nat \<times> string" where
  "into_response show_error e =
     (case e of
        App_anyhow err \<Rightarrow> (500, show_error err)
      | Unauthorized \<Rightarrow> (401, ''unauthorized'')
      | Not_found message \<Rightarrow> (404, message))"

definition require_admin :: "headers \<Rightarrow> 's app_state \<Rightarrow> unit app_res" where
  "require_admin hs st =
     (case header_str hs ''authorization'' of
        None \<Rightarrow> Inl Unauthorized
      | Some value \<Rightarrow>
          if value = ''Bearer '' @ as_admin_token st then Inr () else Inl Unauthorized)"

section \<open>Records\<close>

record cache_info =
  ci_db_path :: string
  ci_root :: string
  ci_max_size :: "nat option"

record source_info =
  si_enabled :: bool
  si_endpoint :: string

record sources_info =
  si_hf :: source_info
  si_ms :: source_info

record auth_info =
  au_configured :: bool
  au_token_file :: string

record service_status_response =
  ss_version :: string
  ss_status :: string
  ss_endpoint :: string
  ss_cache :: cache_info
  ss_sources :: sources_info
  ss_auth :: auth_info

record service_stats_response =
  st_repos :: int
  st_files :: int
  st_logical :: int
  st_stored :: int
  st_saved :: int
  st_saved_percent :: f64
  st_fetched :: nat
  st_served :: nat

record file_list_item =
  fi_repo :: string
  fi_file :: string
  fi_sources :: "string list"
  fi_size :: int
  fi_downloaded :: int
  fi_complete :: bool
  fi_content_type :: "string option"
  fi_last_accessed :: string

record repo_list_item =
  ri_repo :: string
  ri_sources :: "string list"
  ri_files :: nat
  ri_logical :: int
  ri_downloaded :: int
  ri_last_accessed :: string

record repo_list_response =
  rl_items :: "repo_list_item list"
  rl_total :: nat

record repo_show_response = repo_list_item +
  rs_items :: "file_list_item list"

record file_list_response =
  fl_items :: "file_list_item list"
  fl_total :: nat

text \<open>A \<open>FileShowResponse\<close> has the fields of a \<open>FileListItem\<close>.\<close>

type_synonym file_show_response = file_list_item

record delete_response =
  de_deleted :: bool
  de_files :: nat
  de_sources :: "string list"

record gc_request =
  gr_dry_run :: bool
  gr_batch_size :: "nat option"

record reconcile_request =
  rr_dry_run :: bool

record gc_preview_response =
  gp_chunks :: nat
  gp_bytes :: nat

record gc_result_response =
  gx_deleted :: nat
  gx_reclaimed :: nat
  gx_skipped :: nat
  gx_more :: bool

record reconcile_response =
  rc_scanned :: nat
  rc_mismatched :: nat
  rc_fixed :: nat
  rc_marked :: nat
  rc_cleared :: nat

record source_query =
  sq_source :: "string option"

record file_query =
  fq_repo :: string
  fq_file :: string
  fq_source :: "string option"

text \<open>The body of an answer, one constructor per type that a handler returns.\<close>

datatype control_body =
    is_Body_status: Body_status service_status_response
  | is_Body_stats: Body_stats service_stats_response
  | is_Body_gc_preview: Body_gc_preview gc_preview_response
  | is_Body_gc_result: Body_gc_result gc_result_response
  | is_Body_reconcile: Body_reconcile reconcile_response
  | is_Body_repos: Body_repos repo_list_response
  | is_Body_repo: Body_repo repo_show_response
  | is_Body_deleted: Body_deleted delete_response
  | is_Body_files: Body_files file_list_response
  | is_Body_file: Body_file file_show_response

section \<open>Grouping files\<close>

text \<open>A \<open>BTreeMap\<close> from keys to the files that have them, as its list of entries.\<close>

definition group_files :: "(file_row \<Rightarrow> 'k :: linorder) \<Rightarrow> file_row list \<Rightarrow> ('k \<times> file_row list) list" where
  "group_files key fs = map (\<lambda>k. (k, filter (\<lambda>f. key f = k) fs)) (sort (remdups (map key fs)))"

text \<open>\<open>iter().max().unwrap_or(default)\<close>\<close>

definition max_or :: "'a :: linorder \<Rightarrow> 'a list \<Rightarrow> 'a" where
  "max_or dflt xs = (case xs of [] \<Rightarrow> dflt | x # ys \<Rightarrow> fold max ys x)"

text \<open>\<open>iter().sum()\<close> of \<open>i64\<close> values, which wraps.\<close>

definition i64_sum :: "int list \<Rightarrow> int" where
  "i64_sum xs = sint (word_of_int (sum_list xs) :: 64 word)"

definition max_downloaded :: "db \<Rightarrow> file_row list \<Rightarrow> int app_res" where
  "max_downloaded d entries =
     app_bind (app_map (\<lambda>f. app (get_file_downloaded_size (f_id f) d)) entries) (\<lambda>sizes.
       Inr (max_or 0 sizes))"

definition aggregate_one :: "db \<Rightarrow> (string \<times> string) \<times> file_row list \<Rightarrow> file_list_item app_res" where
  "aggregate_one d g =
     (case g of ((repo, name), entries) \<Rightarrow>
        app_bind (max_downloaded d entries) (\<lambda>downloaded_size.
          let first = hd entries
          in Inr \<lparr>fi_repo = repo, fi_file = name, fi_sources = map f_source entries,
                  fi_size = f_total_size first, fi_downloaded = downloaded_size,
                  fi_complete = (downloaded_size \<ge> f_total_size first),
                  fi_content_type = f_content_type first,
                  fi_last_accessed = max_or [] (map f_last_accessed entries)\<rparr>))"

definition aggregate_files :: "db \<Rightarrow> file_row list \<Rightarrow> file_list_item list app_res" where
  "aggregate_files d fs = app_map (aggregate_one d) (group_files (\<lambda>f. (f_repo f, f_name f)) fs)"

text \<open>The sources of a list of files as a \<open>BTreeSet\<close>.\<close>

definition source_set :: "file_row list \<Rightarrow> string list" where
  "source_set fs = sort (remdups (map f_source fs))"

section \<open>Handlers\<close>

definition endpoint_of :: "server_config \<Rightarrow> string" where
  "endpoint_of c = ''http://'' @ cv_host c @ '':'' @ show_nat (cv_port c)"

definition control_service_status :: "'s app_state \<Rightarrow> headers \<Rightarrow> service_status_response app_res" where
  "control_service_status st hs =
     app_bind (require_admin hs st) (\<lambda>_.
       let c = as_config st
       in Inr \<lparr>ss_version = as_version st, ss_status = ''ok'', ss_endpoint = endpoint_of (c_server c),
          ss_cache = \<lparr>ci_db_path = cd_path (c_database c), ci_root = cs_local_root (c_storage c),
                      ci_max_size = cs_max_size (c_storage c)\<rparr>,
          ss_sources = \<lparr>si_hf = \<lparr>si_enabled = True, si_endpoint = ch_endpoint (c_huggingface c)\<rparr>,
                        si_ms = \<lparr>si_enabled = True, si_endpoint = cm_endpoint (c_modelscope c)\<rparr>\<rparr>,
          ss_auth = \<lparr>au_configured = (as_admin_token st \<noteq> []), au_token_file = ca_token_file (c_admin c)\<rparr>\<rparr>)"

definition service_stats :: "'s app_state \<Rightarrow> db \<Rightarrow> stats res" where
  "service_stats st d =
     res_bind (get_stats d) (\<lambda>s. Inr (s\<lparr>st_fetched_bytes := as_fetched st, st_served_bytes := as_served st\<rparr>))"

definition control_service_stats :: "'s app_state \<Rightarrow> headers \<Rightarrow> db \<Rightarrow> service_stats_response app_res" where
  "control_service_stats st hs d =
     app_bind (require_admin hs st) (\<lambda>_. app_bind (app (service_stats st d)) (\<lambda>s.
       Inr \<lparr>st_repos = repo_count s, st_files = file_count s, st_logical = original_bytes s,
            st_stored = stored_bytes s, st_saved = bytes_saved s, st_saved_percent = saved_percent s,
            st_fetched = st_fetched_bytes s, st_served = st_served_bytes s\<rparr>))"

definition control_service_gc ::
  "'s app_state \<Rightarrow> headers \<Rightarrow> gc_request \<Rightarrow> db \<times> 's \<Rightarrow> control_body app_res \<times> (db \<times> 's)" where
  "control_service_gc st hs req w =
     (case require_admin hs st of
        Inl e \<Rightarrow> (Inl e, w)
      | Inr _ \<Rightarrow>
          if gr_dry_run req
          then (app_bind (app (gc_dry_run (fst w))) (\<lambda>p.
                  Inr (Body_gc_preview \<lparr>gp_chunks = candidate_chunks p, gp_bytes = candidate_bytes p\<rparr>)), w)
          else case gc_execute_batch (as_backend st) (case gr_batch_size req of None \<Rightarrow> 32 | Some n \<Rightarrow> n) w of
                 (r, w') \<Rightarrow>
                   (app_bind (app r) (\<lambda>r. Inr (Body_gc_result \<lparr>gx_deleted = deleted_chunks r,
                      gx_reclaimed = reclaimed_bytes r, gx_skipped = skipped_chunks r, gx_more = has_more r\<rparr>)), w'))"

definition control_service_reconcile ::
  "'s app_state \<Rightarrow> string \<Rightarrow> headers \<Rightarrow> reconcile_request \<Rightarrow> db \<Rightarrow> reconcile_response app_res \<times> db" where
  "control_service_reconcile st now hs req d =
     (case require_admin hs st of
        Inl e \<Rightarrow> (Inl e, d)
      | Inr _ \<Rightarrow>
          (case reconcile_chunk_refs now (rr_dry_run req) d of
             (r, d') \<Rightarrow>
               (app_bind (app r) (\<lambda>r. Inr \<lparr>rc_scanned = scanned_chunks r, rc_mismatched = mismatched_chunks r,
                  rc_fixed = refcount_fixed r, rc_marked = orphaned_marked r, rc_cleared = orphaned_cleared r\<rparr>), d')))"

definition repo_item :: "db \<Rightarrow> string \<times> file_row list \<Rightarrow> repo_list_item app_res" where
  "repo_item d g =
     (case g of (repo, entries) \<Rightarrow>
        app_bind (aggregate_files d entries) (\<lambda>items.
          Inr \<lparr>ri_repo = repo, ri_sources = source_set entries, ri_files = length items,
               ri_logical = i64_sum (map fi_size items), ri_downloaded = i64_sum (map fi_downloaded items),
               ri_last_accessed = max_or [] (map f_last_accessed entries)\<rparr>))"

definition control_repos_list :: "'s app_state \<Rightarrow> headers \<Rightarrow> source_query \<Rightarrow> db \<Rightarrow> repo_list_response app_res" where
  "control_repos_list st hs q d =
     app_bind (require_admin hs st) (\<lambda>_. app_bind (app (list_files d)) (\<lambda>fs.
       app_bind (app_map (repo_item d) (group_files f_repo (filter (source_matches (sq_source q)) fs))) (\<lambda>items.
         Inr \<lparr>rl_items = items, rl_total = length items\<rparr>)))"

definition control_repo_show ::
  "'s app_state \<Rightarrow> headers \<Rightarrow> string \<Rightarrow> source_query \<Rightarrow> db \<Rightarrow> repo_show_response app_res" where
  "control_repo_show st hs repo q d =
     app_bind (require_admin hs st) (\<lambda>_. app_bind (app (list_files d)) (\<lambda>fs.
       let matched = filter (source_matches (sq_source q)) (filter (\<lambda>f. f_repo f = repo) fs)
       in if matched = [] then Inl (Not_found (''repo not found: '' @ repo))
          else app_bind (aggregate_files d matched) (\<lambda>items.
            Inr \<lparr>ri_repo = repo, ri_sources = source_set matched, ri_files = length items,
                 ri_logical = i64_sum (map fi_size items), ri_downloaded = i64_sum (map fi_downloaded items),
                 ri_last_accessed = max_or [] (map f_last_accessed matched), rs_items = items\<rparr>)))"

text \<open>What both delete handlers make of the service's answer.\<close>

definition delete_answer :: "delete_result \<Rightarrow> delete_response" where
  "delete_answer r = \<lparr>de_deleted = (deleted_files r > 0), de_files = deleted_files r, de_sources = dr_sources r\<rparr>"

definition control_repo_delete ::
  "'s app_state \<Rightarrow> string \<Rightarrow> headers \<Rightarrow> string \<Rightarrow> source_query \<Rightarrow> db \<Rightarrow> delete_response app_res \<times> db" where
  "control_repo_delete st now hs repo q d =
     (case require_admin hs st of
        Inl e \<Rightarrow> (Inl e, d)
      | Inr _ \<Rightarrow>
          (case delete_repo_all_sources now repo (sq_source q) d of
             (r, d') \<Rightarrow> (app_bind (app r) (\<lambda>r. Inr (delete_answer r)), d')))"

definition control_files_list :: "'s app_state \<Rightarrow> headers \<Rightarrow> source_query \<Rightarrow> db \<Rightarrow> file_list_response app_res" where
  "control_files_list st hs q d =
     app_bind (require_admin hs st) (\<lambda>_. app_bind (app (list_files d)) (\<lambda>fs.
       app_bind (aggregate_files d (filter (source_matches (sq_source q)) fs)) (\<lambda>items.
         Inr \<lparr>fl_items = items, fl_total = length items\<rparr>)))"

definition control_file_show :: "'s app_state \<Rightarrow> headers \<Rightarrow> file_query \<Rightarrow> db \<Rightarrow> file_show_response app_res" where
  "control_file_show st hs q d =
     app_bind (require_admin hs st) (\<lambda>_. app_bind (app (list_files d)) (\<lambda>fs.
       let matched = filter (source_matches (fq_source q))
             (filter (\<lambda>f. f_repo f = fq_repo q \<and> f_name f = fq_file q) fs)
       in if matched = [] then Inl (Not_found (''file not found: '' @ fq_repo q @ ''/'' @ fq_file q))
          else let first = hd matched
               in app_bind (max_downloaded d matched) (\<lambda>downloaded_size.
                 Inr \<lparr>fi_repo = fq_repo q, fi_file = fq_file q, fi_sources = map f_source matched,
                      fi_size = f_total_size first, fi_downloaded = downloaded_size,
                      fi_complete = (downloaded_size \<ge> f_total_size first),
                      fi_content_type = f_content_type first, fi_last_accessed = f_last_accessed first\<rparr>)))"

definition control_file_delete ::
  "'s app_state \<Rightarrow> string \<Rightarrow> headers \<Rightarrow> file_query \<Rightarrow> db \<Rightarrow> delete_response app_res \<times> db" where
  "control_file_delete st now hs q d =
     (case require_admin hs st of
        Inl e \<Rightarrow> (Inl e, d)
      | Inr _ \<Rightarrow>
          (case delete_file_all_sources now (fq_repo q) (fq_file q) (fq_source q) d of
             (r, d') \<Rightarrow> (app_bind (app r) (\<lambda>r. Inr (delete_answer r)), d')))"

section \<open>Routes\<close>

text \<open>The routes under \<open>/_hugrs\<close> of \<open>app_router\<close>, with what the extractors read from a request.\<close>

datatype control_request =
    Get_service
  | Get_service_stats
  | Post_service_gc gc_request
  | Post_service_reconcile reconcile_request
  | Get_repos source_query
  | Get_repo string source_query
  | Delete_repo string source_query
  | Get_files source_query
  | Delete_file file_query
  | Get_file file_query

definition answer :: "('a \<Rightarrow> control_body) \<Rightarrow> 'a app_res \<times> db \<Rightarrow> 's \<Rightarrow> control_body app_res \<times> (db \<times> 's)" where
  "answer f r s = (app_bind (fst r) (\<lambda>x. Inr (f x)), (snd r, s))"

definition control_router ::
  "'s app_state \<Rightarrow> string \<Rightarrow> headers \<Rightarrow> control_request \<Rightarrow> db \<times> 's \<Rightarrow> control_body app_res \<times> (db \<times> 's)" where
  "control_router st now hs req w =
     (case w of (d, s) \<Rightarrow>
      (case req of
         Get_service \<Rightarrow> answer Body_status (control_service_status st hs, d) s
       | Get_service_stats \<Rightarrow> answer Body_stats (control_service_stats st hs d, d) s
       | Post_service_gc r \<Rightarrow> control_service_gc st hs r w
       | Post_service_reconcile r \<Rightarrow> answer Body_reconcile (control_service_reconcile st now hs r d) s
       | Get_repos q \<Rightarrow> answer Body_repos (control_repos_list st hs q d, d) s
       | Get_repo repo q \<Rightarrow> answer Body_repo (control_repo_show st hs repo q d, d) s
       | Delete_repo repo q \<Rightarrow> answer Body_deleted (control_repo_delete st now hs repo q d) s
       | Get_files q \<Rightarrow> answer Body_files (control_files_list st hs q d, d) s
       | Delete_file q \<Rightarrow> answer Body_deleted (control_file_delete st now hs q d) s
       | Get_file q \<Rightarrow> answer Body_file (control_file_show st hs q d, d) s))"

end
