(* ===== verification/Admin_Client.thy ===== *)
theory Admin_Client
  imports Control
begin

text \<open>
  \<open>src/admin_client.rs\<close>: how \<open>hugrsctl\<close> finds the daemon and its token, and the request each of
  its operations sends. The HTTP exchange is the parameter \<open>http\<close> over a state \<open>'w\<close>: the status
  and the decoded JSON body that a request is answered with (\<open>None\<close> for a body that is not
  JSON), or \<open>None\<close> when it cannot be sent.
\<close>

record admin_client =
  ac_base_url :: string
  ac_admin_token :: string

datatype ctl_method = Ctl_get | Ctl_post | Ctl_delete

datatype ctl_body = No_body | Gc_body gc_request | Reconcile_body reconcile_request

record ctl_request =
  q_method :: ctl_method
  q_url :: string
  q_bearer :: string
  q_body :: ctl_body

type_synonym 'w exchange = "ctl_request \<Rightarrow> 'w \<Rightarrow> (nat \<times> control_body option) option \<times> 'w"

section \<open>Discovery\<close>

definition default_control_endpoint :: string where
  "default_control_endpoint = ''http://127.0.0.1:3000''"

definition resolve_admin_token :: "host \<Rightarrow> text_fs \<Rightarrow> string option \<Rightarrow> string res" where
  "resolve_admin_token h fs admin_token_override =
     (case admin_token_override of
        Some token \<Rightarrow> Inr token
      | None \<Rightarrow>
          (case env_string h ''HUGRS_ADMIN_TOKEN'' of
             Some token \<Rightarrow> Inr token
           | None \<Rightarrow>
               let token_file = (case env_string h ''HUGRS_ADMIN_TOKEN_FILE'' of
                                   Some p \<Rightarrow> p | None \<Rightarrow> default_admin_token_file_path h)
               in case t_files fs token_file of
                    None \<Rightarrow> Inl (ConfigError (FileUnreadable token_file))
                  | Some token \<Rightarrow> Inr (trim token)))"

definition discover :: "host \<Rightarrow> text_fs \<Rightarrow> string option \<Rightarrow> string option \<Rightarrow> admin_client res" where
  "discover h fs endpoint_override admin_token_override =
     (let base_url = (case endpoint_override of
                        Some u \<Rightarrow> u
                      | None \<Rightarrow> (case env_string h ''HUGRS_CONTROL_ENDPOINT'' of
                                  Some u \<Rightarrow> u | None \<Rightarrow> default_control_endpoint))
      in res_bind (resolve_admin_token h fs admin_token_override) (\<lambda>token.
           Inr \<lparr>ac_base_url = base_url, ac_admin_token = token\<rparr>))"

section \<open>Requests\<close>

definition with_source :: "string \<Rightarrow> string option \<Rightarrow> string" where
  "with_source path source =
     (case source of Some s \<Rightarrow> path @ ''?source='' @ s | None \<Rightarrow> path)"

definition file_path :: "string \<Rightarrow> string \<Rightarrow> string \<Rightarrow> string option \<Rightarrow> string" where
  "file_path route repo name source =
     route @ ''?repo='' @ repo @ ''&file='' @ name @
     (case source of Some s \<Rightarrow> ''&source='' @ s | None \<Rightarrow> [])"

definition ctl_get :: "admin_client \<Rightarrow> string \<Rightarrow> ctl_request" where
  "ctl_get c path = \<lparr>q_method = Ctl_get, q_url = ac_base_url c @ path, q_bearer = ac_admin_token c, q_body = No_body\<rparr>"

definition ctl_post :: "admin_client \<Rightarrow> string \<Rightarrow> ctl_body \<Rightarrow> ctl_request" where
  "ctl_post c path body =
     \<lparr>q_method = Ctl_post, q_url = ac_base_url c @ path, q_bearer = ac_admin_token c, q_body = body\<rparr>"

definition ctl_delete :: "admin_client \<Rightarrow> string \<Rightarrow> ctl_request" where
  "ctl_delete c path = \<lparr>q_method = Ctl_delete, q_url = ac_base_url c @ path, q_bearer = ac_admin_token c, q_body = No_body\<rparr>"

definition service_status_req :: "admin_client \<Rightarrow> ctl_request" where
  "service_status_req c = ctl_get c ''/_hugrs/service''"

definition service_stats_req :: "admin_client \<Rightarrow> ctl_request" where
  "service_stats_req c = ctl_get c ''/_hugrs/service/stats''"

definition service_gc_preview_req :: "admin_client \<Rightarrow> ctl_request" where
  "service_gc_preview_req c =
     ctl_post c ''/_hugrs/service/gc'' (Gc_body \<lparr>gr_dry_run = True, gr_batch_size = None\<rparr>)"

definition service_gc_execute_batch_req :: "admin_client \<Rightarrow> nat option \<Rightarrow> ctl_request" where
  "service_gc_execute_batch_req c batch_size =
     ctl_post c ''/_hugrs/service/gc'' (Gc_body \<lparr>gr_dry_run = False, gr_batch_size = batch_size\<rparr>)"

definition service_gc_execute_req :: "admin_client \<Rightarrow> ctl_request" where
  "service_gc_execute_req c =
     ctl_post c ''/_hugrs/service/gc'' (Gc_body \<lparr>gr_dry_run = False, gr_batch_size = None\<rparr>)"

definition service_reconcile_dry_run_req :: "admin_client \<Rightarrow> ctl_request" where
  "service_reconcile_dry_run_req c =
     ctl_post c ''/_hugrs/service/reconcile'' (Reconcile_body \<lparr>rr_dry_run = True\<rparr>)"

definition service_reconcile_apply_req :: "admin_client \<Rightarrow> ctl_request" where
  "service_reconcile_apply_req c =
     ctl_post c ''/_hugrs/service/reconcile'' (Reconcile_body \<lparr>rr_dry_run = False\<rparr>)"

definition repos_list_req :: "admin_client \<Rightarrow> string option \<Rightarrow> ctl_request" where
  "repos_list_req c source = ctl_get c (with_source ''/_hugrs/repos'' source)"

definition repos_show_req :: "admin_client \<Rightarrow> string \<Rightarrow> string option \<Rightarrow> ctl_request" where
  "repos_show_req c repo source = ctl_get c (with_source (''/_hugrs/repos/'' @ repo) source)"

definition repos_delete_req :: "admin_client \<Rightarrow> string \<Rightarrow> string option \<Rightarrow> ctl_request" where
  "repos_delete_req c repo source = ctl_delete c (with_source (''/_hugrs/repos/'' @ repo) source)"

definition files_list_req :: "admin_client \<Rightarrow> string option \<Rightarrow> ctl_request" where
  "files_list_req c source = ctl_get c (with_source ''/_hugrs/files'' source)"

definition files_show_req :: "admin_client \<Rightarrow> string \<Rightarrow> string \<Rightarrow> string option \<Rightarrow> ctl_request" where
  "files_show_req c repo name source = ctl_get c (file_path ''/_hugrs/files/show'' repo name source)"

definition files_delete_req :: "admin_client \<Rightarrow> string \<Rightarrow> string \<Rightarrow> string option \<Rightarrow> ctl_request" where
  "files_delete_req c repo name source = ctl_delete c (file_path ''/_hugrs/files'' repo name source)"

text \<open>
  \<open>get\<close>, \<open>post\<close> and \<open>delete\<close>: a client or server error status is an error, and so is a body that
  is not what the caller decodes (\<open>decode\<close>).
\<close>

definition perform ::
  "'w exchange \<Rightarrow> (control_body \<Rightarrow> 'a option) \<Rightarrow> ctl_request \<Rightarrow> 'w \<Rightarrow> 'a res \<times> 'w" where
  "perform http decode req w =
     (case http req w of
        (None, w') \<Rightarrow> (Inl (UpstreamError SendFailed), w')
      | (Some (st, body), w') \<Rightarrow>
          (if 400 \<le> st then Inl (UpstreamError (UpstreamReturned st))
           else case Option.bind body decode of
                  None \<Rightarrow> Inl (UpstreamError JsonFailed)
                | Some x \<Rightarrow> Inr x, w'))"

definition as_gc_result :: "control_body \<Rightarrow> gc_result_response option" where
  "as_gc_result b = (case b of Body_gc_result r \<Rightarrow> Some r | _ \<Rightarrow> None)"

definition service_gc_execute_batch ::
  "'w exchange \<Rightarrow> admin_client \<Rightarrow> nat option \<Rightarrow> 'w \<Rightarrow> gc_result_response res \<times> 'w" where
  "service_gc_execute_batch http c batch_size =
     perform http as_gc_result (service_gc_execute_batch_req c batch_size)"

end
