(* ===== verification/Ctl.thy ===== *)
theory Ctl
  imports Admin_Client "HOL-Library.Monad_Syntax"
begin

text \<open>
  \<open>src/hugrsctl_cli.rs\<close>: the command-line tool. What it prints is a list of lines; the JSON
  printer (\<open>serde_json::to_string_pretty\<close>, which cannot fail on these records) is the parameter
  \<open>pretty\<close>. The pause between two batches of a collection is not modelled, the loop is: it is
  a partial function, whose value is \<open>None\<close> if the loop does not end.
\<close>

section \<open>Commands\<close>

datatype service_command = Cmd_status | Cmd_stats | Cmd_gc bool | Cmd_reconcile bool

datatype repos_command = Repos_list | Repos_show string | Repos_delete string

datatype files_command = Files_list | Files_show string string | Files_delete string string

datatype resource =
    Service "service_command option"
  | Repo "repos_command option"
  | File "files_command option"

record cli =
  cli_json :: bool
  cli_source :: "string option"
  cli_endpoint :: "string option"
  cli_admin_token :: "string option"
  cli_resource :: resource

section \<open>Formatting\<close>

definition UNITS :: "string list" where
  "UNITS = [''B'', ''KiB'', ''MiB'', ''GiB'', ''TiB'']"

text \<open>The loop of \<open>format_bytes\<close>, which has at most four turns.\<close>

fun scale_bytes :: "nat \<Rightarrow> f64 \<Rightarrow> nat \<Rightarrow> f64 \<times> nat" where
  "scale_bytes 0 v u = (v, u)"
| "scale_bytes (Suc n) v u = (if 1024 \<le> v then scale_bytes n (f64_div v 1024) (u + 1) else (v, u))"

text \<open>\<open>{:.1}\<close>: the value in tenths, ties to even.\<close>

definition show_tenths :: "f64 \<Rightarrow> string" where
  "show_tenths v =
     (let n = nat (round_half_even (\<bar>v\<bar> * 10))
      in (if v < 0 then ''-'' else []) @ show_nat (n div 10) @ ''.'' @ show_nat (n mod 10))"

definition format_bytes :: "nat \<Rightarrow> string" where
  "format_bytes b =
     (case scale_bytes 4 (f64_of_nat b) 0 of
        (v, u) \<Rightarrow> if u = 0 then show_nat b @ '' '' @ UNITS ! u
                  else show_tenths v @ '' '' @ UNITS ! u)"

definition format_bytes_i64 :: "int \<Rightarrow> string" where
  "format_bytes_i64 b = (if b < 0 then show_int b else format_bytes (nat b))"

text \<open>\<open>downloaded * 100\<close> is a product in \<open>u64\<close>, which wraps in a release build.\<close>

definition progress_percent :: "int \<Rightarrow> int \<Rightarrow> bool \<Rightarrow> nat" where
  "progress_percent got sz whole =
     (if sz \<le> 0 then (if whole then 100 else 0)
      else let downloaded = nat (max 0 (min sz got))
           in min (((downloaded * 100) mod 2 ^ 64) div nat sz) 100)"

definition format_progress :: "int \<Rightarrow> int \<Rightarrow> bool \<Rightarrow> string" where
  "format_progress got sz whole =
     show_nat (progress_percent got sz whole) @ ''%''"

definition format_progress_detail :: "int \<Rightarrow> int \<Rightarrow> bool \<Rightarrow> string" where
  "format_progress_detail got sz whole =
     format_bytes_i64 got @ '' / '' @ format_bytes_i64 sz @ '' ('' @
     format_progress got sz whole @ '')''"

definition enabled :: "bool \<Rightarrow> string" where
  "enabled b = (if b then ''enabled'' else ''disabled'')"

definition yes_no :: "bool \<Rightarrow> string" where
  "yes_no b = (if b then ''yes'' else ''no'')"

definition join_sources :: "string list \<Rightarrow> string" where
  "join_sources sources = (if sources = [] then ''-'' else join '','' sources)"

definition column_width :: "string list \<Rightarrow> nat" where
  "column_width values = max_or 0 (map length values)"

text \<open>\<open>{:<w$}\<close> and \<open>{:>w$}\<close>\<close>

definition pad_right :: "nat \<Rightarrow> string \<Rightarrow> string" where
  "pad_right w s = s @ replicate (w - length s) (CHR '' '')"

definition pad_left :: "nat \<Rightarrow> string \<Rightarrow> string" where
  "pad_left w s = replicate (w - length s) (CHR '' '') @ s"

definition label_rows :: "(string \<times> string) list \<Rightarrow> string list" where
  "label_rows rows =
     (let width = max_or 0 (map (\<lambda>(l, _). length l) rows)
      in map (\<lambda>(l, v). pad_right width l @ '': '' @ v) rows)"

section \<open>Tables\<close>

record repo_row =
  rr_repo :: string
  rr_sources :: string
  rr_files :: string
  rr_cached :: string
  rr_logical_size :: string
  rr_last_accessed :: string

definition all_downloaded :: "int \<Rightarrow> int \<Rightarrow> bool" where
  "all_downloaded logical downloaded = (logical \<le> 0 \<and> downloaded \<le> 0 \<or> downloaded \<ge> logical)"

definition to_repo_row :: "repo_list_item \<Rightarrow> repo_row" where
  "to_repo_row item =
     (let whole = all_downloaded (ri_logical item) (ri_downloaded item)
      in \<lparr>rr_repo = ri_repo item, rr_sources = join_sources (ri_sources item), rr_files = show_nat (ri_files item),
          rr_cached = format_progress_detail (ri_downloaded item) (ri_logical item) whole,
          rr_logical_size = format_bytes_i64 (ri_logical item), rr_last_accessed = ri_last_accessed item\<rparr>)"

definition repo_line :: "nat \<Rightarrow> nat \<Rightarrow> nat \<Rightarrow> nat \<Rightarrow> nat \<Rightarrow> repo_row \<Rightarrow> string" where
  "repo_line repo_w source_w files_w cached_w size_w r =
     pad_right repo_w (rr_repo r) @ ''  '' @ pad_right source_w (rr_sources r) @ ''  '' @
     pad_left files_w (rr_files r) @ ''  '' @ pad_left cached_w (rr_cached r) @ ''  '' @
     pad_left size_w (rr_logical_size r) @ ''  '' @ rr_last_accessed r"

definition repo_header :: repo_row where
  "repo_header = \<lparr>rr_repo = ''REPO'', rr_sources = ''SOURCES'', rr_files = ''FILES'', rr_cached = ''CACHED'',
     rr_logical_size = ''LOGICAL SIZE'', rr_last_accessed = ''LAST ACCESSED''\<rparr>"

definition print_repo_table :: "repo_row list \<Rightarrow> string list" where
  "print_repo_table rows =
     (let repo_w = column_width (map rr_repo rows @ [''REPO'']);
          source_w = column_width (map rr_sources rows @ [''SOURCES'']);
          files_w = column_width (map rr_files rows @ [''FILES'']);
          cached_w = column_width (map rr_cached rows @ [''CACHED'']);
          size_w = column_width (map rr_logical_size rows @ [''LOGICAL SIZE''])
      in map (repo_line repo_w source_w files_w cached_w size_w) (repo_header # rows))"

definition or_dash :: "string option \<Rightarrow> string" where
  "or_dash s = (case s of None \<Rightarrow> ''-'' | Some v \<Rightarrow> v)"

definition file_line ::
  "nat \<Rightarrow> nat \<Rightarrow> nat \<Rightarrow> nat \<Rightarrow> nat \<Rightarrow> nat \<Rightarrow>
    string \<times> string \<times> string \<times> string \<times> string \<times> string \<times> string \<times> string \<Rightarrow> string" where
  "file_line repo_w file_w source_w size_w downloaded_w progress_w row =
     (case row of (repo, name, sources, sz, downloaded, progress, ctype, accessed) \<Rightarrow>
        pad_right repo_w repo @ ''  '' @ pad_right file_w name @ ''  '' @ pad_right source_w sources @ ''  '' @
        pad_left size_w sz @ ''  '' @ pad_left downloaded_w downloaded @ ''  '' @
        pad_left progress_w progress @ ''  '' @ ctype @ ''  '' @ accessed)"

definition print_file_table :: "file_list_item list \<Rightarrow> string list" where
  "print_file_table items =
     (let repo_w = column_width (map fi_repo items @ [''REPO'']);
          file_w = column_width (map fi_file items @ [''FILE'']);
          source_w = column_width (map (\<lambda>i. join_sources (fi_sources i)) items @ [''SOURCES'']);
          size_values = map (\<lambda>i. format_bytes_i64 (fi_size i)) items;
          downloaded_values = map (\<lambda>i. format_bytes_i64 (fi_downloaded i)) items;
          size_w = column_width (size_values @ [''SIZE'']);
          downloaded_w = column_width (downloaded_values @ [''DOWNLOADED'']);
          progress_values = map (\<lambda>i. format_progress (fi_downloaded i) (fi_size i) (fi_complete i)) items;
          progress_w = column_width (progress_values @ [''PROGRESS'']);
          line = file_line repo_w file_w source_w size_w downloaded_w progress_w
      in line (''REPO'', ''FILE'', ''SOURCES'', ''SIZE'', ''DOWNLOADED'', ''PROGRESS'', ''CONTENT-TYPE'', ''LAST ACCESSED'') #
         map (\<lambda>(((item, sz), downloaded), progress).
                line (fi_repo item, fi_file item, join_sources (fi_sources item), sz, downloaded, progress,
                      or_dash (fi_content_type item), fi_last_accessed item))
           (zip (zip (zip items size_values) downloaded_values) progress_values))"

section \<open>Printing answers\<close>

definition print_service_status :: "service_status_response \<Rightarrow> string list" where
  "print_service_status v =
     label_rows
       [(''status'', ss_status v), (''version'', ss_version v), (''endpoint'', ss_endpoint v),
        (''cache root'', ci_root (ss_cache v)), (''db path'', ci_db_path (ss_cache v)),
        (''max size'', case ci_max_size (ss_cache v) of None \<Rightarrow> ''unlimited'' | Some n \<Rightarrow> format_bytes n),
        (''sources'', ''hf='' @ enabled (si_enabled (si_hf (ss_sources v))) @ '' ('' @ si_endpoint (si_hf (ss_sources v)) @
           '')  ms='' @ enabled (si_enabled (si_ms (ss_sources v))) @ '' ('' @ si_endpoint (si_ms (ss_sources v)) @ '')''),
        (''admin token'', enabled (au_configured (ss_auth v)) @ '' ('' @ au_token_file (ss_auth v) @ '')'')]"

definition print_service_stats :: "service_stats_response \<Rightarrow> string list" where
  "print_service_stats v =
     label_rows
       [(''repos'', show_int (st_repos v)), (''files'', show_int (st_files v)),
        (''logical size'', format_bytes_i64 (st_logical v)), (''stored size'', format_bytes_i64 (st_stored v)),
        (''saved size'', format_bytes_i64 (st_saved v) @ '' ('' @ show_tenths (st_saved_percent v) @ ''%)''),
        (''fetched'', format_bytes (st_fetched v)), (''served'', format_bytes (st_served v))]"

definition print_gc_preview :: "gc_preview_response \<Rightarrow> string list" where
  "print_gc_preview v =
     label_rows [(''candidate chunks'', show_nat (gp_chunks v)), (''candidate bytes'', format_bytes (gp_bytes v))]"

definition print_reconcile_result :: "reconcile_response \<Rightarrow> string list" where
  "print_reconcile_result v =
     label_rows
       [(''scanned chunks'', show_nat (rc_scanned v)), (''mismatched chunks'', show_nat (rc_mismatched v)),
        (''refcount fixed'', show_nat (rc_fixed v)), (''orphaned marked'', show_nat (rc_marked v)),
        (''orphaned cleared'', show_nat (rc_cleared v))]"

definition print_repos_list :: "repo_list_response \<Rightarrow> string list" where
  "print_repos_list v =
     (if rl_items v = [] then [''No repos.'']
      else print_repo_table (map to_repo_row (rl_items v)) @ [[], ''total: '' @ show_nat (rl_total v)])"

definition print_repo_show :: "repo_show_response \<Rightarrow> string list" where
  "print_repo_show v =
     (let whole = all_downloaded (ri_logical v) (ri_downloaded v)
      in [''repo: '' @ ri_repo v, ''sources: '' @ join '','' (ri_sources v), ''files: '' @ show_nat (ri_files v),
          ''cached: '' @ format_progress_detail (ri_downloaded v) (ri_logical v) whole,
          ''logical size: '' @ format_bytes_i64 (ri_logical v), ''last accessed: '' @ ri_last_accessed v, []] @
         (if rs_items v = [] then [''No files.''] else print_file_table (rs_items v)))"

definition print_files_list :: "file_list_response \<Rightarrow> string list" where
  "print_files_list v =
     (if fl_items v = [] then [''No files.'']
      else print_file_table (fl_items v) @ [[], ''total: '' @ show_nat (fl_total v)])"

definition print_file_show :: "file_show_response \<Rightarrow> string list" where
  "print_file_show v =
     [''repo: '' @ fi_repo v, ''file: '' @ fi_file v, ''sources: '' @ join '','' (fi_sources v),
      ''size: '' @ format_bytes_i64 (fi_size v), ''downloaded: '' @ format_bytes_i64 (fi_downloaded v),
      ''progress: '' @ format_progress_detail (fi_downloaded v) (fi_size v) (fi_complete v),
      ''content-type: '' @ or_dash (fi_content_type v), ''last accessed: '' @ fi_last_accessed v]"

definition print_delete_response :: "delete_response \<Rightarrow> string list" where
  "print_delete_response v =
     [''deleted: '' @ yes_no (de_deleted v), ''deleted files: '' @ show_nat (de_files v),
      ''sources: '' @ join_sources (de_sources v)]"

text \<open>What is printed for an answer, as JSON or as text.\<close>

fun print_body :: "(control_body \<Rightarrow> string) \<Rightarrow> bool \<Rightarrow> control_body \<Rightarrow> string list" where
  "print_body pretty json b =
     (if json then [pretty b]
      else case b of
             Body_status v \<Rightarrow> print_service_status v
           | Body_stats v \<Rightarrow> print_service_stats v
           | Body_gc_preview v \<Rightarrow> print_gc_preview v
           | Body_gc_result v \<Rightarrow> []
           | Body_reconcile v \<Rightarrow> print_reconcile_result v
           | Body_repos v \<Rightarrow> print_repos_list v
           | Body_repo v \<Rightarrow> print_repo_show v
           | Body_deleted v \<Rightarrow> print_delete_response v
           | Body_files v \<Rightarrow> print_files_list v
           | Body_file v \<Rightarrow> print_file_show v)"

section \<open>Running a command\<close>

text \<open>The loop of \<open>gc\<close>: batches until one says that nothing is left; the totals and the lines.\<close>

definition batch_line :: "nat \<Rightarrow> gc_result_response \<Rightarrow> string" where
  "batch_line batch v =
     ''batch '' @ show_nat batch @ '': deleted '' @ show_nat (gx_deleted v) @ '' chunks, reclaimed '' @
     format_bytes (gx_reclaimed v) @ '', skipped '' @ show_nat (gx_skipped v)"

definition done_line :: "gc_result_response \<Rightarrow> string" where
  "done_line v =
     ''done: deleted '' @ show_nat (gx_deleted v) @ '' chunks, reclaimed '' @
     format_bytes (gx_reclaimed v) @ '', skipped '' @ show_nat (gx_skipped v)"

definition add_batch :: "gc_result_response \<Rightarrow> gc_result_response \<Rightarrow> gc_result_response" where
  "add_batch tot v =
     \<lparr>gx_deleted = gx_deleted tot + gx_deleted v, gx_reclaimed = gx_reclaimed tot + gx_reclaimed v,
      gx_skipped = gx_skipped tot + gx_skipped v, gx_more = gx_more v\<rparr>"

partial_function (option) gc_loop ::
  "'w exchange \<Rightarrow> admin_client \<Rightarrow> bool \<Rightarrow> nat \<Rightarrow> gc_result_response \<Rightarrow> string list \<Rightarrow> 'w \<Rightarrow>
    (gc_result_response res \<times> string list \<times> 'w) option" where
  "gc_loop http c json batch tot lines w =
     (case service_gc_execute_batch http c None w of
        (Inl e, w') \<Rightarrow> Some (Inl e, lines, w')
      | (Inr v, w') \<Rightarrow>
          (let lines' = (if json then lines else lines @ [batch_line batch v]); tot' = add_batch tot v
           in if \<not> gx_more v then Some (Inr tot', lines', w')
              else gc_loop http c json (batch + 1) tot' lines' w'))"

definition gc_total_start :: gc_result_response where
  "gc_total_start = \<lparr>gx_deleted = 0, gx_reclaimed = 0, gx_skipped = 0, gx_more = False\<rparr>"

text \<open>The request of every command but a collection, with the decoder of its answer.\<close>

definition only :: "(control_body \<Rightarrow> bool) \<Rightarrow> control_body \<Rightarrow> control_body option" where
  "only P b = (if P b then Some b else None)"

definition command_request ::
  "admin_client \<Rightarrow> string option \<Rightarrow> resource \<Rightarrow> (ctl_request \<times> (control_body \<Rightarrow> control_body option)) option" where
  "command_request c source r =
     (case r of
        Service cmd \<Rightarrow>
          (case (case cmd of None \<Rightarrow> Cmd_status | Some x \<Rightarrow> x) of
             Cmd_status \<Rightarrow> Some (service_status_req c, only is_Body_status)
           | Cmd_stats \<Rightarrow> Some (service_stats_req c, only is_Body_stats)
           | Cmd_gc dry \<Rightarrow> if dry then Some (service_gc_preview_req c, only is_Body_gc_preview) else None
           | Cmd_reconcile dry \<Rightarrow>
               Some (if dry then service_reconcile_dry_run_req c else service_reconcile_apply_req c, only is_Body_reconcile))
      | Repo cmd \<Rightarrow>
          (case (case cmd of None \<Rightarrow> Repos_list | Some x \<Rightarrow> x) of
             Repos_list \<Rightarrow> Some (repos_list_req c source, only is_Body_repos)
           | Repos_show repo \<Rightarrow> Some (repos_show_req c repo source, only is_Body_repo)
           | Repos_delete repo \<Rightarrow> Some (repos_delete_req c repo source, only is_Body_deleted))
      | File cmd \<Rightarrow>
          (case (case cmd of None \<Rightarrow> Files_list | Some x \<Rightarrow> x) of
             Files_list \<Rightarrow> Some (files_list_req c source, only is_Body_files)
           | Files_show repo name \<Rightarrow> Some (files_show_req c repo name source, only is_Body_file)
           | Files_delete repo name \<Rightarrow> Some (files_delete_req c repo name source, only is_Body_deleted)))"

definition ctl_run ::
  "(control_body \<Rightarrow> string) \<Rightarrow> 'w exchange \<Rightarrow> host \<Rightarrow> text_fs \<Rightarrow> cli \<Rightarrow> 'w \<Rightarrow>
    (unit res \<times> string list \<times> 'w) option" where
  "ctl_run pretty http h fs cl w =
     (case discover h fs (cli_endpoint cl) (cli_admin_token cl) of
        Inl e \<Rightarrow> Some (Inl e, [], w)
      | Inr c \<Rightarrow>
          (case command_request c (cli_source cl) (cli_resource cl) of
             Some (req, decode) \<Rightarrow>
               (case perform http decode req w of
                  (Inl e, w') \<Rightarrow> Some (Inl e, [], w')
                | (Inr b, w') \<Rightarrow> Some (Inr (), print_body pretty (cli_json cl) b, w'))
           | None \<Rightarrow>
               (case gc_loop http c (cli_json cl) 1 gc_total_start [] w of
                  None \<Rightarrow> None
                | Some (Inl e, lines, w') \<Rightarrow> Some (Inl e, lines, w')
                | Some (Inr tot, lines, w') \<Rightarrow>
                    Some (Inr (),
                          lines @ (if cli_json cl then [pretty (Body_gc_result tot)] else [done_line tot]), w'))))"

end
