(* ===== verification/Control_Props.thy ===== *)
theory Control_Props
  imports Ctl Gc_Props Config_Props
begin

text \<open>
  The properties of the administration interface: who is let in, what the listings say, and
  what the tool and the daemon achieve together over a transport that carries requests and
  answers.
\<close>

section \<open>The guard\<close>

lemma app_not_unauthorized [simp]: "app r \<noteq> Inl Unauthorized"
  by (simp add: app_def split: sum.split)

lemma app_bind_Inr [simp]: "app_bind (Inr x) f = f x"
  by (simp add: app_bind_def)

lemma app_bind_Inl [simp]: "app_bind (Inl e) f = Inl e"
  by (simp add: app_bind_def)

lemma app_simps [simp]: "app (Inr x) = Inr x" "app (Inl e) = Inl (App_anyhow e)"
  by (simp_all add: app_def)

lemma app_bind_Inl_iff: "app_bind m f = Inl e \<longleftrightarrow> m = Inl e \<or> (\<exists>x. m = Inr x \<and> f x = Inl e)"
  by (cases m) simp_all

lemma app_bind_Inr_iff: "app_bind m f = Inr y \<longleftrightarrow> (\<exists>x. m = Inr x \<and> f x = Inr y)"
  by (cases m) simp_all

lemma app_map_unauthorized: "(\<And>x. f x \<noteq> Inl Unauthorized) \<Longrightarrow> app_map f xs \<noteq> Inl Unauthorized"
  by (induction xs) (simp_all add: app_bind_Inl_iff)

lemma max_downloaded_not_unauthorized [simp]: "max_downloaded d fs \<noteq> Inl Unauthorized"
  using app_map_unauthorized [of "\<lambda>f. app (get_file_downloaded_size (f_id f) d)" fs]
  by (simp add: max_downloaded_def app_bind_Inl_iff)

lemma aggregate_not_unauthorized [simp]: "aggregate_files d fs \<noteq> Inl Unauthorized"
  unfolding aggregate_files_def
  by (rule app_map_unauthorized) (simp add: aggregate_one_def app_bind_Inl_iff Let_def split: prod.split)

lemma repo_items_not_unauthorized [simp]: "app_map (repo_item d) gs \<noteq> Inl Unauthorized"
  by (rule app_map_unauthorized) (simp add: repo_item_def app_bind_Inl_iff split: prod.split)

lemma require_admin_cases:
  "require_admin hs st = (if header_str hs ''authorization'' = Some (''Bearer '' @ as_admin_token st)
     then Inr () else Inl Unauthorized)"
  by (simp add: require_admin_def split: option.split)

lemma admitted:
  assumes "require_admin hs st = Inr ()"
  shows "fst (control_router st now hs req w) \<noteq> Inl Unauthorized"
  using assms
  by (cases w; cases req) (simp_all add: control_router_def answer_def control_service_gc_def control_service_status_def
      control_service_stats_def control_service_reconcile_def control_repos_list_def control_repo_show_def
      control_repo_delete_def control_files_list_def control_file_delete_def control_file_show_def
      app_bind_Inl_iff Let_def split: prod.split)

lemma rejected:
  assumes "require_admin hs st = Inl Unauthorized"
  shows "control_router st now hs req w = (Inl Unauthorized, w)"
  using assms
  by (cases w; cases req) (simp_all add: control_router_def answer_def control_service_gc_def control_service_status_def
      control_service_stats_def control_service_reconcile_def control_repos_list_def control_repo_show_def
      control_repo_delete_def control_files_list_def control_file_delete_def control_file_show_def)

text \<open>
  C29: Every route of the administration interface, reading or writing, answers \<open>Unauthorized\<close>
  exactly when the request does not carry the admin token as a bearer token, and then neither
  the database nor the store is touched.
\<close>

theorem admin_guard:
  "(fst (control_router st now hs req w) = Inl Unauthorized) =
     (header_str hs ''authorization'' \<noteq> Some (''Bearer '' @ as_admin_token st)) \<and>
   (header_str hs ''authorization'' = Some (''Bearer '' @ as_admin_token st) \<or>
      snd (control_router st now hs req w) = w)"
proof (cases "header_str hs ''authorization'' = Some (''Bearer '' @ as_admin_token st)")
  case True
  then have "require_admin hs st = Inr ()" by (simp add: require_admin_cases)
  from admitted [OF this] True show ?thesis by simp
next
  case False
  then have "require_admin hs st = Inl Unauthorized" by (simp add: require_admin_cases)
  from rejected [OF this] False show ?thesis by simp
qed

section \<open>Listings\<close>

lemma app_map_total: "(\<And>x. x \<in> set xs \<Longrightarrow> f x = Inr (g x)) \<Longrightarrow> app_map f xs = Inr (map g xs)"
  by (induction xs) simp_all

lemma fold_max_bounds:
  fixes a :: "'a :: linorder"
  shows "x \<in> set (a # xs) \<Longrightarrow> x \<le> fold max xs a" "fold max xs a \<in> set (a # xs)"
proof -
  show mem: "fold max xs a \<in> set (a # xs)"
    by (induction xs arbitrary: a) (simp, metis fold_simps(2) insert_iff list.set(2) max_def)
  have ge: "a \<le> fold max xs a" for a :: 'a and xs
    by (induction xs arbitrary: a) (simp, metis fold_simps(2) max.bounded_iff)
  show "x \<in> set (a # xs) \<Longrightarrow> x \<le> fold max xs a"
  proof (induction xs arbitrary: a)
    case (Cons y ys)
    have "max y a \<le> fold max ys (max y a)" by (rule ge)
    then have "y \<le> fold max ys (max y a)" "a \<le> fold max ys (max y a)" by (meson max.boundedE)+
    moreover have "x \<le> fold max ys (max y a)" if "x \<in> set ys" using Cons.IH [of "max y a"] that by simp
    ultimately show ?case using Cons.prems by auto
  qed simp
qed

lemma max_downloaded_eq:
  assumes "\<not> poisoned d"
  shows "max_downloaded d fs = Inr (max_or 0 (map (\<lambda>f. downloaded_size (f_id f) d) fs))"
  using assms by (simp add: max_downloaded_def get_file_downloaded_size_def with_conn_def
      app_map_total [where g = "\<lambda>f. downloaded_size (f_id f) d"])

definition same_file :: "file_row list \<Rightarrow> file_list_item \<Rightarrow> file_row list" where
  "same_file fs i = filter (\<lambda>f. f_repo f = fi_repo i \<and> f_name f = fi_file i) fs"

text \<open>
  C31: A listing groups the files by repository and name: it has one entry for each pair that
  occurs, in ascending order, with the sources of all its files in the order of the table, the
  size of the first of them, and as downloaded bytes those of the source that has most.
\<close>

theorem aggregate_files_spec:
  assumes "\<not> poisoned d"
  shows "\<exists>items. aggregate_files d fs = Inr items \<and>
    map (\<lambda>i. (fi_repo i, fi_file i)) items = sort (remdups (map (\<lambda>f. (f_repo f, f_name f)) fs)) \<and>
    (\<forall>i \<in> set items. same_file fs i \<noteq> [] \<and> fi_sources i = map f_source (same_file fs i) \<and>
       fi_size i = f_total_size (hd (same_file fs i)) \<and>
       fi_downloaded i = Max ((\<lambda>f. downloaded_size (f_id f) d) ` set (same_file fs i)))"
proof -
  let ?key = "\<lambda>f. (f_repo f, f_name f)"
  let ?item = "\<lambda>g. case g of ((repo, name), entries) \<Rightarrow>
     \<lparr>fi_repo = repo, fi_file = name, fi_sources = map f_source entries, fi_size = f_total_size (hd entries),
      fi_downloaded = max_or 0 (map (\<lambda>f. downloaded_size (f_id f) d) entries),
      fi_complete = (max_or 0 (map (\<lambda>f. downloaded_size (f_id f) d) entries) \<ge> f_total_size (hd entries)),
      fi_content_type = f_content_type (hd entries), fi_last_accessed = max_or [] (map f_last_accessed entries)\<rparr>"
  let ?items = "map ?item (group_files ?key fs)"
  have run: "aggregate_files d fs = Inr ?items"
    unfolding aggregate_files_def
    by (rule app_map_total) (auto simp: aggregate_one_def max_downloaded_eq [OF assms] Let_def split: prod.split)
  have keys: "map (\<lambda>i. (fi_repo i, fi_file i)) ?items = sort (remdups (map ?key fs))"
    by (simp add: group_files_def comp_def split: prod.split) (rule map_idI, auto)
  have spec: "same_file fs i \<noteq> [] \<and> fi_sources i = map f_source (same_file fs i) \<and>
      fi_size i = f_total_size (hd (same_file fs i)) \<and>
      fi_downloaded i = Max ((\<lambda>f. downloaded_size (f_id f) d) ` set (same_file fs i))"
    if i: "i \<in> set ?items" for i
  proof -
    from i obtain k where k: "k \<in> ?key ` set fs" "i = ?item (k, filter (\<lambda>f. ?key f = k) fs)"
      by (auto simp: group_files_def)
    then have s: "same_file fs i = filter (\<lambda>f. ?key f = k) fs"
      by (cases k) (auto simp: same_file_def intro: filter_cong)
    with k(1) have ne: "same_file fs i \<noteq> []" by (auto simp: filter_empty_conv)
    then obtain x ys where xy: "map (\<lambda>f. downloaded_size (f_id f) d) (same_file fs i) = x # ys"
      by (cases "same_file fs i") auto
    then have "max_or 0 (map (\<lambda>f. downloaded_size (f_id f) d) (same_file fs i)) = fold max ys x"
      by (simp add: max_or_def)
    moreover have "Max ((\<lambda>f. downloaded_size (f_id f) d) ` set (same_file fs i)) = fold max ys x"
      using fold_max_bounds(1) [where a = x and xs = ys] fold_max_bounds(2) [where a = x and xs = ys] xy by (intro Max_eqI) (auto simp flip: set_map)
    ultimately show ?thesis using ne s k(2) by (cases k) simp
  qed
  show ?thesis using run keys spec by (intro exI [of _ ?items]) blast
qed

theorem aggregate_files_spec_witness:
  "\<exists>items. aggregate_files two_repos_db (files two_repos_db) = Inr items \<and>
     map (\<lambda>i. (fi_repo i, fi_file i)) items = [(''o/r'', ''o/r/a''), (''o/s'', ''o/s/b'')]"
proof -
  have "sort (remdups (map (\<lambda>f. (f_repo f, f_name f)) (files two_repos_db))) = [(''o/r'', ''o/r/a''), (''o/s'', ''o/s/b'')]"
    by code_simp
  with aggregate_files_spec [OF two_repos_facts(2), where fs = "files two_repos_db"] show ?thesis by metis
qed

text \<open>
  The completeness flag of a listing entry can be wrong. When two sources have different
  sizes for one file, it compares what the larger one has downloaded with the size of the
  smaller one that comes first: the entry says complete although neither source is.
\<close>

theorem listing_complete_misleads:
  assumes "\<not> poisoned d" "f_repo f = f_repo g" "f_name f = f_name g"
    and "downloaded_size (f_id f) d < f_total_size f" "f_total_size f \<le> downloaded_size (f_id g) d"
    and "downloaded_size (f_id g) d < f_total_size g"
    and "lookup_file (f_name f) (f_source f) d = Some f" "lookup_file (f_name f) (f_source g) d = Some g"
  shows "\<exists>i. aggregate_files d [f, g] = Inr [i] \<and> fi_complete i \<and> fi_sources i = [f_source f, f_source g] \<and>
    get_complete_file (f_name f) (f_source f) d = Inr None \<and> get_complete_file (f_name f) (f_source g) d = Inr None"
  using assms
  by (simp add: aggregate_files_def group_files_def aggregate_one_def max_downloaded_eq max_or_def Let_def
      get_complete_file_def get_file_by_name_def get_file_downloaded_size_def with_conn_def)

definition two_sizes_db :: db where
  "two_sizes_db =
     (let d1 = snd (add_file ''t0'' ''o/r/a'' ''o/r'' 4 ''hf'' empty_db);
          d2 = snd (add_file ''t1'' ''o/r/a'' ''o/r'' 12 ''ms'' d1)
      in snd (ensure_chunk_and_link ''t6'' key_a ''local'' ''p'' 6 6 2 0 6 d2))"

theorem listing_complete_misleads_witness:
  "\<exists>i. aggregate_files two_sizes_db (files two_sizes_db) = Inr [i] \<and> fi_complete i \<and>
    get_complete_file ''o/r/a'' ''hf'' two_sizes_db = Inr None \<and> get_complete_file ''o/r/a'' ''ms'' two_sizes_db = Inr None"
proof -
  let ?f = "files two_sizes_db ! 0" and ?g = "files two_sizes_db ! 1"
  have fg: "files two_sizes_db = [?f, ?g]" by code_simp
  have n: "f_name ?f = ''o/r/a''" "f_source ?f = ''hf''" "f_source ?g = ''ms''" by code_simp+
  have a: "\<not> poisoned two_sizes_db" "f_repo ?f = f_repo ?g" "f_name ?f = f_name ?g"
    "downloaded_size (f_id ?f) two_sizes_db < f_total_size ?f" "f_total_size ?f \<le> downloaded_size (f_id ?g) two_sizes_db"
    "downloaded_size (f_id ?g) two_sizes_db < f_total_size ?g"
    "lookup_file (f_name ?f) (f_source ?f) two_sizes_db = Some ?f" "lookup_file (f_name ?f) (f_source ?g) two_sizes_db = Some ?g"
    by code_simp+
  from listing_complete_misleads [OF a] fg n show ?thesis by metis
qed

section \<open>Collecting garbage from the command line\<close>

lemma orphan_rows_after:
  assumes "db_wf d"
  shows "orphan_rows (d\<lparr>chunks := filter (\<lambda>c. c \<notin> set (gc_selected n d)) (chunks d)\<rparr>) = drop n (orphan_rows d)"
proof -
  have "orphan_rows (d\<lparr>chunks := filter (\<lambda>c. c \<notin> set (gc_selected n d)) (chunks d)\<rparr>) =
      filter (\<lambda>c. c \<notin> set (take n (orphan_rows d))) (orphan_rows d)"
    unfolding orphan_rows_def gc_selected_def
    by (simp add: filter_sort conj_commute)
  also have "\<dots> = drop n (orphan_rows d)"
  proof -
    have d: "distinct (take n (orphan_rows d) @ drop n (orphan_rows d))"
      using distinct_orphan_rows [OF assms] by simp
    have "filter (\<lambda>c. c \<notin> set (take n (orphan_rows d))) (take n (orphan_rows d) @ drop n (orphan_rows d)) =
        drop n (orphan_rows d)"
      using d by (auto simp: filter_empty_conv filter_id_conv simp del: append_take_drop_id)
    then show ?thesis by simp
  qed
  finally show ?thesis .
qed

text \<open>
  A transport that brings the batch request of the tool to the daemon's route, with its token,
  and the answer back.
\<close>

definition batch_transport :: "(db \<times> 's) exchange \<Rightarrow> admin_client \<Rightarrow> 's app_state \<Rightarrow> string \<Rightarrow> bool" where
  "batch_transport http c st now =
     (\<forall>b w. http (service_gc_execute_batch_req c b) w =
        (case control_router st now [(''authorization'', ''Bearer '' @ ac_admin_token c)]
                (Post_service_gc \<lparr>gr_dry_run = False, gr_batch_size = b\<rparr>) w of
           (Inr body, w') \<Rightarrow> (Some (200, Some body), w')
         | (Inl e, w') \<Rightarrow> (Some (fst (into_response (\<lambda>_. []) e), None), w')))"

lemma bearer_admits:
  assumes "list_all visible_ascii (as_admin_token st)"
  shows "require_admin [(''authorization'', ''Bearer '' @ as_admin_token st)] st = Inr ()"
proof -
  have "list_all visible_ascii (''Bearer '' @ as_admin_token st)"
    using assms by (simp add: visible_ascii_def)
  then show ?thesis by (simp add: require_admin_def header_str_def header_get_def to_str_def)
qed

lemma batch_over_transport:
  assumes "storage_laws (as_backend st) contents invar" "db_inv d" "\<not> poisoned d" "invar s" "keys_ok d"
    and "batch_transport http c st now" "ac_admin_token c = as_admin_token st" "list_all visible_ascii (as_admin_token st)"
  shows "\<exists>s'. service_gc_execute_batch http c None (d, s) =
      (Inr \<lparr>gx_deleted = min 32 (length (orphan_rows d)),
            gx_reclaimed = sum_list (map (\<lambda>c. i64_as_u64 (stored_size c)) (take 32 (orphan_rows d))),
            gx_skipped = 0, gx_more = (32 < length (orphan_rows d))\<rparr>,
       (d\<lparr>chunks := filter (\<lambda>c. c \<notin> set (gc_selected 32 d)) (chunks d)\<rparr>, s')) \<and> invar s'"
proof -
  obtain s' where "gc_execute_batch (as_backend st) 32 (d, s) =
      (Inr \<lparr>deleted_chunks = length (gc_selected 32 d),
            reclaimed_bytes = sum_list (map (\<lambda>c. i64_as_u64 (stored_size c)) (gc_selected 32 d)),
            skipped_chunks = 0, has_more = (32 < length (orphan_rows d))\<rparr>,
       (d\<lparr>chunks := filter (\<lambda>c. c \<notin> set (gc_selected 32 d)) (chunks d)\<rparr>, s'))" "invar s'"
    using storage_laws.gc_batch_ok [OF assms(1), OF assms(2-5), of 32] by auto
  with assms(6-8) bearer_admits [OF assms(8)] show ?thesis
    by (auto simp: service_gc_execute_batch_def perform_def batch_transport_def control_router_def
        control_service_gc_def as_gc_result_def gc_selected_def min.commute)
qed

lemma gc_loop_collects:
  assumes laws: "storage_laws (as_backend st) contents invar"
    and tr: "batch_transport http c st now" "ac_admin_token c = as_admin_token st" "list_all visible_ascii (as_admin_token st)"
    and "db_inv d" "\<not> poisoned d" "invar s" "keys_ok d"
  shows "\<exists>r lines' d' s'. gc_loop http c json batch tot lines (d, s) = Some (Inr r, lines', (d', s')) \<and>
    gx_deleted r = gx_deleted tot + length (orphan_rows d) \<and>
    gx_reclaimed r = gx_reclaimed tot + sum_list (map (\<lambda>c. i64_as_u64 (stored_size c)) (orphan_rows d)) \<and>
    gx_skipped r = gx_skipped tot \<and> \<not> gx_more r \<and> orphan_rows d' = [] \<and> files d' = files d \<and>
    file_chunks d' = file_chunks d \<and> db_inv d' \<and> invar s'"
  using assms(5-8)
proof (induction "length (orphan_rows d)" arbitrary: d s batch tot lines rule: less_induct)
  case less
  let ?d1 = "d\<lparr>chunks := filter (\<lambda>c. c \<notin> set (gc_selected 32 d)) (chunks d)\<rparr>"
  let ?v = "\<lparr>gx_deleted = min 32 (length (orphan_rows d)),
            gx_reclaimed = sum_list (map (\<lambda>c. i64_as_u64 (stored_size c)) (take 32 (orphan_rows d))),
            gx_skipped = 0, gx_more = (32 < length (orphan_rows d))\<rparr>"
  obtain s1 where b: "service_gc_execute_batch http c None (d, s) = (Inr ?v, (?d1, s1))" and s1: "invar s1"
    using batch_over_transport [OF laws less.prems tr] by blast
  have d1: "db_inv ?d1" "\<not> poisoned ?d1" "keys_ok ?d1"
    using less.prems delete_chunks_keep_inv [of d 32] by (auto simp: keys_ok_def)
  have rest: "orphan_rows ?d1 = drop 32 (orphan_rows d)"
    using less.prems(1) by (intro orphan_rows_after) (simp add: db_inv_def)
  let ?lines = "if json then lines else lines @ [batch_line batch ?v]"
  show ?case
  proof (cases "32 < length (orphan_rows d)")
    case False
    then have "gc_loop http c json batch tot lines (d, s) = Some (Inr (add_batch tot ?v), ?lines, (?d1, s1))"
      by (simp add: gc_loop.simps [of http c json batch tot lines] b Let_def)
    with False rest d1 s1 show ?thesis by (simp add: add_batch_def)
  next
    case True
    then have l: "length (orphan_rows ?d1) < length (orphan_rows d)" by (simp add: rest)
    have "gc_loop http c json batch tot lines (d, s) =
        gc_loop http c json (batch + 1) (add_batch tot ?v) ?lines (?d1, s1)"
      using True by (simp add: gc_loop.simps [of http c json batch tot lines] b Let_def)
    moreover have "sum_list (map g (take 32 xs)) + sum_list (map g (drop 32 xs)) = sum_list (map g xs)" for g :: "chunk \<Rightarrow> nat" and xs
      by (metis append_take_drop_id map_append sum_list_append)
    ultimately show ?thesis
      using less.hyps [OF l d1(1,2) s1 d1(3), of "batch + 1" "add_batch tot ?v" ?lines] True
      by (fastforce simp: add_batch_def rest)
  qed
qed

text \<open>
  C8: \<open>hugrsctl service gc\<close> ends. Against a daemon with a consistent database it asks for batches
  until nothing is left, and then no orphan remains, no file has changed, and the totals it
  reports are the number and the stored bytes of all the orphans there were.
\<close>

theorem gc_command_collects_everything:
  assumes "storage_laws (as_backend st) contents invar" "batch_transport http c st now"
    and "ac_admin_token c = as_admin_token st" "list_all visible_ascii (as_admin_token st)"
    and "db_inv d" "\<not> poisoned d" "invar s" "keys_ok d"
  shows "\<exists>r lines' d' s'. gc_loop http c json 1 gc_total_start [] (d, s) = Some (Inr r, lines', (d', s')) \<and>
    gx_deleted r = length (orphan_rows d) \<and>
    gx_reclaimed r = sum_list (map (\<lambda>c. i64_as_u64 (stored_size c)) (orphan_rows d)) \<and>
    gx_skipped r = 0 \<and> \<not> gx_more r \<and> orphan_rows d' = [] \<and> files d' = files d \<and>
    file_chunks d' = file_chunks d \<and> db_inv d' \<and> invar s'"
  using gc_loop_collects [OF assms, of json 1 gc_total_start "[]"] by (simp add: gc_total_start_def)

definition sample_state :: "fs app_state" where
  "sample_state = \<lparr>as_config = config_default sample_host, as_admin_token = ''t'',
     as_backend = local_ops id Some (plain_backend ''root''), as_service = \<lparr>sc_max_size = None, sc_prefetch_budget_base = 8\<rparr>,
     as_version = ''0'', as_fetched = 0, as_served = 0\<rparr>"

definition sample_client :: admin_client where
  "sample_client = \<lparr>ac_base_url = default_control_endpoint, ac_admin_token = ''t''\<rparr>"

definition direct :: "(db \<times> fs) exchange" where
  "direct req w =
     (case q_body req of
        Gc_body g \<Rightarrow>
          (case control_router sample_state ''t9'' [(''authorization'', ''Bearer '' @ q_bearer req)] (Post_service_gc g) w of
             (Inr body, w') \<Rightarrow> (Some (200, Some body), w')
           | (Inl e, w') \<Rightarrow> (Some (fst (into_response (\<lambda>_. []) e), None), w'))
      | _ \<Rightarrow> (None, w))"

theorem gc_command_collects_everything_witness:
  "\<exists>r lines' d' s'. gc_loop direct sample_client False 1 gc_total_start [] (garbage_db, garbage_fs) =
     Some (Inr r, lines', (d', s')) \<and> gx_deleted r = 1 \<and> orphan_rows d' = []"
proof -
  have tr: "batch_transport direct sample_client sample_state ''t9''"
    by (simp add: batch_transport_def direct_def service_gc_execute_batch_req_def ctl_post_def)
  have st: "storage_laws (as_backend sample_state) (local_contents Some (plain_backend ''root''))
      (local_invar Some (plain_backend ''root''))"
    using plain_local.storage_laws_axioms by (simp add: sample_state_def)
  have tok: "ac_admin_token sample_client = as_admin_token sample_state" "list_all visible_ascii (as_admin_token sample_state)"
    by (simp_all add: sample_client_def sample_state_def visible_ascii_def)
  have "length (orphan_rows garbage_db) = 1"
    using garbage_orphans by (metis length_map length_Cons list.size(3) One_nat_def)
  with gc_command_collects_everything [OF st tr tok garbage_facts(1,2) plain_fs_ok garbage_facts(3), where json = False]
  show ?thesis by fastforce
qed

text \<open>
  The preview of a collection is exact: on a consistent database, the number of chunks and
  of bytes that a dry run announces are those that a batch large enough deletes and reclaims.
\<close>

theorem gc_preview_exact:
  assumes "storage_laws (as_backend st) contents invar" "db_inv d" "\<not> poisoned d" "invar s" "keys_ok d"
    and "length (orphan_rows d) \<le> n" "n + 1 < 2 ^ 63" "\<forall>c \<in> set (chunks d). 0 \<le> stored_size c"
    and "sum_list (map stored_size (orphan_rows d)) < 2 ^ 63" "require_admin hs st = Inr ()"
  shows "\<exists>b. control_router st now hs (Post_service_gc \<lparr>gr_dry_run = True, gr_batch_size = None\<rparr>) (d, s) =
      (Inr (Body_gc_preview \<lparr>gp_chunks = length (orphan_rows d), gp_bytes = b\<rparr>), (d, s)) \<and>
    fst (control_router st now hs (Post_service_gc \<lparr>gr_dry_run = False, gr_batch_size = Some n\<rparr>) (d, s)) =
      Inr (Body_gc_result \<lparr>gx_deleted = length (orphan_rows d), gx_reclaimed = b, gx_skipped = 0, gx_more = False\<rparr>)"
proof -
  let ?rows = "filter orphan_row (chunks d)"
  have perm: "mset (orphan_rows d) = mset ?rows" by (simp add: orphan_rows_def)
  then have len: "length ?rows = length (orphan_rows d)" by (metis size_mset)
  have sums: "sum_list (map stored_size ?rows) = sum_list (map stored_size (orphan_rows d))"
    using perm by (metis mset_map sum_mset_sum_list)
  have nonneg: "\<forall>c \<in> set (orphan_rows d). 0 \<le> stored_size c" using assms(8) by simp
  have cast: "(\<forall>c \<in> set cs. 0 \<le> stored_size c) \<Longrightarrow> sum_list (map stored_size cs) < 2 ^ 63 \<Longrightarrow>
      sum_list (map (\<lambda>c. i64_as_u64 (stored_size c)) cs) = nat (sum_list (map stored_size cs))" for cs :: "chunk list"
  proof (induction cs)
    case (Cons c cs)
    then have "0 \<le> sum_list (map stored_size cs)" by (intro sum_list_nonneg) auto
    with Cons show ?case by (simp add: i64_as_u64_nonneg nat_add_distrib)
  qed simp
  have bytes: "i64_as_u64 (sum_list (map stored_size ?rows)) = sum_list (map (\<lambda>c. i64_as_u64 (stored_size c)) (orphan_rows d))"
  proof -
    have "0 \<le> sum_list (map stored_size (orphan_rows d))" using nonneg by (intro sum_list_nonneg) auto
    with cast [OF nonneg assms(9)] assms(9) show ?thesis by (simp add: sums i64_as_u64_nonneg)
  qed
  have "length (orphan_rows d) < 2 ^ 63" using assms(6,7) by linarith
  then have "i64_as_u64 (int (length (orphan_rows d))) = length (orphan_rows d)" by (simp add: i64_as_u64_nonneg)
  then have pre: "gc_dry_run d = Inr \<lparr>candidate_chunks = length (orphan_rows d),
      candidate_bytes = sum_list (map (\<lambda>c. i64_as_u64 (stored_size c)) (orphan_rows d))\<rparr>"
    using assms(3) bytes by (simp add: gc_dry_run_def list_orphan_chunks_stats_def with_conn_def count_rows_def len)
  obtain s' where ex: "gc_execute_batch (as_backend st) n (d, s) =
      (Inr \<lparr>deleted_chunks = length (gc_selected n d),
            reclaimed_bytes = sum_list (map (\<lambda>c. i64_as_u64 (stored_size c)) (gc_selected n d)),
            skipped_chunks = 0, has_more = (n < length (orphan_rows d))\<rparr>,
       (d\<lparr>chunks := filter (\<lambda>c. c \<notin> set (gc_selected n d)) (chunks d)\<rparr>, s'))"
    using storage_laws.gc_batch_ok [OF assms(1), OF assms(2-5,7)] by blast
  show ?thesis using assms(6,10) pre ex
    by (simp add: control_router_def control_service_gc_def gc_selected_def)
qed

theorem gc_preview_exact_witness:
  "\<exists>b. fst (control_router sample_state ''t9'' [(''authorization'', ''Bearer t'')]
       (Post_service_gc \<lparr>gr_dry_run = True, gr_batch_size = None\<rparr>) (garbage_db, garbage_fs)) =
      Inr (Body_gc_preview \<lparr>gp_chunks = 1, gp_bytes = b\<rparr>)"
proof -
  have st: "storage_laws (as_backend sample_state) (local_contents Some (plain_backend ''root''))
      (local_invar Some (plain_backend ''root''))"
    using plain_local.storage_laws_axioms by (simp add: sample_state_def)
  have one: "length (orphan_rows garbage_db) = 1"
    using garbage_orphans by (metis length_map length_Cons list.size(3) One_nat_def)
  have sz: "\<forall>c \<in> set (chunks garbage_db). 0 \<le> stored_size c" by code_simp
  have sum: "sum_list (map stored_size (orphan_rows garbage_db)) < 2 ^ 63" by code_simp
  have adm: "require_admin [(''authorization'', ''Bearer t'')] sample_state = Inr ()"
    by (simp add: require_admin_cases sample_state_def header_str_def header_get_def to_str_def visible_ascii_def)
  from gc_preview_exact [OF st garbage_facts(1,2) plain_fs_ok garbage_facts(3) _ _ sz sum adm, where n = 32 and now = "''t9''" and s = garbage_fs] one
  show ?thesis by fastforce
qed

section \<open>The token\<close>

text \<open>
  C30: The tool finds the daemon. With no token configured, on the command line or in the
  environment, and the default token file, the token that the daemon reads or generates at its
  start is the one \<open>hugrsctl\<close> reads from the same machine, and the daemon lets it in.
\<close>

theorem client_finds_daemon_token:
  assumes "ensure_admin_token pid clock c fs = (Inr t, c', fs')"
    and "ca_token (c_admin c) = None" "ca_token_file (c_admin c) = default_admin_token_file_path h"
    and "h_vars h ''HUGRS_ADMIN_TOKEN'' = Var_not_present" "h_vars h ''HUGRS_ADMIN_TOKEN_FILE'' = Var_not_present"
    and "list_all visible_ascii t" "as_admin_token st = t"
  shows "\<exists>cl. discover h fs' endpoint None = Inr cl \<and>
    require_admin [(''authorization'', ''Bearer '' @ ac_admin_token cl)] st = Inr ()"
proof -
  obtain s where s: "t_files fs' (default_admin_token_file_path h) = Some s" "trim s = t"
    using conjunct2 [OF admin_token_file_holds [OF assms(1)]] assms(2,3) by auto
  with assms(4,5) have "resolve_admin_token h fs' None = Inr t"
    by (simp add: resolve_admin_token_def env_string_def)
  with bearer_admits [of st] assms(6,7) show ?thesis by (simp add: discover_def Let_def)
qed

theorem client_finds_daemon_token_witness:
  "\<exists>c' fs' cl. ensure_admin_token 42 (Some 7) (config_default sample_host) sample_fs = (Inr ''hugrs-42-7'', c', fs') \<and>
     discover sample_host fs' None None = Inr cl \<and>
     require_admin [(''authorization'', ''Bearer '' @ ac_admin_token cl)] (sample_state\<lparr>as_admin_token := ''hugrs-42-7''\<rparr>) = Inr ()"
proof -
  obtain c' fs' where e: "ensure_admin_token 42 (Some 7) (config_default sample_host) sample_fs = (Inr ''hugrs-42-7'', c', fs')"
    using sample_token by blast
  have "ca_token (c_admin (config_default sample_host)) = None"
    "ca_token_file (c_admin (config_default sample_host)) = default_admin_token_file_path sample_host"
    "h_vars sample_host ''HUGRS_ADMIN_TOKEN'' = Var_not_present" "h_vars sample_host ''HUGRS_ADMIN_TOKEN_FILE'' = Var_not_present"
    "list_all visible_ascii ''hugrs-42-7''" "as_admin_token (sample_state\<lparr>as_admin_token := ''hugrs-42-7''\<rparr>) = ''hugrs-42-7''"
    by (simp_all add: config_default_def sample_host_def visible_ascii_def)
  from client_finds_daemon_token [OF e this] e show ?thesis by blast
qed

section \<open>Progress\<close>

text \<open>
  For a file of positive size below an eighth of \<open>2 ^ 60\<close> bytes the printed progress is the
  rounded-down percentage, between 0 and 100, and it is 100 exactly when all bytes are there.
\<close>

theorem progress_percent_exact:
  assumes "0 < sz" "sz < 2 ^ 57"
  shows "int (progress_percent got sz whole) = (max 0 (min sz got) * 100) div sz \<and>
    progress_percent got sz whole \<le> 100 \<and> (progress_percent got sz whole = 100) = (sz \<le> got)"
proof -
  define x where "x = max 0 (min sz got)"
  have x: "0 \<le> x" "x \<le> sz" using assms(1) by (auto simp: x_def)
  have "x * 100 < 2 ^ 64" using x assms(2) by simp
  then have "nat (x * 100) < 2 ^ 64" by simp
  moreover have "nat (x * 100) = nat x * 100" using x(1) by (simp add: nat_mult_distrib)
  ultimately have "nat x * 100 < 2 ^ 64" by (simp only:)
  then have "progress_percent got sz whole = min ((nat x * 100) div nat sz) 100"
    using assms(1) by (simp add: progress_percent_def Let_def x_def)
  moreover have "nat x * 100 div nat sz \<le> 100"
    using x assms(1) by (metis div_le_mono div_mult_self1_is_m mult.commute mult_le_mono1 nat_mono zero_less_nat_eq)
  ultimately have p: "progress_percent got sz whole = nat x * 100 div nat sz" by simp
  have i: "int (nat x * 100 div nat sz) = x * 100 div sz" using x assms(1) by (simp add: zdiv_int)
  have "x * 100 div sz = 100 \<longleftrightarrow> x = sz"
  proof
    assume "x * 100 div sz = 100"
    then have "100 * sz \<le> x * 100" using assms(1) by (metis div_mult_mod_eq mult.commute le_add_same_cancel1 pos_mod_sign)
    with x(2) show "x = sz" by simp
  qed (use assms(1) in simp)
  moreover have "x = sz \<longleftrightarrow> sz \<le> got" using assms(1) by (auto simp: x_def)
  ultimately have "(nat x * 100 div nat sz = 100) = (sz \<le> got)" using i by linarith
  with i \<open>nat x * 100 div nat sz \<le> 100\<close> show ?thesis unfolding x_def [symmetric] p by (intro conjI)
qed

theorem progress_percent_exact_witness:
  "int (progress_percent 4 10 False) = 40 \<and> progress_percent 10 10 True = 100"
  using progress_percent_exact [of 10 4 False] progress_percent_exact [of 10 10 True] by simp

text \<open>
  Beyond that the product wraps: for a complete file of \<open>2 ^ 62\<close> bytes the tool prints 0%.
\<close>

theorem progress_percent_wraps: "progress_percent (2 ^ 62) (2 ^ 62) True = 0"
  by (simp add: progress_percent_def Let_def)

end
