(* ===== verification/Proxy.thy ===== *)
theory Proxy
  imports Control Singleflight
begin

text \<open>
  The handlers of \<open>src/server.rs\<close> that clients of the hubs talk to: the file proxy for HEAD and
  GET, the model information and the other API paths that are passed on. The clients of both
  hubs are the parameter \<open>nets\<close>; \<open>CacheService\<close> was built with those of HuggingFace and uses
  them for the files of both hubs. A streamed body is what starts its session.
\<close>

section \<open>Answers\<close>

datatype hub = Hf_hub | Ms_hub

type_synonym networks = "hub \<Rightarrow> network"

datatype proxy_body = Empty_body | Bytes_body bytes | Stream_body stream_start

record proxy_response =
  pr_status :: nat
  pr_headers :: headers
  pr_body :: proxy_body

text \<open>\<open>Response::builder()\<close> with its headers and \<open>body\<close>, which fails on a value no header can have.\<close>

definition valid_value :: "string \<Rightarrow> bool" where
  "valid_value v = list_all (\<lambda>c. let n = (of_char c :: nat) in 32 \<le> n \<and> n \<noteq> 127 \<or> n = 9) v"

definition respond :: "nat \<Rightarrow> headers \<Rightarrow> proxy_body \<Rightarrow> proxy_response app_res" where
  "respond st hs body =
     (if list_all (\<lambda>(_, v). valid_value v) hs then Inr \<lparr>pr_status = st, pr_headers = hs, pr_body = body\<rparr>
      else Inl (App_anyhow (UpstreamError InvalidHeader)))"

definition opt_header :: "string \<Rightarrow> string option \<Rightarrow> headers" where
  "opt_header name v = (case v of None \<Rightarrow> [] | Some x \<Rightarrow> [(name, x)])"

definition hub_config :: "'s app_state \<Rightarrow> string \<Rightarrow> string \<times> hub" where
  "hub_config st source =
     (if source = ''ms'' then (cm_endpoint (c_modelscope (as_config st)), Ms_hub)
      else (ch_endpoint (c_huggingface (as_config st)), Hf_hub))"

definition hub_token :: "'s app_state \<Rightarrow> string \<Rightarrow> string option" where
  "hub_token st source =
     (if source = ''ms'' then cm_token (c_modelscope (as_config st)) else ch_token (c_huggingface (as_config st)))"

definition bearer_header :: "string option \<Rightarrow> headers" where
  "bearer_header token = (case token of None \<Rightarrow> [] | Some t \<Rightarrow> [(''Authorization'', ''Bearer '' @ t)])"

section \<open>Passing API requests on\<close>

text \<open>The answer of the hub as the client gets it; \<open>f\<close> is what reading the body makes of its bytes.\<close>

definition pass_on :: "(headers \<Rightarrow> bytes \<Rightarrow> bytes) \<Rightarrow> http_response option \<Rightarrow> proxy_response app_res" where
  "pass_on f r =
     (case r of
        None \<Rightarrow> Inl (App_anyhow (UpstreamError SendFailed))
      | Some resp \<Rightarrow>
          (case resp_body resp of
             None \<Rightarrow> Inl (App_anyhow (UpstreamError BodyFailed))
           | Some b \<Rightarrow> respond (status resp) (forwardable_headers (resp_headers resp)) (Bytes_body (f (resp_headers resp) b))))"

definition api_prefix :: "string \<Rightarrow> string" where
  "api_prefix source = (if source = ''ms'' then ''api/v1/models'' else ''api/models'')"

text \<open>\<open>resp.text()\<close> decodes the body by its charset: the parameter \<open>text_of\<close>, in UTF-8 again.\<close>

definition model_info_inner ::
  "(headers \<Rightarrow> bytes \<Rightarrow> bytes) \<Rightarrow> 's app_state \<Rightarrow> networks \<Rightarrow> nat \<Rightarrow> string \<Rightarrow> string \<Rightarrow> string \<Rightarrow> string \<Rightarrow>
    proxy_response app_res" where
  "model_info_inner text_of st nets n source org repo revision =
     (case hub_config st source of (endpoint, hub) \<Rightarrow>
        let url = endpoint @ ''/'' @ api_prefix source @ ''/'' @ org @ ''/'' @ repo @ ''/revision/'' @ revision
        in pass_on text_of (nets hub n Http_client GET url (bearer_header (hub_token st source))))"

definition hf_model_info_simple where
  "hf_model_info_simple text_of st nets n org repo = model_info_inner text_of st nets n ''hf'' org repo ''main''"

definition hf_model_info where
  "hf_model_info text_of st nets n org repo revision = model_info_inner text_of st nets n ''hf'' org repo revision"

definition ms_model_info_simple where
  "ms_model_info_simple text_of st nets n org repo = model_info_inner text_of st nets n ''ms'' org repo ''main''"

definition ms_model_info where
  "ms_model_info text_of st nets n org repo revision = model_info_inner text_of st nets n ''ms'' org repo revision"

definition model_api_path_inner ::
  "'s app_state \<Rightarrow> networks \<Rightarrow> nat \<Rightarrow> http_method \<Rightarrow> string \<Rightarrow> string \<Rightarrow> string \<Rightarrow> string \<Rightarrow> string option \<Rightarrow>
    proxy_response app_res" where
  "model_api_path_inner st nets n method source org repo sfx query =
     (case hub_config st source of (endpoint, hub) \<Rightarrow>
        let url = endpoint @ ''/'' @ api_prefix source @ ''/'' @ org @ ''/'' @ repo @ ''/'' @ sfx @
              (case query of None \<Rightarrow> [] | Some q \<Rightarrow> ''?'' @ q);
            hs = bearer_header (hub_token st source)
        in pass_on (\<lambda>_ b. b)
             (if method = HEAD then nets hub n Head_client HEAD url hs else nets hub n Http_client GET url hs))"

definition hf_model_api_suffix where
  "hf_model_api_suffix st nets n method query org repo sfx =
     model_api_path_inner st nets n method ''hf'' org repo sfx query"

definition ms_model_api_suffix where
  "ms_model_api_suffix st nets n method query org repo sfx =
     model_api_path_inner st nets n method ''ms'' org repo sfx query"

definition forward_upstream_response ::
  "'s app_state \<Rightarrow> networks \<Rightarrow> nat \<Rightarrow> string \<Rightarrow> string \<Rightarrow> proxy_response app_res" where
  "forward_upstream_response st nets n source url =
     pass_on (\<lambda>_ b. b)
       (nets (snd (hub_config st source)) n Http_client GET url (bearer_header (hub_token st source)))"

definition agent_harnesses :: "'s app_state \<Rightarrow> networks \<Rightarrow> nat \<Rightarrow> proxy_response app_res" where
  "agent_harnesses st nets n =
     forward_upstream_response st nets n ''hf'' (ch_endpoint (c_huggingface (as_config st)) @ ''/api/agent-harnesses'')"

section \<open>Request headers\<close>

definition parse_range :: "headers \<Rightarrow> (nat \<times> nat option) option" where
  "parse_range hs =
     Option.bind (header_str hs ''range'') (\<lambda>v.
     Option.bind (strip_prefix v ''bytes='') (\<lambda>r.
     Option.bind (split_once (CHR ''-'') r) (\<lambda>(s, e).
     Option.bind (parse_u64 s) (\<lambda>start.
     Option.bind (if e = [] then Some None else map_option Some (parse_u64 e)) (\<lambda>end_opt.
       case end_opt of
         Some end_val \<Rightarrow> if start > end_val then None else Some (start, end_opt)
       | None \<Rightarrow> Some (start, end_opt))))))"

definition forwarded_user_agent :: "headers \<Rightarrow> string option" where
  "forwarded_user_agent hs = header_str hs ''user-agent''"

definition etag_matches_any :: "string \<Rightarrow> string \<Rightarrow> bool" where
  "etag_matches_any cached_etag if_none_match =
     (let cached_stripped = trim_matches (CHR 34) (trim_weak cached_etag)
      in list_ex (\<lambda>e. e = cached_stripped)
           (filter (\<lambda>s. s \<noteq> [])
             (map (\<lambda>s. trim_matches (CHR 34) (trim_weak (trim s))) (split_char (CHR '','') if_none_match))))"

section \<open>Answers about a file\<close>

text \<open>\<open>Path::file_name\<close>\<close>

definition path_file_name :: "string \<Rightarrow> string option" where
  "path_file_name p =
     (let parts = filter (\<lambda>c. c \<noteq> [] \<and> c \<noteq> ''.'') (split_char (CHR ''/'') p)
      in if parts = [] \<or> last parts = ''..'' then None else Some (last parts))"

definition disposition_for :: "string \<Rightarrow> string" where
  "disposition_for path =
     (let filename = (case path_file_name path of None \<Rightarrow> path | Some f \<Rightarrow> f)
      in ''inline; filename*=UTF-8'' @ [CHR 39, CHR 39] @ filename @ ''; filename='' @ [CHR 34] @ filename @ [CHR 34])"

definition repo_headers :: "file_row \<Rightarrow> headers" where
  "repo_headers f =
     opt_header ''Content-Type'' (f_content_type f) @ opt_header ''ETag'' (f_etag f) @
     opt_header ''X-Repo-Commit'' (f_x_repo_commit f) @
     opt_header ''X-Linked-Size'' (map_option show_int (f_x_linked_size f)) @
     opt_header ''X-Linked-ETag'' (f_x_linked_etag f)"

definition build_304_response :: "file_row \<Rightarrow> proxy_response app_res" where
  "build_304_response f =
     respond 304
       ([(''Content-Length'', show_int (f_total_size f)), (''Accept-Ranges'', ''bytes'')] @
        opt_header ''ETag'' (f_etag f) @ opt_header ''Content-Type'' (f_content_type f)) Empty_body"

definition build_head_response :: "file_row \<Rightarrow> string \<Rightarrow> proxy_response app_res" where
  "build_head_response f path =
     respond 200
       ([(''Content-Disposition'', disposition_for path), (''Content-Length'', show_int (f_total_size f)),
         (''Accept-Ranges'', ''bytes'')] @ repo_headers f) Empty_body"

definition content_range :: "nat \<times> nat option \<Rightarrow> nat \<Rightarrow> string" where
  "content_range r size_total =
     ''bytes '' @ show_nat (fst r) @ ''-'' @ (case snd r of None \<Rightarrow> ''*'' | Some e \<Rightarrow> show_nat e) @ ''/'' @ show_nat size_total"

definition build_stream_response ::
  "stream_start \<Rightarrow> string \<Rightarrow> (nat \<times> nat option) option \<Rightarrow> proxy_response app_res" where
  "build_stream_response ss path rng =
     (case ss of (f, content_length, _) \<Rightarrow>
        respond (if rng \<noteq> None then 206 else 200)
          ([(''Content-Disposition'', disposition_for path), (''Content-Length'', show_nat content_length),
            (''Accept-Ranges'', ''bytes'')] @
           (case rng of None \<Rightarrow> [] | Some r \<Rightarrow> [(''Content-Range'', content_range r (i64_as_u64 (f_total_size f)))]) @
           repo_headers f) (Stream_body ss))"

section \<open>The file proxy\<close>

definition repo_id_of :: "string \<Rightarrow> string" where
  "repo_id_of cache_name =
     (case splitn 3 (CHR ''/'') cache_name of a # b # _ \<Rightarrow> a @ ''/'' @ b | _ \<Rightarrow> [])"

text \<open>
  HEAD. \<open>joined\<close> is what the leader of the key handed to this request, if it joined one; else it
  leads and does the work itself.
\<close>

definition file_proxy_head ::
  "string \<Rightarrow> network \<Rightarrow> nat \<Rightarrow> metadata_reconcile_outcome res option \<Rightarrow> string \<Rightarrow> string \<Rightarrow> string \<Rightarrow> string \<Rightarrow>
    string option \<Rightarrow> db \<Rightarrow> proxy_response app_res \<times> db" where
  "file_proxy_head now net n joined source url cache_name path ua d =
     (case (case joined of
              Some r \<Rightarrow> (r, d)
            | None \<Rightarrow> leader_attempt now net n url cache_name (repo_id_of cache_name) source ua d) of
        (Inl e, d') \<Rightarrow> (Inl (App_anyhow e), d')
      | (Inr (ForwardHeadFailure st hs), d') \<Rightarrow> (respond st hs Empty_body, d')
      | (Inr MetadataReady, d') \<Rightarrow>
          (case info cache_name source d' of
             Inr (Some f) \<Rightarrow> (build_head_response f path, d')
           | _ \<Rightarrow> (Inl (App_anyhow (UpstreamError (ReconcileNotPersisted cache_name))), d')))"

text \<open>
  GET, first part: the complete file in the cache and the check of its entity tag with the hub.
  The result is the file, whether its tag is out of date, and the database.
\<close>

definition validate_cached ::
  "network \<Rightarrow> bool \<Rightarrow> nat \<Rightarrow> string \<Rightarrow> string \<Rightarrow> string \<Rightarrow> string option \<Rightarrow> string \<Rightarrow> string option \<Rightarrow>
    file_row option \<Rightarrow> db \<Rightarrow> file_row option \<times> bool \<times> db" where
  "validate_cached net timed_out n now url source ua cache_name cached_etag cached_file d =
     (case cached_etag of
        None \<Rightarrow> (cached_file, False, d)
      | Some etag \<Rightarrow>
          (case validate_file_etag net timed_out n url source ua etag of
             Inl _ \<Rightarrow> (cached_file, False, d)
           | Inr outcome \<Rightarrow>
               if matched outcome
               then (case (cached_file, eo_content_type outcome) of
                       (Some f, Some ct) \<Rightarrow>
                         if f_content_type f = None
                         then (Some (f\<lparr>f_content_type := Some ct\<rparr>), False,
                               snd (set_file_headers cache_name source (f_etag f) (f_x_repo_commit f)
                                      (f_x_linked_size f) (f_x_linked_etag f) (Some ct) d))
                         else (cached_file, False, d)
                     | _ \<Rightarrow> (cached_file, False, d))
               else (cached_file, True, snd (delete_file now cache_name source d))))"

definition start_of_range :: "(nat \<times> nat option) option \<Rightarrow> nat option" where
  "start_of_range r = map_option fst r"

definition end_of_range :: "(nat \<times> nat option) option \<Rightarrow> nat option" where
  "end_of_range r = Option.bind r snd"

text \<open>GET, last part: the metadata from the hub, and the stream or the hub's own failure.\<close>

definition refresh_and_stream ::
  "'s app_state \<Rightarrow> string \<Rightarrow> network \<Rightarrow> nat \<Rightarrow> (int \<Rightarrow> bool) \<Rightarrow> bool \<Rightarrow> nat \<Rightarrow> string \<Rightarrow> string \<Rightarrow> string \<Rightarrow> string \<Rightarrow>
    string option \<Rightarrow> (nat \<times> nat option) option \<Rightarrow> 's world \<Rightarrow> proxy_response app_res \<times> 's world" where
  "refresh_and_stream st now net n gone stopped chan source url cache_name path ua rng w =
     (case probe_file_metadata net n url source ua of
        Inl e \<Rightarrow> (Inl (App_anyhow e), w)
      | Inr (Upstream_failure code hs) \<Rightarrow>
          (respond code hs
             (Bytes_body (case Option.bind (net (n + 2) Http_client GET url (ua_headers ua)) resp_body of
                            None \<Rightarrow> [] | Some b \<Rightarrow> b)), w)
      | Inr (Metadata_found m) \<Rightarrow>
          (case stream_from_upstream_with_metadata (as_backend st) now (as_service st) gone stopped chan url cache_name
                  (repo_id_of cache_name) source m (start_of_range rng) (end_of_range rng) ua w of
             (Inl e, w') \<Rightarrow> (Inl (App_anyhow e), w')
           | (Inr ss, w') \<Rightarrow> (build_stream_response ss path rng, w')))"

text \<open>GET, between the two: what is answered from the cache; \<open>hit\<close> says that the client has the tag.\<close>

definition serve_cached ::
  "'s app_state \<Rightarrow> string \<Rightarrow> network \<Rightarrow> nat \<Rightarrow> (int \<Rightarrow> bool) \<Rightarrow> bool \<Rightarrow> nat \<Rightarrow> string \<Rightarrow> string \<Rightarrow> string \<Rightarrow> string \<Rightarrow>
    string option \<Rightarrow> (nat \<times> nat option) option \<Rightarrow> bool \<Rightarrow> bool \<Rightarrow> file_row option \<times> bool \<Rightarrow> 's world \<Rightarrow>
    proxy_response app_res \<times> 's world" where
  "serve_cached st now net n gone stopped chan source url cache_name path ua rng range_stale hit cached w =
     (case cached of
        (Some f, etag_invalid) \<Rightarrow>
          if hit then (build_304_response f, w)
          else if \<not> etag_invalid \<and> \<not> range_stale
          then (case stream_http_file (as_backend st) now (as_service st) gone stopped chan url f
                       (start_of_range rng) (end_of_range rng) ua w of
                  (Inl e, w') \<Rightarrow> (Inl (App_anyhow e), w')
                | (Inr ss, w') \<Rightarrow> (build_stream_response ss path rng, w'))
          else refresh_and_stream st now net n gone stopped chan source url cache_name path ua rng w
      | (None, _) \<Rightarrow> refresh_and_stream st now net n gone stopped chan source url cache_name path ua rng w)"

definition file_proxy_get ::
  "'s app_state \<Rightarrow> string \<Rightarrow> network \<Rightarrow> bool \<Rightarrow> nat \<Rightarrow> (int \<Rightarrow> bool) \<Rightarrow> bool \<Rightarrow> nat \<Rightarrow> string \<Rightarrow> string \<Rightarrow> string \<Rightarrow>
    string \<Rightarrow> string option \<Rightarrow> headers \<Rightarrow> 's world \<Rightarrow> proxy_response app_res \<times> 's world" where
  "file_proxy_get st now net timed_out n gone stopped chan source url cache_name path ua hs w =
     (let rng = parse_range hs;
          if_none_match = header_str hs ''if-none-match'';
          cached = (case get_complete_file cache_name source (w_db w) of Inl _ \<Rightarrow> None | Inr f \<Rightarrow> f);
          range_stale = (case cached of
                           None \<Rightarrow> False
                         | Some f \<Rightarrow> (case rng of None \<Rightarrow> 0 | Some r \<Rightarrow> fst r) \<ge> i64_as_u64 (f_total_size f));
          cached_etag = (if range_stale then None else Option.bind cached f_etag);
          hit = (case (if_none_match, cached_etag) of
                   (Some inm, Some etag) \<Rightarrow> etag_matches_any etag inm
                 | _ \<Rightarrow> False)
      in case validate_cached net timed_out n now url source ua cache_name cached_etag cached (w_db w) of
           (cached_file, etag_invalid, d) \<Rightarrow>
             serve_cached st now net (n + 2) gone stopped chan source url cache_name path ua rng range_stale hit
               (cached_file, etag_invalid) (w\<lparr>w_db := d\<rparr>))"

definition file_proxy_inner ::
  "'s app_state \<Rightarrow> string \<Rightarrow> networks \<Rightarrow> bool \<Rightarrow> nat \<Rightarrow> (int \<Rightarrow> bool) \<Rightarrow> bool \<Rightarrow> nat \<Rightarrow>
    metadata_reconcile_outcome res option \<Rightarrow> string \<Rightarrow> string \<Rightarrow> string \<Rightarrow> http_method \<Rightarrow> headers \<Rightarrow> string \<Rightarrow>
    string option \<Rightarrow> 's world \<Rightarrow> proxy_response app_res \<times> 's world" where
  "file_proxy_inner st now nets timed_out n gone stopped chan joined source url cache_name method hs path ua w =
     (if method = HEAD
      then case file_proxy_head now (nets Hf_hub) n joined source url cache_name path ua (w_db w) of
             (r, d) \<Rightarrow> (r, w\<lparr>w_db := d\<rparr>)
      else file_proxy_get st now (nets Hf_hub) timed_out n gone stopped chan source url cache_name path ua hs w)"

text \<open>The three routes that lead here, as the arguments they pass: source, URL, name and path.\<close>

definition hf_file_proxy :: "'s app_state \<Rightarrow> string \<Rightarrow> string \<Rightarrow> string \<Rightarrow> string \<Rightarrow> string \<times> string \<times> string \<times> string" where
  "hf_file_proxy st org repo revision path =
     (let repo_id = org @ ''/'' @ repo; endpoint = fst (hub_config st ''hf'')
      in (''hf'', endpoint @ ''/'' @ repo_id @ ''/resolve/'' @ revision @ ''/'' @ path, repo_id @ ''/'' @ path, path))"

definition ms_file_proxy :: "'s app_state \<Rightarrow> string \<Rightarrow> string \<Rightarrow> string \<Rightarrow> string \<Rightarrow> string \<times> string \<times> string \<times> string" where
  "ms_file_proxy st org repo revision path =
     (let repo_id = org @ ''/'' @ repo; endpoint = fst (hub_config st ''ms'')
      in (''ms'', endpoint @ ''/'' @ repo_id @ ''/resolve/'' @ revision @ ''/'' @ path, repo_id @ ''/'' @ path, path))"

definition ms_repo_file_proxy ::
  "'s app_state \<Rightarrow> string \<Rightarrow> string \<Rightarrow> (string \<rightharpoonup> string) \<Rightarrow> string \<times> string \<times> string \<times> string" where
  "ms_repo_file_proxy st org repo params =
     (let revision = (case params ''Revision'' of None \<Rightarrow> ''master'' | Some r \<Rightarrow> r);
          path = (case params ''FilePath'' of None \<Rightarrow> [] | Some p \<Rightarrow> p);
          endpoint = fst (hub_config st ''ms'')
      in (''ms'', endpoint @ ''/api/v1/models/'' @ org @ ''/'' @ repo @ ''/repo?Revision='' @ revision @
                  ''&FilePath='' @ path, org @ ''/'' @ repo @ ''/'' @ path, path))"

end
