(* ===== verification/Proxy_Props.thy ===== *)
theory Proxy_Props
  imports Proxy Upstream_Props Session_Sharing
begin

text \<open>
  The properties of the file proxy: which range headers it understands, what a HEAD answers
  after its probe, and that a GET that starts a session delivers the bytes it promises.
\<close>

section \<open>Ranges\<close>

lemma parse_digits_no_dash: "parse_digits acc s = Some n \<Longrightarrow> CHR ''-'' \<notin> set s"
  by (induction s arbitrary: acc) (auto split: option.splits)

lemma parse_u64_no_dash: "parse_u64 s = Some n \<Longrightarrow> CHR ''-'' \<notin> set s"
  by (auto simp: parse_u64_def parse_unsigned_def Let_def split: list.splits if_splits option.splits
      dest: parse_digits_no_dash)

lemma parse_u64_empty [simp]: "parse_u64 [] = None"
  by (simp add: parse_u64_def parse_unsigned_def)

text \<open>
  C12: The proxy honours exactly the range headers of the form \<open>bytes=a-b\<close> and \<open>bytes=a-\<close> with
  decimal numbers that fit 64 bits and, in the first form, \<open>a\<close> not greater than \<open>b\<close>; every
  other header is treated as if there were none.
\<close>

theorem parse_range_iff:
  "parse_range hs = Some (a, eo) \<longleftrightarrow>
     (\<exists>s e. header_str hs ''range'' = Some (''bytes='' @ s @ ''-'' @ e) \<and> parse_u64 s = Some a \<and>
        (case eo of None \<Rightarrow> e = [] | Some b \<Rightarrow> parse_u64 e = Some b \<and> a \<le> b))"
proof
  assume "parse_range hs = Some (a, eo)"
  then obtain v r s e where v: "header_str hs ''range'' = Some v" "strip_prefix v ''bytes='' = Some r"
      "split_once (CHR ''-'') r = Some (s, e)" "parse_u64 s = Some a"
    and eo: "case eo of None \<Rightarrow> e = [] | Some b \<Rightarrow> parse_u64 e = Some b \<and> a \<le> b"
    by (auto simp: parse_range_def bind_eq_Some_conv split: if_splits option.splits)
  from v have "v = ''bytes='' @ s @ ''-'' @ e" by (simp add: strip_prefix_Some_iff split_once_Some_iff)
  with v eo show "\<exists>s e. header_str hs ''range'' = Some (''bytes='' @ s @ ''-'' @ e) \<and> parse_u64 s = Some a \<and>
        (case eo of None \<Rightarrow> e = [] | Some b \<Rightarrow> parse_u64 e = Some b \<and> a \<le> b)" by auto
next
  assume "\<exists>s e. header_str hs ''range'' = Some (''bytes='' @ s @ ''-'' @ e) \<and> parse_u64 s = Some a \<and>
        (case eo of None \<Rightarrow> e = [] | Some b \<Rightarrow> parse_u64 e = Some b \<and> a \<le> b)"
  then obtain s e where h: "header_str hs ''range'' = Some (''bytes='' @ s @ ''-'' @ e)" "parse_u64 s = Some a"
    and eo: "case eo of None \<Rightarrow> e = [] | Some b \<Rightarrow> parse_u64 e = Some b \<and> a \<le> b" by blast
  have "strip_prefix (''bytes='' @ s @ ''-'' @ e) ''bytes='' = Some (s @ ''-'' @ e)"
    by (simp only: strip_prefix_append)
  moreover have "split_once (CHR ''-'') (s @ ''-'' @ e) = Some (s, e)"
    using parse_u64_no_dash [OF h(2)] by (simp add: split_once_Some_iff)
  ultimately show "parse_range hs = Some (a, eo)"
    using h eo by (auto simp: parse_range_def split: option.splits)
qed

lemma digits_visible: "digit_val c \<noteq> None \<Longrightarrow> visible_ascii c"
  by (auto simp: digit_val_def visible_ascii_def Let_def split: if_splits)

lemma show_nat_visible: "list_all visible_ascii (show_nat n)"
  using show_nat_digits digits_visible by (auto simp: list_all_iff)

text \<open>
  A range header printed from two numbers is read back as those numbers.
\<close>

theorem range_roundtrip:
  assumes "a \<le> b" "b < 2 ^ 64"
  shows "parse_range [(''range'', ''bytes='' @ show_nat a @ ''-'' @ show_nat b)] = Some (a, Some b)"
proof -
  have "list_all visible_ascii (''bytes='' @ show_nat a @ ''-'' @ show_nat b)"
    using show_nat_visible by (simp add: visible_ascii_def)
  then have "header_str [(''range'', ''bytes='' @ show_nat a @ ''-'' @ show_nat b)] ''range'' =
      Some (''bytes='' @ show_nat a @ ''-'' @ show_nat b)"
    by (simp add: header_str_def header_get_def to_str_def)
  moreover have "parse_u64 (show_nat a) = Some a" "parse_u64 (show_nat b) = Some b"
    using assms by (simp_all add: parse_u64_show)
  ultimately show ?thesis using assms(1) unfolding parse_range_iff by fastforce
qed

theorem range_roundtrip_witness: "parse_range [(''range'', ''bytes='' @ show_nat 5 @ ''-'' @ show_nat 9)] = Some (5, Some 9)"
  by (rule range_roundtrip) simp_all

section \<open>GET\<close>

lemma respond_Inr: "respond st hs b = Inr r \<longleftrightarrow> list_all (\<lambda>(_, v). valid_value v) hs \<and>
    r = \<lparr>pr_status = st, pr_headers = hs, pr_body = b\<rparr>"
  by (auto simp: respond_def)

lemma stream_http_file_new:
  assumes "stream_http_file B now cfg gone stopped chan url fl a b ua w = (Inr (f, len, msg, Some (act, cached)), w')"
  shows "f = fl" "act = snd (spawn (f_id fl) (f_name fl) url (i64_as_u64 (f_total_size fl))
      (div_ceil (i64_as_u64 (f_total_size fl)) CHUNK_SIZE) ua (sc_prefetch_budget_base cfg) fl)"
    "handle_subscribe False (fst (spawn (f_id fl) (f_name fl) url (i64_as_u64 (f_total_size fl))
      (div_ceil (i64_as_u64 (f_total_size fl)) CHUNK_SIZE) ua (sc_prefetch_budget_base cfg) fl)) chan
      (Some ((case a of None \<Rightarrow> 0 | Some x \<Rightarrow> x), b)) = Inr (f, len, msg)"
proof -
  let ?sp = "spawn (f_id fl) (f_name fl) url (i64_as_u64 (f_total_size fl))
      (div_ceil (i64_as_u64 (f_total_size fl)) CHUNK_SIZE) ua (sc_prefetch_budget_base cfg) fl"
  obtain h m where gc: "get_or_create gone (f_id fl) (f_name fl) url (i64_as_u64 (f_total_size fl))
      (sc_prefetch_budget_base cfg) ua fl (w_sessions w) = (h, Some act, m)"
    and hs: "handle_subscribe stopped h chan (Some ((case a of None \<Rightarrow> 0 | Some x \<Rightarrow> x), b)) = Inr (f, len, msg)"
    using assms by (auto simp: stream_http_file_def Let_def res_bind_Inr_iff split: sum.splits prod.splits)
  from gc have sp: "?sp = (h, act)"
    by (auto simp: get_or_create_def split: option.splits prod.splits if_splits)
  then show "act = snd ?sp" by simp
  from hs have "\<not> stopped" "f = ah_file h" by (auto simp: handle_subscribe_def Let_def split: if_splits)
  with hs sp show "handle_subscribe False (fst ?sp) chan (Some ((case a of None \<Rightarrow> 0 | Some x \<Rightarrow> x), b)) = Inr (f, len, msg)"
    by simp
  from \<open>f = ah_file h\<close> sp show "f = fl" by (auto simp: spawn_def)
qed

lemma get_stream:
  assumes "file_proxy_get st now net timed_out n gone stopped chan source url cache_name path ua hs w = (Inr r, w')"
    and "pr_body r = Stream_body ss"
  obtains fl w1 where "stream_http_file (as_backend st) now (as_service st) gone stopped chan url fl
      (start_of_range (parse_range hs)) (end_of_range (parse_range hs)) ua w1 = (Inr ss, w')"
    "build_stream_response ss path (parse_range hs) = Inr r"
proof -
  note found = that
  have body: "pr_body r' \<noteq> Stream_body ss" if "build_304_response f = Inr r'" for r' f
    using that by (auto simp: build_304_response_def respond_Inr)
  have same: "ss' = ss" if "build_stream_response ss' path rng = Inr r" for ss' rng
    using that assms(2) by (auto simp: build_stream_response_def respond_Inr split: prod.splits)
  have refresh: thesis if "refresh_and_stream st now net k gone stopped chan source url cache_name path ua (parse_range hs) w1 = (Inr r, w')" for k w1
  proof -
    from that assms(2) obtain m ss' where
      s: "stream_from_upstream_with_metadata (as_backend st) now (as_service st) gone stopped chan url cache_name
          (repo_id_of cache_name) source m (start_of_range (parse_range hs)) (end_of_range (parse_range hs)) ua w1 = (Inr ss', w')"
      and b: "build_stream_response ss' path (parse_range hs) = Inr r"
      by (auto simp: refresh_and_stream_def respond_Inr split: sum.splits metadata_probe_result.splits prod.splits)
    from s obtain fl w2 where "stream_http_file (as_backend st) now (as_service st) gone stopped chan url fl
        (start_of_range (parse_range hs)) (end_of_range (parse_range hs)) ua w2 = (Inr ss', w')"
      by (auto simp: stream_from_upstream_with_metadata_def split: sum.splits prod.splits option.splits)
    with b same [OF b] show thesis by (intro found) auto
  qed
  from assms(1) obtain k stale hit c w1 where
    "serve_cached st now net k gone stopped chan source url cache_name path ua (parse_range hs) stale hit c w1 = (Inr r, w')"
    unfolding file_proxy_get_def Let_def by (auto split: prod.splits)
  note served = this
  obtain cf invalid where c: "c = (cf, invalid)" by (cases c)
  show thesis
  proof (cases cf)
    case None
    with served c have "refresh_and_stream st now net k gone stopped chan source url cache_name path ua (parse_range hs) w1 = (Inr r, w')"
      by (simp add: serve_cached_def)
    then show thesis by (rule refresh)
  next
    case (Some f)
    consider (tag) hit | (stream) "\<not> hit" "\<not> invalid \<and> \<not> stale" | (again) "\<not> hit" "\<not> (\<not> invalid \<and> \<not> stale)" by blast
    then show thesis
    proof cases
      case tag
      with served c Some have "build_304_response f = Inr r" by (simp add: serve_cached_def)
      with body assms(2) show thesis by blast
    next
      case stream
      obtain q w2 where q: "stream_http_file (as_backend st) now (as_service st) gone stopped chan url f
          (start_of_range (parse_range hs)) (end_of_range (parse_range hs)) ua w1 = (q, w2)" by fastforce
      with stream served c Some obtain ss' where "q = Inr ss'" "build_stream_response ss' path (parse_range hs) = Inr r" "w2 = w'"
        by (cases q) (simp_all add: serve_cached_def)
      with q same found show thesis by blast
    next
      case again
      with served c Some have "refresh_and_stream st now net k gone stopped chan source url cache_name path ua (parse_range hs) w1 = (Inr r, w')"
        by (simp add: serve_cached_def)
      then show thesis by (rule refresh)
    qed
  qed
qed


definition sample_proxy :: "fs app_state" where
  "sample_proxy = \<lparr>as_config = config_default \<lparr>h_vars = (\<lambda>_. Var_not_present), h_config_dir = None,
       h_data_local_dir = None, h_home_dir = None, h_current_dir = None\<rparr>, as_admin_token = ''t'',
     as_backend = local_ops id Some (plain_backend ''root''), as_service = \<lparr>sc_max_size = None, sc_prefetch_budget_base = 8\<rparr>,
     as_version = ''0'', as_fetched = 0, as_served = 0\<rparr>"

definition sample_world :: "fs world" where
  "sample_world = \<lparr>w_db = two_repos_db, w_store = garbage_fs, w_sessions = Map.empty\<rparr>"

lemma sample_get:
  "\<exists>r w' f act cached. file_proxy_get sample_proxy ''t9'' net False 0 (\<lambda>_. False) False 5 ''hf'' ''u'' ''o/r/a'' ''a'' None []
     sample_world = (Inr r, w') \<and> f_total_size f = 4 \<and>
     pr_body r = Stream_body (f, 4, Subscribe 5 f (0, 3), Some (act, cached))"
proof -
  let ?f = "files two_repos_db ! 0"
  have c: "get_complete_file ''o/r/a'' ''hf'' two_repos_db = Inr (Some ?f)" by code_simp
  have f: "f_total_size ?f = 4" "f_etag ?f = None" "f_content_type ?f = None" "f_x_repo_commit ?f = None"
    "f_x_linked_size ?f = None" "f_x_linked_etag ?f = None" by code_simp+
  have four: "i64_as_u64 4 = 4" by (simp add: i64_as_u64_nonneg)
  obtain fcs where fcs: "get_file_chunks (f_id ?f) two_repos_db = Inr fcs"
    using two_repos_facts(2) by (simp add: get_file_chunks_def)
  obtain h act m where gc: "get_or_create (\<lambda>_. False) (f_id ?f) (f_name ?f) ''u'' 4 8 None ?f Map.empty = (h, Some act, m)"
    and h: "h = \<lparr>ah_file = ?f, ah_total_size = 4\<rparr>"
    by (simp add: get_or_create_def spawn_def)
  have s: "stream_http_file (as_backend sample_proxy) ''t9'' (as_service sample_proxy) (\<lambda>_. False) False 5 ''u'' ?f None None None sample_world =
      (Inr (?f, 4, Subscribe 5 ?f (0, 3), Some (act, cached_chunks_of fcs)), sample_world\<lparr>w_sessions := m\<rparr>)"
    using fcs gc h f(1) four
    by (simp add: stream_http_file_def sample_proxy_def sample_world_def Let_def handle_subscribe_def saturating_sub_def)
  have v: "\<exists>r. build_stream_response (?f, 4, Subscribe 5 ?f (0, 3), Some (act, cached_chunks_of fcs)) ''a'' None = Inr r \<and>
      pr_body r = Stream_body (?f, 4, Subscribe 5 ?f (0, 3), Some (act, cached_chunks_of fcs))"
    using f four by (simp add: build_stream_response_def respond_def repo_headers_def opt_header_def disposition_for_def
        path_file_name_def valid_value_def show_nat.simps digit_char_def)
  have "parse_range [] = None" "header_str [] k = None" for k
    by (simp_all add: parse_range_def header_str_def header_get_def)
  with c f four s v show ?thesis
    by (auto simp: file_proxy_get_def sample_world_def validate_cached_def serve_cached_def Let_def start_of_range_def end_of_range_def)
qed


section \<open>HEAD\<close>

lemma head_headers:
  assumes "build_head_response f path = Inr r"
  shows "pr_status r = 200" "pr_body r = Empty_body" "(''Content-Length'', show_int (f_total_size f)) \<in> set (pr_headers r)"
    "f_etag f = Some e \<Longrightarrow> (''ETag'', e) \<in> set (pr_headers r)"
    "f_x_repo_commit f = Some c \<Longrightarrow> (''X-Repo-Commit'', c) \<in> set (pr_headers r)"
  using assms by (auto simp: build_head_response_def respond_Inr repo_headers_def opt_header_def)



section \<open>What goes wrong\<close>

text \<open>
  C39: A client is told that its copy is current at the moment the proxy learns that it is not.
  When the hub reports a new entity tag for a complete cached file, the file is deleted, and a
  client that sent the old tag in \<open>If-None-Match\<close> is answered with 304 all the same.
\<close>

theorem not_modified_after_invalidation:
  assumes "get_complete_file cache_name source (w_db w) = Inr (Some f)" "f_etag f = Some etag"
    and "parse_range hs = None" "0 < i64_as_u64 (f_total_size f)"
    and "header_str hs ''if-none-match'' = Some inm" "etag_matches_any etag inm"
    and "validate_file_etag net timed_out n url source ua etag = Inr out" "\<not> matched out" "db_inv (w_db w)"
  shows "\<exists>d'. file_proxy_get st now net timed_out n gone stopped chan source url cache_name path ua hs w =
      (build_304_response f, w\<lparr>w_db := d'\<rparr>) \<and> lookup_file cache_name source d' = None \<and>
    (\<forall>r. build_304_response f = Inr r \<longrightarrow> pr_status r = 304)"
proof -
  let ?d = "snd (delete_file now cache_name source (w_db w))"
  have "\<not> poisoned (w_db w)"
    using assms(1) by (auto simp: get_complete_file_def get_file_by_name_def with_conn_def split: if_splits)
  then have "lookup_file cache_name source ?d = None" by (rule lookup_after_delete [OF assms(9)])
  moreover have "file_proxy_get st now net timed_out n gone stopped chan source url cache_name path ua hs w =
      (build_304_response f, w\<lparr>w_db := ?d\<rparr>)"
    using assms(1-8) by (simp add: file_proxy_get_def Let_def validate_cached_def serve_cached_def)
  moreover have "pr_status r = 304" if "build_304_response f = Inr r" for r
    using that by (simp add: build_304_response_def respond_Inr)
  ultimately show ?thesis by blast
qed

definition tagged_db :: db where
  "tagged_db = snd (set_file_headers ''o/r/a'' ''hf'' (Some ''old'') None None None None two_repos_db)"

theorem not_modified_after_invalidation_witness:
  "\<exists>f d'. file_proxy_get sample_proxy ''t9'' ok_network False 0 (\<lambda>_. False) False 5 ''hf'' ''u'' ''o/r/a'' ''a'' None
      [(''if-none-match'', ''old'')] (sample_world\<lparr>w_db := tagged_db\<rparr>) =
      (build_304_response f, sample_world\<lparr>w_db := d'\<rparr>) \<and> lookup_file ''o/r/a'' ''hf'' d' = None"
proof -
  let ?f = "files tagged_db ! 0"
  have c: "get_complete_file ''o/r/a'' ''hf'' tagged_db = Inr (Some ?f)" by code_simp
  have f: "f_etag ?f = Some ''old''" "f_total_size ?f = 4" by code_simp+
  then have z: "0 < i64_as_u64 (f_total_size ?f)" by (simp add: i64_as_u64_nonneg)
  have h: "parse_range [(''if-none-match'', ''old'')] = None" "header_str [(''if-none-match'', ''old'')] ''if-none-match'' = Some ''old''"
    "etag_matches_any ''old'' ''old''" by code_simp+
  have v: "\<exists>out. validate_file_etag ok_network False 0 ''u'' ''hf'' None ''old'' = Inr out \<and> \<not> matched out"
    by (simp add: validate_file_etag_def fetch_file_metadata_def probe_file_metadata_def ok_network_def Let_def is_success_def
        is_redirection_def entity_headers_def use_get_for_first_hop_probe_def header_str_def header_get_def to_str_def
        visible_ascii_def parse_u64_def parse_unsigned_def digit_val_def)
  have inv: "db_inv tagged_db" unfolding tagged_db_def by (rule set_file_headers_inv [OF two_repos_facts(1)])
  obtain out where "validate_file_etag ok_network False 0 ''u'' ''hf'' None ''old'' = Inr out" "\<not> matched out" using v by blast
  from not_modified_after_invalidation [where w = "sample_world\<lparr>w_db := tagged_db\<rparr>", OF _ f(1) h(1) z h(2,3) this] c inv
  show ?thesis by fastforce
qed

text \<open>
  The \<open>Content-Range\<close> of a partial answer repeats what was asked, not what is sent: an open
  range is answered with \<open>*\<close> in place of its last byte, and a range that reaches beyond the
  file with an end the file does not have, while the content length is that of the bytes sent.
\<close>

theorem content_range_repeats_request:
  assumes "handle_subscribe False h chan (Some (a, eo)) = Inr (f, len, msg)"
    and "build_stream_response (f, len, msg, new) path (Some (a, eo)) = Inr r"
    and "case eo of None \<Rightarrow> True | Some e \<Rightarrow> ah_total_size h \<le> e"
  shows "(''Content-Length'', show_nat (ah_total_size h - a)) \<in> set (pr_headers r) \<and> pr_status r = 206 \<and>
    (''Content-Range'', ''bytes '' @ show_nat a @ ''-'' @ (case eo of None \<Rightarrow> ''*'' | Some e \<Rightarrow> show_nat e) @ ''/'' @
       show_nat (i64_as_u64 (f_total_size f))) \<in> set (pr_headers r)"
proof -
  have "len = ah_total_size h - a"
    using assms(1,3) by (auto simp: handle_subscribe_def Let_def saturating_sub_def split: if_splits option.splits)
  with assms(2) show ?thesis by (auto simp: build_stream_response_def respond_Inr content_range_def)
qed

theorem content_range_repeats_request_witness:
  "\<exists>r. build_stream_response (tiny_file, 2, Subscribe 5 tiny_file (1, 2), None) ''a'' (Some (1, Some 99)) = Inr r \<and>
     (''Content-Length'', show_nat 2) \<in> set (pr_headers r) \<and>
     (''Content-Range'', ''bytes '' @ show_nat 1 @ ''-'' @ show_nat 99 @ ''/'' @ show_nat (i64_as_u64 (f_total_size tiny_file))) \<in> set (pr_headers r)"
proof -
  let ?h = "\<lparr>ah_file = tiny_file, ah_total_size = 3\<rparr>"
  have h: "handle_subscribe False ?h 5 (Some (1, Some 99)) = Inr (tiny_file, 2, Subscribe 5 tiny_file (1, 2))"
    by (simp add: handle_subscribe_def saturating_sub_def)
  have "i64_as_u64 3 = 3" by (simp add: i64_as_u64_nonneg)
  then obtain r where r: "build_stream_response (tiny_file, 2, Subscribe 5 tiny_file (1, 2), None) ''a'' (Some (1, Some 99)) = Inr r"
    by (simp add: build_stream_response_def respond_def repo_headers_def opt_header_def disposition_for_def tiny_file_def
        path_file_name_def valid_value_def show_nat.simps digit_char_def content_range_def)
  from content_range_repeats_request [OF h r] r show ?thesis by auto
qed

end
