(* ===== verification/Download_Cycle.thy ===== *)
theory Download_Cycle
  imports Fetch_Props Cached_Props Metadata_Props Gc_Props Upstream
begin

text \<open>
  The life of a file in the cache, across \<open>session.rs\<close>, \<open>metadata.rs\<close> and \<open>service.rs\<close>: its
  chunks are downloaded in any order, each download announces what it stored, the recording task
  of \<open>CacheService::new\<close> enters the announcements in the database, and from then on the file is
  complete, is streamed from the store, and survives garbage collection.
\<close>

section \<open>Downloading the chunks of a file\<close>

text \<open>
  The chunks \<open>idxs\<close> of a file one after the other, each with the byte span the actor asks for
  (\<open>download_and_forward\<close>); \<open>nets\<close> are the answers of the server to the attempts for a chunk.
\<close>

fun fetch_all ::
  "(bytes \<Rightarrow> bytes) \<Rightarrow> 's backend \<Rightarrow> chunk_reader \<Rightarrow> (nat \<Rightarrow> nat \<Rightarrow> http_outcome) \<Rightarrow> int \<Rightarrow> nat \<Rightarrow> nat list \<Rightarrow>
    's fetch_state \<Rightarrow> unit res \<times> 's fetch_state" where
  "fetch_all dg B cr nets file_id total_size [] st = (Inr (), st)"
| "fetch_all dg B cr nets file_id total_size (idx # idxs) st =
     (case chunk_span total_size idx of (start, end_pos) \<Rightarrow>
        (case fetch_chunk dg B cr (nets idx) file_id idx start end_pos st of
           (Inl e, st') \<Rightarrow> (Inl e, st')
         | (Inr _, st') \<Rightarrow> fetch_all dg B cr nets file_id total_size idxs st'))"

text \<open>A server that answers for the span in time, after transient failures only.\<close>

definition serves :: "bytes \<Rightarrow> chunk_reader \<Rightarrow> (nat \<Rightarrow> http_outcome) \<Rightarrow> nat \<times> nat \<Rightarrow> bool" where
  "serves content cr net ab \<longleftrightarrow>
     (\<exists>k. 1 \<le> k \<and> k \<le> max_retries cr \<and> good_response content (fst ab) (snd ab) (net k) \<and>
        (\<forall>j. 1 \<le> j \<and> j < k \<longrightarrow> transient (snd ab - fst ab + 1) (net j)))"

abbreviation chunk_sha :: "(bytes \<Rightarrow> bytes) \<Rightarrow> bytes \<Rightarrow> nat \<Rightarrow> string" where
  "chunk_sha dg content i \<equiv> sha256_hex dg (chunk_of content i)"

text \<open>An announcement of chunk \<open>i\<close>; its path and stored size are not fixed.\<close>

definition announces :: "(bytes \<Rightarrow> bytes) \<Rightarrow> bytes \<Rightarrow> int \<Rightarrow> nat \<Rightarrow> chunk_stored_event \<Rightarrow> bool" where
  "announces dg content file_id i ev \<longleftrightarrow>
     ev_sha256 ev = chunk_sha dg content i \<and> ev_data_len ev = int (length (chunk_of content i)) \<and>
     ev_file_id ev = file_id \<and> ev_chunk_idx ev = int i"

lemma index_in_file:
  assumes "i < div_ceil (length content) CHUNK_SIZE"
  shows "i * CHUNK_SIZE < length content"
proof -
  have "content \<noteq> []" using assms by (auto simp: div_ceil_def)
  then have "(div_ceil (length content) CHUNK_SIZE - 1) * CHUNK_SIZE < length content"
    using div_ceil_lower [OF CHUNK_SIZE_pos] by simp
  moreover have "i * CHUNK_SIZE \<le> (div_ceil (length content) CHUNK_SIZE - 1) * CHUNK_SIZE"
    using assms by (intro mult_le_mono1) simp
  ultimately show ?thesis by (rule le_less_trans [rotated])
qed

lemma chunk_number_le: "div_ceil (length content) CHUNK_SIZE \<le> length content"
proof (cases "div_ceil (length content) CHUNK_SIZE")
  case (Suc m)
  then have "m * CHUNK_SIZE < length content" by (intro index_in_file) simp
  moreover have "m \<le> m * CHUNK_SIZE" using CHUNK_SIZE_pos by simp
  ultimately show ?thesis using Suc by linarith
qed simp

lemma chunk_span_facts:
  assumes "i < div_ceil (length content) CHUNK_SIZE" "chunk_span (length content) i = (start, end_pos)"
  shows "start \<le> end_pos" "end_pos < length content" "slice_of start (end_pos + 1) content = chunk_of content i"
proof -
  have "i * CHUNK_SIZE < length content" using assms(1) by (rule index_in_file)
  with assms(2) CHUNK_SIZE_pos show "start \<le> end_pos" "end_pos < length content"
    by (auto simp: chunk_span_def Let_def)
  have "take (end_pos + 1) content = take (Suc i * CHUNK_SIZE) content"
    using assms(2) \<open>i * CHUNK_SIZE < length content\<close> CHUNK_SIZE_pos
    by (cases "i * CHUNK_SIZE + CHUNK_SIZE \<le> length content")
      (auto simp: chunk_span_def Let_def min_def add.commute)
  with assms(2) show "slice_of start (end_pos + 1) content = chunk_of content i"
    by (simp add: slice_of_def chunk_of_def chunk_span_def Let_def)
qed

text \<open>
  What the store holds under the hashes of the file is, if anything, the chunks themselves:
  no two different chunks have the same hash, and none has that of something else in the store.
\<close>

definition no_collision :: "(bytes \<Rightarrow> bytes) \<Rightarrow> bytes \<Rightarrow> (string \<Rightarrow> bytes option) \<Rightarrow> bool" where
  "no_collision dg content m \<longleftrightarrow>
     (\<forall>i < div_ceil (length content) CHUNK_SIZE. m (chunk_sha dg content i) \<in> {None, Some (chunk_of content i)} \<and>
        (\<forall>j < div_ceil (length content) CHUNK_SIZE.
           chunk_sha dg content i = chunk_sha dg content j \<longrightarrow> chunk_of content i = chunk_of content j))"

lemma no_collision_update:
  assumes "no_collision dg content m" "i < div_ceil (length content) CHUNK_SIZE"
    and "\<forall>k. sha_key k \<longrightarrow> m' k = (m(chunk_sha dg content i \<mapsto> chunk_of content i)) k"
    and "\<forall>x. length (dg x) = 32"
  shows "no_collision dg content m'"
proof -
  have "sha_key (sha256_hex dg x)" for x using assms(4) by (simp add: sha_key_def length_sha256_hex)
  then have m': "m' (sha256_hex dg x) = (m(chunk_sha dg content i \<mapsto> chunk_of content i)) (sha256_hex dg x)" for x
    using assms(3) by blast
  show ?thesis
    unfolding no_collision_def m' using assms(1,2) by (auto simp: no_collision_def)
qed

lemma fetch_all_ok:
  assumes laws: "storage_laws B contents invar" and dg: "\<forall>x. length (dg x) = 32"
  assumes "invar (fetch_store st)" "no_collision dg content (contents (fetch_store st))"
    and "\<forall>i \<in> set idxs. i < div_ceil (length content) CHUNK_SIZE \<and> cached_chunks st i \<in> {None, Some (chunk_sha dg content i)} \<and>
      serves content cr (nets i) (chunk_span (length content) i)"
  shows "\<exists>st' evs. fetch_all dg B cr nets file_id (length content) idxs st = (Inr (), st') \<and> invar (fetch_store st') \<and>
    events st' = events st @ evs \<and> list_all2 (announces dg content file_id) idxs evs \<and>
    (\<forall>i \<in> set idxs. contents (fetch_store st') (chunk_sha dg content i) = Some (chunk_of content i)) \<and>
    no_collision dg content (contents (fetch_store st')) \<and>
    (\<forall>i < div_ceil (length content) CHUNK_SIZE. contents (fetch_store st) (chunk_sha dg content i) \<noteq> None \<longrightarrow>
       contents (fetch_store st') (chunk_sha dg content i) \<noteq> None)"
  using assms(3-5)
proof (induction idxs arbitrary: st)
  case (Cons i idxs)
  let ?sha = "chunk_sha dg content i" and ?d = "chunk_of content i"
  have i: "i < div_ceil (length content) CHUNK_SIZE" using Cons.prems(3) by simp
  obtain s e where span: "chunk_span (length content) i = (s, e)" by fastforce
  note sp = chunk_span_facts [OF i span]
  have len: "length ?d = e - s + 1" using sp by (metis length_slice min.absorb1 Suc_eq_plus1 Suc_leI Suc_diff_le)
  from Cons.prems(3) span obtain k where k: "1 \<le> k" "k \<le> max_retries cr" "good_response content s e (nets i k)"
    "\<forall>j. 1 \<le> j \<and> j < k \<longrightarrow> transient (length ?d) (nets i j)"
    unfolding len by (auto simp: serves_def)
  have in_store: "contents (fetch_store st) ?sha = None \<or> contents (fetch_store st) ?sha = Some ?d"
    using Cons.prems(2) i by (simp add: no_collision_def)
  have known: "verify_sha256 cr \<longrightarrow> cached_chunks st i \<in> {None, Some ?sha}" using Cons.prems(3) by simp
  obtain st1 n path where run: "fetch_chunk dg B cr (nets i) file_id i s e st = (Inr ?d, st1)"
    and c1: "\<forall>j. sha_key j \<longrightarrow> contents (fetch_store st1) j = ((contents (fetch_store st))(?sha \<mapsto> ?d)) j"
    and inv1: "invar (fetch_store st1)" and cc: "cached_chunks st1 = (cached_chunks st)(i \<mapsto> ?sha)"
    and ev: "events st1 = events st @ [\<lparr>ev_sha256 = ?sha, ev_path = path, ev_data_len = int (length ?d),
      ev_stored_size = n, ev_file_id = file_id, ev_chunk_idx = int i\<rparr>]"
    using fetch_chunk_good [OF laws dg Cons.prems(1) sp(1,2) sp(3) [symmetric] k in_store known, of file_id] by blast
  have key: "sha_key (sha256_hex dg x)" for x using dg by (simp add: sha_key_def length_sha256_hex)
  have no1: "no_collision dg content (contents (fetch_store st1))"
    by (rule no_collision_update [OF Cons.prems(2) i c1 dg])
  have "\<forall>i \<in> set idxs. i < div_ceil (length content) CHUNK_SIZE \<and> cached_chunks st1 i \<in> {None, Some (chunk_sha dg content i)} \<and>
      serves content cr (nets i) (chunk_span (length content) i)" using Cons.prems(3) cc by auto
  from Cons.IH [OF inv1 no1 this] obtain st' evs where
    rest: "fetch_all dg B cr nets file_id (length content) idxs st1 = (Inr (), st')" "invar (fetch_store st')"
      "events st' = events st1 @ evs" "list_all2 (announces dg content file_id) idxs evs"
      "\<forall>i \<in> set idxs. contents (fetch_store st') (chunk_sha dg content i) = Some (chunk_of content i)"
      "no_collision dg content (contents (fetch_store st'))"
    and kept: "\<forall>i < div_ceil (length content) CHUNK_SIZE. contents (fetch_store st1) (chunk_sha dg content i) \<noteq> None \<longrightarrow>
       contents (fetch_store st') (chunk_sha dg content i) \<noteq> None" by blast
  have "contents (fetch_store st') ?sha \<noteq> None" using kept i c1 key by simp
  with rest(6) i have here: "contents (fetch_store st') ?sha = Some ?d" by (auto simp: no_collision_def)
  have kept': "\<forall>i < div_ceil (length content) CHUNK_SIZE. contents (fetch_store st) (chunk_sha dg content i) \<noteq> None \<longrightarrow>
       contents (fetch_store st') (chunk_sha dg content i) \<noteq> None" using kept c1 key by auto
  let ?ev = "\<lparr>ev_sha256 = ?sha, ev_path = path, ev_data_len = int (length ?d), ev_stored_size = n,
    ev_file_id = file_id, ev_chunk_idx = int i\<rparr>"
  have "fetch_all dg B cr nets file_id (length content) (i # idxs) st = (Inr (), st')"
    using run rest(1) span by simp
  moreover have "list_all2 (announces dg content file_id) (i # idxs) (?ev # evs)"
    using rest(4) by (simp add: announces_def)
  ultimately show ?case using rest(2,3,5,6) ev here kept'
    by (intro exI [of _ st'] exI [of _ "?ev # evs"]) simp
qed simp

section \<open>Recording the announcements\<close>

definition chunk_row :: "(bytes \<Rightarrow> bytes) \<Rightarrow> bytes \<Rightarrow> int \<Rightarrow> nat \<Rightarrow> file_chunk" where
  "chunk_row dg content file_id k =
     link_row file_id (chunk_sha dg content k) (int k) (int (length (chunk_of content k)))"

lemma linked_None_iff:
  "linked_sha i k d = None \<longleftrightarrow> (\<forall>r \<in> set (file_chunks d). \<not> (fc_file_id r = i \<and> fc_chunk_index r = k))"
  by (auto simp: linked_sha_def find_None_iff)

lemma record_fresh:
  assumes d: "db_inv d" "\<not> poisoned d" "keys_ok d" "\<exists>f \<in> set (files d). f_id f = i" "linked_sha i (int k) d = None"
    and ev: "announces dg content i k ev" and dg: "\<forall>x. length (dg x) = 32"
  shows "db_inv (record_event now ev d)" "\<not> poisoned (record_event now ev d)" "keys_ok (record_event now ev d)"
    "files (record_event now ev d) = files d"
    "file_chunks (record_event now ev d) = file_chunks d @ [chunk_row dg content i k]"
proof -
  let ?d1 = "insert_chunk_or_ignore now (ev_sha256 ev) ''local'' (ev_path ev) (ev_data_len ev) (ev_stored_size ev) d"
  have ids: "ev_file_id ev = i" "ev_chunk_idx ev = int k" "ev_sha256 ev = chunk_sha dg content k"
    "ev_data_len ev = int (length (chunk_of content k))" using ev by (simp_all add: announces_def)
  have eq: "record_event now ev d = linked_state i (ev_sha256 ev) (int k) (ev_data_len ev) ?d1"
    using d(4,5) by (simp add: record_event_def ensure_chunk_and_link_eq [OF d(2)] ids)
  show "db_inv (record_event now ev d)"
    unfolding record_event_def by (rule ensure_chunk_and_link_inv [OF d(1)])
  show "\<not> poisoned (record_event now ev d)" "files (record_event now ev d) = files d"
    using d(2) by (simp_all add: eq linked_state_sel)
  show "file_chunks (record_event now ev d) = file_chunks d @ [chunk_row dg content i k]"
    using d(5) relink_fresh [of i "int k" ?d1] by (simp add: eq linked_state_sel ids chunk_row_def)
  have "sha_key (ev_sha256 ev)" using dg by (simp add: ids sha_key_def length_sha256_hex)
  moreover have "c_sha256 ` set (chunks (record_event now ev d)) = insert (ev_sha256 ev) (c_sha256 ` set (chunks d))"
    unfolding eq set_map [symmetric] linked_state_sel by (simp only: set_map insert_chunk_keys)
  ultimately show "keys_ok (record_event now ev d)" using d(3) unfolding keys_ok_keys set_map by simp
qed

lemma record_all:
  assumes "list_all2 (announces dg content i) idxs evs" "distinct idxs" "\<forall>x. length (dg x) = 32"
    and "db_inv d" "\<not> poisoned d" "keys_ok d" "\<exists>f \<in> set (files d). f_id f = i"
    and "\<forall>k \<in> set idxs. linked_sha i (int k) d = None"
  shows "db_inv (fold (record_event now) evs d) \<and> \<not> poisoned (fold (record_event now) evs d) \<and>
    keys_ok (fold (record_event now) evs d) \<and> files (fold (record_event now) evs d) = files d \<and>
    file_chunks (fold (record_event now) evs d) = file_chunks d @ map (chunk_row dg content i) idxs"
  using assms
proof (induction arbitrary: d rule: list_all2_induct)
  case (Cons k idxs ev evs)
  have "linked_sha i (int k) d = None" using Cons.prems(7) by simp
  note new = record_fresh [OF Cons.prems(3-6) this Cons.hyps(1) Cons.prems(2), of now]
  have "\<forall>j \<in> set idxs. linked_sha i (int j) (record_event now ev d) = None"
    using Cons.prems(1,7) by (auto simp: linked_None_iff new(5) chunk_row_def)
  with Cons.IH [of "record_event now ev d"] Cons.prems(1,2,6) new show ?case by simp
qed simp

lemma rows_after_recording:
  assumes "mset idxs = mset [0 ..< n]" "\<forall>r \<in> set (file_chunks d). fc_file_id r \<noteq> i"
    and "file_chunks d' = file_chunks d @ map (chunk_row dg content i) idxs"
  shows "rows_of i d' = map (chunk_row dg content i) [0 ..< n]"
proof -
  have "filter (\<lambda>r. fc_file_id r = i) (file_chunks d') = map (chunk_row dg content i) idxs"
    using assms(2) by (simp add: assms(3) filter_empty_conv filter_id_conv chunk_row_def)
  moreover have "sort_key fc_chunk_index (map (chunk_row dg content i) idxs) = map (chunk_row dg content i) [0 ..< n]"
  proof (rule sort_key_inj_key_eq)
    show "mset (map (chunk_row dg content i) idxs) = mset (map (chunk_row dg content i) [0 ..< n])"
      using assms(1) by simp
    show "inj_on fc_chunk_index (set (map (chunk_row dg content i) idxs))"
      by (auto simp: inj_on_def chunk_row_def)
    show "sorted (map fc_chunk_index (map (chunk_row dg content i) [0 ..< n]))"
      by (simp add: chunk_row_def sorted_iff_nth_mono)
  qed
  ultimately show ?thesis by (simp add: rows_of_def)
qed

lemma chunk_lengths: "sum_list (map (\<lambda>k. length (chunk_of content k)) [0 ..< div_ceil (length content) CHUNK_SIZE]) = length content"
proof -
  let ?n = "div_ceil (length content) CHUNK_SIZE"
  have "concat (map (chunk_of content) [0 ..< ?n]) = slice_of 0 (?n * CHUNK_SIZE) content"
    using concat_slices [of "\<lambda>k. k * CHUNK_SIZE" content 0 ?n] by (simp add: chunk_of_def [abs_def])
  also have "\<dots> = content" using div_ceil_upper [OF CHUNK_SIZE_pos, of "length content"] by (simp add: slice_of_def)
  finally have "length (concat (map (chunk_of content) [0 ..< ?n])) = length content" by simp
  then show ?thesis by (simp add: length_concat o_def)
qed

lemma int_sum_list: "sum_list (map (\<lambda>k. int (g k)) ks) = int (sum_list (map g ks))"
  by (induction ks) simp_all

lemma recorded_size:
  assumes "rows_of i d = map (chunk_row dg content i) [0 ..< div_ceil (length content) CHUNK_SIZE]"
  shows "downloaded_size i d = int (length content)"
proof -
  have "mset (filter (\<lambda>r. fc_file_id r = i) (file_chunks d)) = mset (rows_of i d)" by (simp add: rows_of_def)
  then have "sum_mset (image_mset fc_chunk_size (mset (filter (\<lambda>r. fc_file_id r = i) (file_chunks d)))) =
      sum_mset (image_mset fc_chunk_size (mset (rows_of i d)))" by (rule arg_cong)
  then have "downloaded_size i d = sum_list (map fc_chunk_size (rows_of i d))"
    by (simp only: downloaded_size_def sum_mset_sum_list mset_map [symmetric])
  also have "\<dots> = int (sum_list (map (\<lambda>k. length (chunk_of content k)) [0 ..< div_ceil (length content) CHUNK_SIZE]))"
    unfolding assms map_map comp_def chunk_row_def link_row_sel by (rule int_sum_list)
  finally show ?thesis by (simp only: chunk_lengths)
qed

section \<open>The cycle\<close>

lemma recorded_kept_by_gc:
  assumes "storage_laws B contents invar" "db_inv d" "\<not> poisoned d" "keys_ok d" "invar s" "batch + 1 < 2 ^ 63"
    and "\<forall>r \<in> set (rows_of i d). contents s (fc_sha256 r) = m (fc_sha256 r)"
  shows "\<exists>r d' s'. gc_execute_batch B batch (d, s) = (Inr r, (d', s')) \<and> invar s' \<and> \<not> poisoned d' \<and>
    files d' = files d \<and> rows_of i d' = rows_of i d \<and>
    (\<forall>r \<in> set (rows_of i d). contents s' (fc_sha256 r) = m (fc_sha256 r))"
proof -
  let ?T = "gc_selected batch d"
  obtain r s' where run: "gc_execute_batch B batch (d, s) = (Inr r, (d\<lparr>chunks := filter (\<lambda>c. c \<notin> set ?T) (chunks d)\<rparr>, s'))"
    and s': "invar s'" "\<forall>j. sha_key j \<longrightarrow> contents s' j = (if j \<in> c_sha256 ` set ?T then None else contents s j)"
    using storage_laws.gc_batch_ok [OF assms(1), OF assms(2,3,5,4,6)] by blast
  have "contents s' (fc_sha256 r) = contents s (fc_sha256 r)" if r: "r \<in> set (rows_of i d)" for r
  proof -
    have row: "r \<in> set (file_chunks d)" using r by (simp add: rows_of_def)
    then obtain c where "c \<in> set (chunks d)" "c_sha256 c = fc_sha256 r"
      using assms(2) by (auto simp: db_inv_def db_wf_def fk_ok_def)
    then have "sha_key (fc_sha256 r)" using assms(4) by (auto simp: keys_ok_def)
    moreover have "fc_sha256 r \<notin> c_sha256 ` set ?T"
    proof
      assume "fc_sha256 r \<in> c_sha256 ` set ?T"
      then obtain c where c: "c \<in> set ?T" "c_sha256 c = fc_sha256 r" by auto
      then have "\<not> referenced (c_sha256 c) d"
        using gc_selected_rows [OF c(1)] by (intro inv_unreferenced [OF assms(2)]) (simp_all add: orphan_row_def)
      moreover have "referenced (fc_sha256 r) d" using row by (auto simp: referenced_def)
      ultimately show False using c(2) by simp
    qed
    ultimately show ?thesis using s'(2) by simp
  qed
  with run s'(1) assms(3,7) show ?thesis by (auto simp: rows_of_def)
qed

lemma cached_chunks_of_rows:
  assumes "i < n" "n \<le> 2 ^ 63"
  shows "cached_chunks_of (map (chunk_row dg content file_id) [0 ..< n]) i = Some (chunk_sha dg content i)"
proof -
  have "map (\<lambda>fc. (i64_as_u64 (fc_chunk_index fc), fc_sha256 fc)) (map (chunk_row dg content file_id) [0 ..< n]) =
      map (\<lambda>k. (k, chunk_sha dg content k)) [0 ..< n]"
    using assms(2) by (simp add: chunk_row_def i64_as_u64_nonneg)
  then have "cached_chunks_of (map (chunk_row dg content file_id) [0 ..< n]) =
      map_of (rev (map (\<lambda>k. (k, chunk_sha dg content k)) [0 ..< n]))" by (simp only: cached_chunks_of_def)
  also have "\<dots> = map_of (map (\<lambda>k. (k, chunk_sha dg content k)) [0 ..< n])"
  proof -
    have dist: "distinct (map fst (map (\<lambda>k. (k, chunk_sha dg content k)) [0 ..< n]))" by (simp add: comp_def)
    then have "distinct (map fst (rev (map (\<lambda>k. (k, chunk_sha dg content k)) [0 ..< n])))"
      by (simp only: rev_map [symmetric] distinct_rev)
    from map_of_inject_set [OF this dist] show ?thesis by simp
  qed
  finally show ?thesis using assms(1) by (simp add: map_of_map_restrict restrict_map_def)
qed

lemma recorded_chunk_read:
  assumes "storage_laws B contents invar" "invar (fetch_store st)" "sha_key (chunk_sha dg content i)"
    and "contents (fetch_store st) (chunk_sha dg content i) = Some (chunk_of content i)"
    and "cached_chunks st i = Some (chunk_sha dg content i)" "i < div_ceil (length content) CHUNK_SIZE"
    and "chunk_span (length content) i = (start, end_pos)"
  shows "subscribe_cached dg B cr i start end_pos st = (Some (chunk_of content i), st)"
proof -
  note sp = chunk_span_facts [OF assms(6,7)]
  have "length (chunk_of content i) = end_pos - start + 1"
    using sp by (metis length_slice min.absorb1 Suc_eq_plus1 Suc_leI Suc_diff_le)
  then show ?thesis
    using storage_laws.get_found [OF assms(1), OF assms(2-4)] assms(5) by (simp add: subscribe_cached_def read_cached_chunk_def)
qed

text \<open>
  A file whose chunks are recorded and stored stays readable: whatever a collection batch removes,
  a session gets every chunk from the store and every valid range is streamed from it.
\<close>

lemma recorded_file_served:
  assumes "storage_laws B contents invar" "\<forall>x. length (dg x) = 32" "invar s"
    and "db_inv d" "\<not> poisoned d" "keys_ok d" "lookup_file name src d = Some f"
    and "f_total_size f = int (length content)" "length content < 2 ^ 63"
    and "rows_of (f_id f) d = map (chunk_row dg content (f_id f)) [0 ..< div_ceil (length content) CHUNK_SIZE]"
    and "\<forall>k < div_ceil (length content) CHUNK_SIZE. contents s (chunk_sha dg content k) = Some (chunk_of content k)"
    and "batch + 1 < 2 ^ 63"
  shows "\<exists>r d' s'. gc_execute_batch B batch (d, s) = (Inr r, (d', s')) \<and>
    (\<forall>i < div_ceil (length content) CHUNK_SIZE. \<forall>cr2 st2.
       fetch_store st2 = s' \<and> cached_chunks st2 = cached_chunks_of (rows_of (f_id f) d') \<longrightarrow>
       subscribe_cached dg B cr2 i (fst (chunk_span (length content) i)) (snd (chunk_span (length content) i)) st2 =
         (Some (chunk_of content i), st2)) \<and>
    (\<forall>rs re verify early depth served.
       first_byte rs \<le> last_byte (length content) re \<and> first_byte rs < length content \<longrightarrow>
       (\<exists>out_st ps len.
          stream_cached dg B verify early (\<lambda>_. False) depth name src rs re served d' s' = Inr (f, len, out_st, All_sent) \<and>
          out out_st = map Inr ps \<and> concat ps = slice_of (first_byte rs) (Suc (last_byte (length content) re)) content))"
proof -
  let ?n = "div_ceil (length content) CHUNK_SIZE" and ?i = "f_id f"
  note rows = assms(10)
  have key: "sha_key (sha256_hex dg x)" for x using assms(2) by (simp add: sha_key_def length_sha256_hex)
  have n: "?n \<le> 2 ^ 63" using chunk_number_le [of content] assms(9) by linarith
  obtain r d' s' where gc: "gc_execute_batch B batch (d, s) = (Inr r, (d', s'))" "invar s'" "\<not> poisoned d'"
    and same: "files d' = files d" "rows_of ?i d' = rows_of ?i d"
      "\<forall>r \<in> set (rows_of ?i d). contents s' (fc_sha256 r) = contents s (fc_sha256 r)"
    using recorded_kept_by_gc [OF assms(1,4-6,3,12), of ?i "contents s"] by blast
  have kept: "contents s' (chunk_sha dg content k) = Some (chunk_of content k)" if "k < ?n" for k
    using same(3) assms(11) that by (simp add: rows chunk_row_def)
  have read: "subscribe_cached dg B cr2 i (fst (chunk_span (length content) i)) (snd (chunk_span (length content) i)) st2 =
      (Some (chunk_of content i), st2)"
    if "i < ?n" "fetch_store st2 = s' \<and> cached_chunks st2 = cached_chunks_of (rows_of ?i d')" for i cr2 st2
    using that gc(2) kept [OF that(1)] cached_chunks_of_rows [OF that(1) n]
    by (intro recorded_chunk_read [OF assms(1) _ key]) (simp_all add: same(2) rows)
  have look: "lookup_file name src d' = Some f" using assms(7) by (simp add: lookup_file_def same(1))
  have intact: "storage_laws.intact contents dg verify content s' 0 (rows_of ?i d')" for verify
    unfolding storage_laws.intact_def [OF assms(1)] using kept key by (simp add: same(2) rows chunk_row_def)
  have len: "length (rows_of ?i d') = ?n" by (simp add: same(2) rows)
  have stream: "\<exists>out_st ps len. stream_cached dg B verify early (\<lambda>_. False) depth name src rs re served d' s' = Inr (f, len, out_st, All_sent) \<and>
      out out_st = map Inr ps \<and> concat ps = slice_of (first_byte rs) (Suc (last_byte (length content) re)) content"
    if range: "first_byte rs \<le> last_byte (length content) re \<and> first_byte rs < length content" for rs re verify early depth served
    using storage_laws.stream_cached_intact [OF assms(1), OF gc(2,3) look assms(8,9) len
        range [THEN conjunct1] range [THEN conjunct2] intact] by blast
  show ?thesis
    by (rule exI [of _ r], rule exI [of _ d'], rule exI [of _ s'], intro conjI allI impI, rule gc(1))
      (rule read, assumption+, rule stream, assumption)
qed

text \<open>
  C2: A file that is not in the cache yet becomes a complete cached file by downloading it. Let
  its chunks be downloaded in any order, each from a server that answers in time, and the
  announcements be recorded. Then every download succeeds, the file is complete by the
  database, and after any later collection batch a session of the file gets every chunk from the
  store without a request to the hub, and every valid range of it is streamed from the store,
  bytes in order, verified or not, whatever the prefetching does.
\<close>

theorem downloaded_file_is_cached:
  assumes "storage_laws B contents invar" "\<forall>x. length (dg x) = 32" "invar (fetch_store st)"
    and "no_collision dg content (contents (fetch_store st))" "cached_chunks st = Map.empty" "events st = []"
    and "db_inv d" "\<not> poisoned d" "keys_ok d" "lookup_file name src d = Some f"
    and "f_total_size f = int (length content)" "length content < 2 ^ 63" "rows_of (f_id f) d = []"
    and "mset idxs = mset [0 ..< div_ceil (length content) CHUNK_SIZE]"
    and "\<forall>i \<in> set idxs. serves content cr (nets i) (chunk_span (length content) i)"
  shows "\<exists>st'. fetch_all dg B cr nets (f_id f) (length content) idxs st = (Inr (), st') \<and>
    get_complete_file name src (fold (record_event now) (events st') d) = Inr (Some f) \<and>
    (\<forall>batch. batch + 1 < 2 ^ 63 \<longrightarrow>
       (\<exists>r d' s'. gc_execute_batch B batch (fold (record_event now) (events st') d, fetch_store st') = (Inr r, (d', s')) \<and>
          (\<forall>i < div_ceil (length content) CHUNK_SIZE. \<forall>cr2 st2.
             fetch_store st2 = s' \<and> cached_chunks st2 = cached_chunks_of (rows_of (f_id f) d') \<longrightarrow>
             subscribe_cached dg B cr2 i (fst (chunk_span (length content) i)) (snd (chunk_span (length content) i)) st2 =
               (Some (chunk_of content i), st2)) \<and>
          (\<forall>rs re verify early depth served.
             first_byte rs \<le> last_byte (length content) re \<and> first_byte rs < length content \<longrightarrow>
             (\<exists>out_st ps len.
                stream_cached dg B verify early (\<lambda>_. False) depth name src rs re served d' s' = Inr (f, len, out_st, All_sent) \<and>
                out out_st = map Inr ps \<and> concat ps = slice_of (first_byte rs) (Suc (last_byte (length content) re)) content))))"
proof -
  let ?n = "div_ceil (length content) CHUNK_SIZE" and ?i = "f_id f"
  have "set idxs = {0 ..< ?n}" "distinct idxs"
    using mset_eq_setD [OF assms(14)] mset_eq_imp_distinct_iff [OF assms(14)] by simp_all
  then obtain st' evs where fetch: "fetch_all dg B cr nets ?i (length content) idxs st = (Inr (), st')"
    and st': "invar (fetch_store st')" "events st' = evs" "list_all2 (announces dg content ?i) idxs evs"
    and stored: "\<forall>k < ?n. contents (fetch_store st') (chunk_sha dg content k) = Some (chunk_of content k)"
    using fetch_all_ok [OF assms(1-4), of idxs cr nets ?i] assms(5,6,15) by fastforce
  let ?d = "fold (record_event now) evs d"
  have f: "f \<in> set (files d)" using assms(10) by (auto simp: lookup_file_def find_Some_iff)
  have fresh: "\<forall>r \<in> set (file_chunks d). fc_file_id r \<noteq> ?i" using arg_cong [OF assms(13), of set] by (auto simp: rows_of_def)
  then have "\<forall>k \<in> set idxs. linked_sha ?i (int k) d = None" by (simp add: linked_None_iff)
  with record_all [OF st'(3) \<open>distinct idxs\<close> assms(2,7-9), of now] f have
    d: "db_inv ?d" "\<not> poisoned ?d" "keys_ok ?d" "files ?d = files d"
    and rows_d: "file_chunks ?d = file_chunks d @ map (chunk_row dg content ?i) idxs" by blast+
  have rows: "rows_of ?i ?d = map (chunk_row dg content ?i) [0 ..< ?n]"
    by (rule rows_after_recording [OF assms(14) fresh rows_d])
  have complete: "get_complete_file name src ?d = Inr (Some f)"
    using assms(10,11) d(2,4) recorded_size [OF rows]
    by (simp add: get_complete_file_def get_file_by_name_def get_file_downloaded_size_def lookup_file_def)
  have look: "lookup_file name src ?d = Some f" using assms(10) by (simp add: lookup_file_def d(4))
  show ?thesis
    by (rule exI [of _ st'], unfold st'(2), intro conjI allI impI, rule fetch, rule complete)
      (rule recorded_file_served [OF assms(1,2) st'(1) d(1-3) look assms(11,12) rows stored])
qed

definition empty_cycle_db :: db where
  "empty_cycle_db = \<lparr>files = [tiny_file], chunks = [], file_chunks = [], last_file_id = 1, poisoned = False\<rparr>"

theorem downloaded_file_is_cached_witness:
  "\<exists>st' r d' s' out_st ps len. fetch_all zero_dg (local_ops id Some (plain_backend ''r'')) \<lparr>verify_sha256 = True, chunk_retries = 2\<rparr>
      (\<lambda>_ n. if n = 1 then Response 503 None else Response 206 (Some [7, 8, 9])) 1 3 [0]
      \<lparr>fetch_store = Map.empty, cached_chunks = Map.empty, events = [], fetched_bytes = 0, slept = []\<rparr> = (Inr (), st') \<and>
    get_complete_file ''o/r/a'' ''hf'' (fold (record_event ''t1'') (events st') empty_cycle_db) = Inr (Some tiny_file) \<and>
    gc_execute_batch (local_ops id Some (plain_backend ''r'')) 32
      (fold (record_event ''t1'') (events st') empty_cycle_db, fetch_store st') = (Inr r, (d', s')) \<and>
    stream_cached zero_dg (local_ops id Some (plain_backend ''r'')) True (\<lambda>_. True) (\<lambda>_. False) 4 ''o/r/a'' ''hf'' (Some 1) None 0 d' s' =
      Inr (tiny_file, len, out_st, All_sent) \<and> out out_st = map Inr ps \<and> concat ps = [8, 9]"
proof -
  let ?st = "\<lparr>fetch_store = Map.empty, cached_chunks = Map.empty, events = [], fetched_bytes = 0, slept = []\<rparr> :: fs fetch_state"
  let ?net = "\<lambda>_ :: nat. \<lambda>n :: nat. if n = 1 then Response 503 None else Response 206 (Some [7, 8, 9])"
  let ?cr = "\<lparr>verify_sha256 = True, chunk_retries = 2\<rparr>"
  have n: "div_ceil (length [7, 8, 9 :: byte]) CHUNK_SIZE = 1" by (simp add: div_ceil_def CHUNK_SIZE_def)
  have none: "local_contents Some (plain_backend ''r'') (fetch_store ?st) k = None" for k
    by (simp add: local_contents_def split: option.splits)
  have inv: "local_invar Some (plain_backend ''r'') (fetch_store ?st)" by (simp add: local_invar_def plain_backend_def)
  have no: "no_collision zero_dg [7, 8, 9] (local_contents Some (plain_backend ''r'') (fetch_store ?st))"
    unfolding no_collision_def n using none by simp
  have db: "db_inv empty_cycle_db" "\<not> poisoned empty_cycle_db" "keys_ok empty_cycle_db"
      "lookup_file ''o/r/a'' ''hf'' empty_cycle_db = Some tiny_file" "rows_of (f_id tiny_file) empty_cycle_db = []"
    by (simp_all add: empty_cycle_db_def db_inv_def db_wf_def refs_exact_def keys_ok_def lookup_file_def tiny_file_def rows_of_def)
  have size: "f_total_size tiny_file = int (length [7, 8, 9 :: byte])" "f_id tiny_file = 1" by (simp_all add: tiny_file_def)
  have span: "chunk_span (length [7, 8, 9 :: byte]) 0 = (0, 2)" by (simp add: chunk_span_def CHUNK_SIZE_def)
  have "serves [7, 8, 9] ?cr (?net 0) (0, 2)"
    unfolding serves_def by (rule exI [of _ 2]) (auto simp: transient_def good_response_def max_retries_def slice_of_def)
  then have serves: "\<forall>i \<in> set [0]. serves [7, 8, 9] ?cr (?net i) (chunk_span (length [7, 8, 9 :: byte]) i)" using span by simp
  have bytes: "first_byte (Some 1) = 1" "last_byte (length [7, 8, 9 :: byte]) None = 2" "slice_of 1 (Suc 2) [7, 8, 9] = [8, 9 :: byte]"
    by (simp_all add: first_byte_def last_byte_def slice_of_def)
  have perm: "mset [0] = mset [0 ..< div_ceil (length [7, 8, 9 :: byte]) CHUNK_SIZE]" unfolding n by simp
  have dg: "\<forall>x. length (zero_dg x) = 32" by (simp add: zero_dg_def)
  have start: "cached_chunks ?st = Map.empty" "events ?st = []" by simp_all
  have three: "length [7, 8, 9 :: byte] = 3" by simp
  have small: "length [7, 8, 9 :: byte] < 2 ^ 63" by simp
  note main = downloaded_file_is_cached [OF plain_local.storage_laws_axioms [of id Some "''r''"],
      OF dg inv no start db(1-4) size(1) small db(5) perm serves, of "''t1''"]
  show ?thesis
    using main
  proof (elim exE conjE, goal_cases)
    case (1 st')
    have small: "(32 :: nat) + 1 < 2 ^ 63" by simp
    have range: "first_byte (Some 1) \<le> last_byte (length [7, 8, 9 :: byte]) None \<and>
        first_byte (Some 1) < length [7, 8, 9 :: byte]" by (simp add: first_byte_def last_byte_def)
    obtain r d' s' where gc: "gc_execute_batch (local_ops id Some (plain_backend ''r'')) 32
        (fold (record_event ''t1'') (events st') empty_cycle_db, fetch_store st') = (Inr r, (d', s'))"
      and st: "\<forall>rs re verify early depth served.
        first_byte rs \<le> last_byte (length [7, 8, 9 :: byte]) re \<and> first_byte rs < length [7, 8, 9 :: byte] \<longrightarrow>
        (\<exists>out_st ps len. stream_cached zero_dg (local_ops id Some (plain_backend ''r'')) verify early (\<lambda>_. False) depth
             ''o/r/a'' ''hf'' rs re served d' s' = Inr (tiny_file, len, out_st, All_sent) \<and>
           out out_st = map Inr ps \<and> concat ps = slice_of (first_byte rs) (Suc (last_byte (length [7, 8, 9 :: byte]) re)) [7, 8, 9])"
      using 1(3) [THEN spec, THEN mp, OF small] by (elim exE conjE) (rule that)
    note st [THEN spec, THEN spec, THEN spec, THEN spec, THEN spec, THEN spec, THEN mp, OF range, of True "\<lambda>_. True" 4 0]
    with 1(1,2) gc show ?case
    proof (elim exE conjE, goal_cases)
      case (1 out_st ps len)
      then show ?case
        unfolding bytes size(2) unfolding three
        by (intro exI [of _ st'] exI [of _ r] exI [of _ d'] exI [of _ s'] exI [of _ out_st] exI [of _ ps] exI [of _ len] conjI)
    qed
  qed
qed

end
