(* ===== verification/Git_Proxy.thy ===== *)
theory Git_Proxy
  imports Proxy
begin

text \<open>
  \<open>src/git.rs\<close>: git and LFS requests are passed on to the hub; the links in the answer of an LFS
  batch request are rewritten to lead back to the proxy. JSON is read, printed and indexed by
  \<open>serde_json\<close>, a record of functions the definitions take: \<open>j_index_mut\<close> is the place
  \<open>value[key]\<close>, with what is stored there (a new null if nothing is) and how to store into it,
  or \<open>None\<close> for the panic of indexing a value that has no keys; \<open>j_index\<close> is \<open>value[key]\<close> where
  it is only read; \<open>j_get_mut\<close> is \<open>as_object_mut\<close> followed by \<open>get_mut\<close>. What the properties rely
  on is \<open>documented_json\<close>. Strings are UTF-8 bytes.
\<close>

section \<open>JSON values\<close>

datatype json =
    JNull
  | JBool bool
  | JNum string
  | JStr string
  | JArr "json list"
  | JObj "(string \<times> json) list"

record json_lib =
  j_from_str :: "string \<Rightarrow> json option"
  j_to_string :: "json \<Rightarrow> string"
  j_index :: "string \<Rightarrow> json \<Rightarrow> json"
  j_index_mut :: "string \<Rightarrow> json \<Rightarrow> (json \<times> (json \<Rightarrow> json)) option"
  j_get_mut :: "string \<Rightarrow> json \<Rightarrow> (json \<times> (json \<Rightarrow> json)) option"

text \<open>What the documentation of \<open>serde_json\<close> says of the three.\<close>

definition obj_set :: "string \<Rightarrow> json \<Rightarrow> (string \<times> json) list \<Rightarrow> (string \<times> json) list" where
  "obj_set k y fs =
     (if k \<in> fst ` set fs then map (\<lambda>(j, x). if j = k then (j, y) else (j, x)) fs else fs @ [(k, y)])"

definition field_of :: "string \<Rightarrow> json \<Rightarrow> json option" where
  "field_of k v = (case v of JObj fs \<Rightarrow> map_of fs k | _ \<Rightarrow> None)"

definition documented_index :: "string \<Rightarrow> json \<Rightarrow> json" where
  "documented_index k v = (case field_of k v of Some x \<Rightarrow> x | None \<Rightarrow> JNull)"

definition documented_index_mut :: "string \<Rightarrow> json \<Rightarrow> (json \<times> (json \<Rightarrow> json)) option" where
  "documented_index_mut k v =
     (case v of
        JObj fs \<Rightarrow> Some (documented_index k v, \<lambda>y. JObj (obj_set k y fs))
      | JNull \<Rightarrow> Some (JNull, \<lambda>y. JObj [(k, y)])
      | _ \<Rightarrow> None)"

definition documented_get_mut :: "string \<Rightarrow> json \<Rightarrow> (json \<times> (json \<Rightarrow> json)) option" where
  "documented_get_mut k v =
     (case v of
        JObj fs \<Rightarrow> map_option (\<lambda>x. (x, \<lambda>y. JObj (obj_set k y fs))) (map_of fs k)
      | _ \<Rightarrow> None)"

definition documented_json :: "json_lib \<Rightarrow> bool" where
  "documented_json J \<longleftrightarrow>
     (\<forall>k v. j_index J k v = documented_index k v \<and> j_index_mut J k v = documented_index_mut k v \<and>
        j_get_mut J k v = documented_get_mut k v)"

section \<open>Rewriting links\<close>

definition ms_domains :: "string list" where
  "ms_domains = [''https://modelscope.cn'', ''https://www.modelscope.cn'']"

definition hf_domains :: "string list" where
  "hf_domains = [''https://huggingface.co'', ''https://hf-mirror.com'', ''https://cdn-lfs.huggingface.co'',
     ''https://cdn-lfs-us-1.huggingface.co'', ''https://lfs.huggingface.co'']"

text \<open>The loop over the domains and the upstream endpoint after them: the first that is a prefix.\<close>

fun strip_first :: "string \<Rightarrow> string list \<Rightarrow> string option" where
  "strip_first href [] = None"
| "strip_first href (d # ds) =
     (case strip_prefix href d of Some rest \<Rightarrow> Some rest | None \<Rightarrow> strip_first href ds)"

definition rewrite_href :: "string \<Rightarrow> string \<Rightarrow> string \<Rightarrow> string \<Rightarrow> string" where
  "rewrite_href href proxy_base upstream_endpoint source =
     (if source = ''ms''
      then case strip_first href (ms_domains @ [upstream_endpoint]) of
             Some rest \<Rightarrow> proxy_base @ ''/ms'' @ rest
           | None \<Rightarrow> href
      else case strip_first href (hf_domains @ [upstream_endpoint]) of
             Some rest \<Rightarrow> proxy_base @ rest
           | None \<Rightarrow> href)"

text \<open>The body of the loop over the objects; \<open>None\<close> is a panic.\<close>

definition rewrite_object :: "json_lib \<Rightarrow> (string \<Rightarrow> string) \<Rightarrow> json \<Rightarrow> json option" where
  "rewrite_object J rw obj =
     (case j_index_mut J ''actions'' obj of
        None \<Rightarrow> None
      | Some (actions, put_actions) \<Rightarrow>
          (case j_get_mut J ''download'' actions of
             None \<Rightarrow> Some (put_actions actions)
           | Some (download, put_download) \<Rightarrow>
               (case j_index J ''href'' download of
                  JStr href \<Rightarrow>
                    (case j_index_mut J ''href'' download of
                       None \<Rightarrow> None
                     | Some (_, put_href) \<Rightarrow> Some (put_actions (put_download (put_href (JStr (rw href))))))
                | _ \<Rightarrow> Some (put_actions actions))))"

fun rewrite_objects :: "json_lib \<Rightarrow> (string \<Rightarrow> string) \<Rightarrow> json list \<Rightarrow> json list option" where
  "rewrite_objects J rw [] = Some []"
| "rewrite_objects J rw (x # xs) =
     (case rewrite_object J rw x of
        None \<Rightarrow> None
      | Some y \<Rightarrow> map_option (\<lambda>ys. y # ys) (rewrite_objects J rw xs))"

definition rewrite_json :: "json_lib \<Rightarrow> (string \<Rightarrow> string) \<Rightarrow> json \<Rightarrow> json option" where
  "rewrite_json J rw j =
     (case j_index_mut J ''objects'' j of
        None \<Rightarrow> None
      | Some (objects, put) \<Rightarrow>
          (case objects of
             JArr os \<Rightarrow> map_option (\<lambda>os'. put (JArr os')) (rewrite_objects J rw os)
           | _ \<Rightarrow> Some (put objects)))"

definition rewrite_lfs_urls :: "json_lib \<Rightarrow> string \<Rightarrow> string \<Rightarrow> string \<Rightarrow> string \<Rightarrow> string res" where
  "rewrite_lfs_urls J body proxy_base upstream_endpoint source =
     (case j_from_str J body of
        None \<Rightarrow> Inl (UpstreamError JsonFailed)
      | Some j \<Rightarrow>
          (case rewrite_json J (\<lambda>href. rewrite_href href proxy_base upstream_endpoint source) j of
             None \<Rightarrow> Inl Panicked
           | Some j' \<Rightarrow> Inr (j_to_string J j')))"

section \<open>Passing requests on\<close>

text \<open>The clients of the hubs, for requests with a body.\<close>

type_synonym git_networks = "hub \<Rightarrow> nat \<Rightarrow> http_method \<Rightarrow> string \<Rightarrow> headers \<Rightarrow> bytes option \<Rightarrow> http_response option"

definition git_source_from_path :: "string \<Rightarrow> string" where
  "git_source_from_path path = (if starts_with path ''/ms/'' then ''ms'' else ''hf'')"

definition bytes_of_string :: "string \<Rightarrow> bytes" where
  "bytes_of_string s = map of_char s"

text \<open>\<open>axum::body::to_bytes\<close> with a limit.\<close>

definition read_body :: "nat \<Rightarrow> bytes option \<Rightarrow> bytes app_res" where
  "read_body limit b =
     (case b of
        None \<Rightarrow> Inl (App_anyhow (UpstreamError BodyFailed))
      | Some x \<Rightarrow> if length x > limit then Inl (App_anyhow (UpstreamError BodyFailed)) else Inr x)"

definition git_proxy_pass ::
  "git_networks \<Rightarrow> nat \<Rightarrow> hub \<Rightarrow> string \<Rightarrow> http_method \<Rightarrow> headers \<Rightarrow> bytes option \<Rightarrow> proxy_response app_res" where
  "git_proxy_pass nets n hub url method hs body =
     (let sent_headers = filter (\<lambda>(k, _). to_lowercase k \<noteq> ''host'' \<and> to_lowercase k \<noteq> ''content-length'' \<and>
            to_lowercase k \<noteq> ''transfer-encoding'') hs
      in case nets hub n method url sent_headers body of
           None \<Rightarrow> Inl (App_anyhow (UpstreamError SendFailed))
         | Some resp \<Rightarrow>
             (case resp_body resp of
                None \<Rightarrow> Inl (App_anyhow (UpstreamError BodyFailed))
              | Some b \<Rightarrow>
                  respond (status resp)
                    (filter (\<lambda>(k, _). to_lowercase k \<noteq> ''transfer-encoding'' \<and> to_lowercase k \<noteq> ''content-length'')
                       (resp_headers resp)) (Bytes_body b)))"

definition git_info_refs ::
  "'s app_state \<Rightarrow> git_networks \<Rightarrow> nat \<Rightarrow> string \<Rightarrow> string \<Rightarrow> string \<Rightarrow> string option \<Rightarrow> headers \<Rightarrow>
    proxy_response app_res" where
  "git_info_refs st nets n owner repo path query hs =
     (case hub_config st (git_source_from_path path) of (endpoint, hub) \<Rightarrow>
        git_proxy_pass nets n hub
          (endpoint @ ''/'' @ owner @ ''/'' @ repo @ ''.git/info/refs?'' @ (case query of None \<Rightarrow> [] | Some q \<Rightarrow> q))
          GET hs None)"

definition git_upload_pack ::
  "'s app_state \<Rightarrow> git_networks \<Rightarrow> nat \<Rightarrow> string \<Rightarrow> string \<Rightarrow> string \<Rightarrow> headers \<Rightarrow> bytes option \<Rightarrow>
    proxy_response app_res" where
  "git_upload_pack st nets n owner repo path hs request =
     (case hub_config st (git_source_from_path path) of (endpoint, hub) \<Rightarrow>
        app_bind (read_body (50 * 1024 * 1024) request) (\<lambda>body.
          git_proxy_pass nets n hub (endpoint @ ''/'' @ owner @ ''/'' @ repo @ ''.git/git-upload-pack'') POST hs (Some body)))"

definition lfs_type :: string where
  "lfs_type = ''application/vnd.git-lfs+json''"

definition lfs_batch ::
  "json_lib \<Rightarrow> (headers \<Rightarrow> bytes \<Rightarrow> string) \<Rightarrow> 's app_state \<Rightarrow>
    git_networks \<Rightarrow> nat \<Rightarrow> string \<Rightarrow> string \<Rightarrow> string \<Rightarrow> headers \<Rightarrow> bytes option \<Rightarrow> proxy_response app_res" where
  "lfs_batch J text_of st nets n owner repo path hs request =
     (let source = git_source_from_path path
      in case hub_config st source of (endpoint, hub) \<Rightarrow>
           app_bind (read_body (10 * 1024 * 1024) request) (\<lambda>body.
             case nets hub n POST (endpoint @ ''/'' @ owner @ ''/'' @ repo @ ''.git/info/lfs/objects/batch'')
                    ([(''Content-Type'', lfs_type), (''Accept'', lfs_type)] @ bearer_header (hub_token st source) @
                     ua_headers (header_str hs ''user-agent'')) (Some body) of
               None \<Rightarrow> Inl (App_anyhow (UpstreamError SendFailed))
             | Some resp \<Rightarrow>
                 (case resp_body resp of
                    None \<Rightarrow> Inl (App_anyhow (UpstreamError BodyFailed))
                  | Some b \<Rightarrow>
                      let host = (case header_str hs ''host'' of None \<Rightarrow> ''127.0.0.1:3000'' | Some x \<Rightarrow> x);
                          proxy_base = ''http://'' @ host
                      in app_bind (app (rewrite_lfs_urls J (text_of (resp_headers resp) b) proxy_base endpoint source))
                           (\<lambda>rewritten. respond (status resp) [(''Content-Type'', lfs_type)]
                              (Bytes_body (bytes_of_string rewritten))))))"

section \<open>Properties\<close>

lemma strip_first_None: "strip_first href ds = None \<longleftrightarrow> (\<forall>d \<in> set ds. \<not> starts_with href d)"
  by (induction ds) (auto simp: strip_prefix_def split: option.split)

lemma strip_first_Some: "strip_first href ds = Some rest \<Longrightarrow> \<exists>d \<in> set ds. href = d @ rest"
  by (induction ds) (auto simp: strip_prefix_Some_iff split: option.splits)

definition rewrite_targets :: "string \<Rightarrow> string \<Rightarrow> string list" where
  "rewrite_targets upstream_endpoint source =
     (if source = ''ms'' then ms_domains else hf_domains) @ [upstream_endpoint]"



lemma rewrite_object_documented:
  assumes "documented_json J"
  shows "rewrite_object J rw (JObj fs) =
    Some (JObj (obj_set ''actions''
      (case documented_index ''actions'' (JObj fs) of
         JObj as \<Rightarrow>
           (case map_of as ''download'' of
              Some (JObj ds) \<Rightarrow>
                (case map_of ds ''href'' of
                   Some (JStr href) \<Rightarrow> JObj (obj_set ''download'' (JObj (obj_set ''href'' (JStr (rw href)) ds)) as)
                 | _ \<Rightarrow> JObj as)
            | _ \<Rightarrow> JObj as)
       | actions \<Rightarrow> actions) fs))"
proof -
  have J: "j_index J = documented_index" "j_index_mut J = documented_index_mut" "j_get_mut J = documented_get_mut"
    using assms by (auto simp: documented_json_def fun_eq_iff)
  note defs = rewrite_object_def J documented_index_mut_def documented_get_mut_def
  show ?thesis
  proof (cases "documented_index ''actions'' (JObj fs)")
    case (JObj gs)
    show ?thesis
    proof (cases "map_of gs ''download''")
      case (Some download)
      with JObj show ?thesis
        by (cases download) (simp_all add: defs documented_index_def [of "''href''"] field_of_def split: json.split option.split)
    qed (simp add: defs JObj)
  qed (simp_all add: defs)
qed

lemma map_of_replace:
  "map_of (map (\<lambda>(i, x). if i = k then (i, y) else (i, x)) fs) j =
     (if j = k then map_option (\<lambda>_. y) (map_of fs k) else map_of fs j)"
  by (cases "j = k"; induction fs) (simp_all add: case_prod_beta)

lemma obj_set_lookup: "map_of (obj_set k y fs) j = (if j = k then Some y else map_of fs j)"
proof (cases "map_of fs k")
  case None
  then show ?thesis by (simp add: obj_set_def map_of_eq_None_iff [THEN iffD1] map_add_def split: option.split)
next
  case (Some x)
  then have "k \<in> fst ` set fs" by (force dest: map_of_SomeD)
  then show ?thesis by (simp add: obj_set_def map_of_replace Some)
qed

text \<open>
  The rewriting of an LFS answer touches more than links: an object of the batch without
  \<open>actions\<close> (one the hub reports an error for, or already has) gets \<open>"actions": null\<close>, an
  answer without \<open>objects\<close> gets \<open>"objects": null\<close>, and every other field keeps its value. An
  answer that is JSON but no object, or whose batch holds such a value, panics the handler.
\<close>

theorem lfs_rewriting_side_effects:
  assumes "documented_json J"
  shows "(map_of fs ''actions'' = None \<longrightarrow> rewrite_object J rw (JObj fs) = Some (JObj (fs @ [(''actions'', JNull)]))) \<and>
    (map_of fs ''objects'' = None \<longrightarrow> rewrite_json J rw (JObj fs) = Some (JObj (fs @ [(''objects'', JNull)]))) \<and>
    (\<exists>gs. rewrite_object J rw (JObj fs) = Some (JObj gs) \<and> (\<forall>k. k \<noteq> ''actions'' \<longrightarrow> map_of gs k = map_of fs k)) \<and>
    (\<forall>xs. j_from_str J body = Some (JArr xs) \<longrightarrow> rewrite_lfs_urls J body base up source = Inl Panicked) \<and>
    (\<forall>x. map_of fs ''objects'' = Some (JArr [JStr x]) \<longrightarrow> rewrite_json J rw (JObj fs) = None)"
proof (intro conjI allI impI)
  have absent: "obj_set k y fs = fs @ [(k, y)]" if "map_of fs k = None" for k y
    using that by (simp add: obj_set_def map_of_eq_None_iff)
  show "rewrite_object J rw (JObj fs) = Some (JObj (fs @ [(''actions'', JNull)]))" if "map_of fs ''actions'' = None"
    using that by (simp add: rewrite_object_documented [OF assms] documented_index_def field_of_def absent)
  show "rewrite_json J rw (JObj fs) = Some (JObj (fs @ [(''objects'', JNull)]))" if "map_of fs ''objects'' = None"
    using that assms
    by (simp add: rewrite_json_def documented_json_def documented_index_mut_def documented_index_def field_of_def absent)
  show "\<exists>gs. rewrite_object J rw (JObj fs) = Some (JObj gs) \<and> (\<forall>k. k \<noteq> ''actions'' \<longrightarrow> map_of gs k = map_of fs k)"
    by (simp add: rewrite_object_documented [OF assms] obj_set_lookup)
  show "rewrite_lfs_urls J body base up source = Inl Panicked" if "j_from_str J body = Some (JArr xs)" for xs
    using that assms by (simp add: rewrite_lfs_urls_def rewrite_json_def documented_json_def documented_index_mut_def)
  show "rewrite_json J rw (JObj fs) = None" if "map_of fs ''objects'' = Some (JArr [JStr x])" for x
    using that assms
    by (simp add: rewrite_json_def rewrite_object_def documented_json_def documented_index_mut_def
        documented_index_def field_of_def)
qed

text \<open>A library that behaves as documented, for the texts that occur in the witness.\<close>

definition sample_json :: json_lib where
  "sample_json = \<lparr>j_from_str = (\<lambda>s. if s = ''[]'' then Some (JArr []) else None), j_to_string = (\<lambda>_. []),
     j_index = documented_index, j_index_mut = documented_index_mut, j_get_mut = documented_get_mut\<rparr>"

theorem lfs_rewriting_side_effects_witness:
  "rewrite_lfs_urls sample_json ''[]'' ''http://p'' ''https://up'' ''hf'' = Inl Panicked \<and>
   rewrite_object sample_json rev (JObj [(''oid'', JStr ''a'')]) =
     Some (JObj [(''oid'', JStr ''a''), (''actions'', JNull)])"
proof -
  have "documented_json sample_json" by (simp add: documented_json_def sample_json_def)
  moreover have "j_from_str sample_json ''[]'' = Some (JArr [])" by (simp add: sample_json_def)
  ultimately show ?thesis
    using lfs_rewriting_side_effects [of sample_json "[(''oid'', JStr ''a'')]" rev "''[]''" "''http://p''" "''https://up''" "''hf''"]
    by simp
qed

end
