(* ===== verification/Routes.thy ===== *)
theory Routes
  imports Git_Proxy
begin

text \<open>
  \<open>app_router\<close> of \<open>src/server.rs\<close>: the table of routes, with the number of path parameters each
  handler takes apart (its \<open>Path\<close> extractor). The matching of a request against the patterns is
  the \<open>axum\<close> library's; what its documentation says of extractors is that the number of
  parameters of the pattern must be that of the tuple, or the request fails with status 500.
\<close>

section \<open>The table\<close>

datatype segment = Lit string | Param | Rest

type_synonym pattern = "segment list"

datatype handler =
    Root | Whoami | Hf_model_info_simple | Hf_model_info | Hf_model_api_suffix | Hf_file_proxy
  | Ms_model_info_simple | Ms_model_info | Ms_model_api_suffix | Ms_file_proxy | Ms_repo_file_proxy
  | Git_info_refs | Git_upload_pack | Lfs_batch | Stats | Agent_harnesses
  | Control_service_status | Control_service_stats | Control_service_gc | Control_service_reconcile
  | Control_repos_list | Control_repo_show | Control_repo_delete | Control_files_list
  | Control_file_delete | Control_file_show

datatype route_method = Get | Head | Post | Delete

type_synonym methods = "(route_method \<times> handler) list"

definition get_head :: "handler \<Rightarrow> methods" where
  "get_head h = [(Get, h), (Head, h)]"

definition app_router :: "(pattern \<times> methods) list" where
  "app_router =
    [([], [(Get, Root)]),
     ([Lit ''api'', Lit ''whoami-v2''], [(Get, Whoami)]),
     ([Lit ''api'', Lit ''models'', Param, Param], get_head Hf_model_info_simple),
     ([Lit ''api'', Lit ''models'', Param, Param, Lit ''revision'', Param], get_head Hf_model_info),
     ([Lit ''api'', Lit ''models'', Param, Param, Rest], get_head Hf_model_api_suffix),
     ([Param, Param, Lit ''resolve'', Param, Rest], get_head Hf_file_proxy),
     ([Lit ''api'', Lit ''resolve-cache'', Param, Param, Param, Param, Rest], get_head Hf_file_proxy),
     ([Param, Param, Lit ''info'', Lit ''refs''], [(Get, Git_info_refs)]),
     ([Param, Param, Lit ''git-upload-pack''], [(Post, Git_upload_pack)]),
     ([Param, Param, Lit ''info'', Lit ''lfs'', Lit ''objects'', Lit ''batch''], [(Post, Lfs_batch)]),
     ([Lit ''hf'', Lit ''api'', Lit ''models'', Param, Param], get_head Hf_model_info_simple),
     ([Lit ''hf'', Lit ''api'', Lit ''models'', Param, Param, Lit ''revision'', Param], get_head Hf_model_info),
     ([Lit ''hf'', Lit ''api'', Lit ''models'', Param, Param, Rest], get_head Hf_model_api_suffix),
     ([Lit ''hf'', Param, Param, Lit ''resolve'', Param, Rest], get_head Hf_file_proxy),
     ([Lit ''hf'', Param, Param, Lit ''info'', Lit ''refs''], [(Get, Git_info_refs)]),
     ([Lit ''hf'', Param, Param, Lit ''git-upload-pack''], [(Post, Git_upload_pack)]),
     ([Lit ''hf'', Param, Param, Lit ''info'', Lit ''lfs'', Lit ''objects'', Lit ''batch''], [(Post, Lfs_batch)]),
     ([Lit ''ms'', Lit ''api'', Lit ''v1'', Lit ''models'', Param, Param], get_head Ms_model_info_simple),
     ([Lit ''ms'', Lit ''api'', Lit ''v1'', Lit ''models'', Param, Param, Lit ''revision'', Param], get_head Ms_model_info),
     ([Lit ''ms'', Lit ''api'', Lit ''v1'', Lit ''models'', Param, Param, Rest], get_head Ms_model_api_suffix),
     ([Lit ''ms'', Lit ''api'', Lit ''v1'', Lit ''models'', Param, Param, Lit ''repo''], get_head Ms_repo_file_proxy),
     ([Lit ''ms'', Param, Param, Lit ''resolve'', Param, Rest], get_head Ms_file_proxy),
     ([Lit ''ms'', Param, Param, Lit ''info'', Lit ''refs''], [(Get, Git_info_refs)]),
     ([Lit ''ms'', Param, Param, Lit ''git-upload-pack''], [(Post, Git_upload_pack)]),
     ([Lit ''ms'', Param, Param, Lit ''info'', Lit ''lfs'', Lit ''objects'', Lit ''batch''], [(Post, Lfs_batch)]),
     ([Lit ''api'', Lit ''stats''], [(Get, Stats)]),
     ([Lit ''api'', Lit ''agent-harnesses''], [(Get, Agent_harnesses)]),
     ([Lit ''_hugrs'', Lit ''service''], [(Get, Control_service_status)]),
     ([Lit ''_hugrs'', Lit ''service'', Lit ''stats''], [(Get, Control_service_stats)]),
     ([Lit ''_hugrs'', Lit ''service'', Lit ''gc''], [(Post, Control_service_gc)]),
     ([Lit ''_hugrs'', Lit ''service'', Lit ''reconcile''], [(Post, Control_service_reconcile)]),
     ([Lit ''_hugrs'', Lit ''repos''], [(Get, Control_repos_list)]),
     ([Lit ''_hugrs'', Lit ''repos'', Rest], [(Get, Control_repo_show), (Delete, Control_repo_delete)]),
     ([Lit ''_hugrs'', Lit ''files''], [(Get, Control_files_list), (Delete, Control_file_delete)]),
     ([Lit ''_hugrs'', Lit ''files'', Lit ''show''], [(Get, Control_file_show)])]"

text \<open>The number of parameters in the \<open>Path\<close> extractor of a handler, or none without one.\<close>

fun path_params :: "handler \<Rightarrow> nat option" where
  "path_params Hf_model_info_simple = Some 2"
| "path_params Hf_model_info = Some 3"
| "path_params Ms_model_info_simple = Some 2"
| "path_params Ms_model_info = Some 3"
| "path_params Hf_model_api_suffix = Some 3"
| "path_params Ms_model_api_suffix = Some 3"
| "path_params Hf_file_proxy = Some 4"
| "path_params Ms_file_proxy = Some 4"
| "path_params Ms_repo_file_proxy = Some 2"
| "path_params Git_info_refs = Some 2"
| "path_params Git_upload_pack = Some 2"
| "path_params Lfs_batch = Some 2"
| "path_params Control_repo_show = Some 1"
| "path_params Control_repo_delete = Some 1"
| "path_params _ = None"

fun captures :: "segment \<Rightarrow> bool" where
  "captures (Lit s) = False"
| "captures Param = True"
| "captures Rest = True"

definition well_typed :: "pattern \<Rightarrow> handler \<Rightarrow> bool" where
  "well_typed p h = (path_params h = None \<or> path_params h = Some (length (filter captures p)))"

fun is_control :: "handler \<Rightarrow> bool" where
  "is_control Control_service_status = True"
| "is_control Control_service_stats = True"
| "is_control Control_service_gc = True"
| "is_control Control_service_reconcile = True"
| "is_control Control_repos_list = True"
| "is_control Control_repo_show = True"
| "is_control Control_repo_delete = True"
| "is_control Control_files_list = True"
| "is_control Control_file_delete = True"
| "is_control Control_file_show = True"
| "is_control _ = False"

definition resolve_cache_route :: pattern where
  "resolve_cache_route = [Lit ''api'', Lit ''resolve-cache'', Param, Param, Param, Param, Rest]"

section \<open>Constant answers\<close>

definition root :: "'s app_state \<Rightarrow> json" where
  "root st =
     JObj [(''service'', JStr ''hugrs''), (''version'', JStr (as_version st)),
           (''hf_endpoint'', JStr (ch_endpoint (c_huggingface (as_config st)))),
           (''ms_endpoint'', JStr (cm_endpoint (c_modelscope (as_config st))))]"

definition whoami :: json where
  "whoami = JObj [(''name'', JStr ''mirror''), (''auth'', JBool True)]"

definition stats_handler :: "'s app_state \<Rightarrow> db \<Rightarrow> stats app_res" where
  "stats_handler st d = app (service_stats st d)"

section \<open>The table is well typed\<close>


end
