(* ===== verification/Startup.thy ===== *)
theory Startup
  imports Proxy Fetch
begin

text \<open>
  \<open>src/hf.rs\<close>, \<open>src/main.rs\<close>, \<open>CacheService::new\<close> (\<open>src/service.rs\<close>) and \<open>server::run\<close>: how the
  daemon is put together from its configuration. The HTTP library is the record \<open>reqwest\<close>:
  \<open>proxy_all\<close> checks the URL of a proxy and \<open>build_client_with\<close> makes a client of type \<open>'c\<close> from the
  settings of a builder; \<open>open_store\<close> is \<open>MetadataStore::new\<close> and \<open>bind\<close> the listening socket. What
  the tasks and the server do afterwards is the matter of the other theories.
\<close>

section \<open>HTTP clients\<close>

text \<open>What the program sets on a builder; without \<open>redirect\<close> a client follows redirects.\<close>

record client_settings =
  hc_connect_timeout :: nat
  hc_timeout :: "nat option"
  hc_redirects :: bool
  hc_proxy :: "string option"

record 'c reqwest =
  proxy_all :: "string \<Rightarrow> unit res"
  build_client_with :: "client_settings \<Rightarrow> 'c res"

definition builder :: "'c reqwest \<Rightarrow> client_settings \<Rightarrow> 'c res" where
  "builder rq s =
     res_bind (case hc_proxy s of None \<Rightarrow> Inr () | Some url \<Rightarrow> proxy_all rq url) (\<lambda>_. build_client_with rq s)"

definition hf_settings :: "nat option \<Rightarrow> bool \<Rightarrow> config \<Rightarrow> client_settings" where
  "hf_settings timeout redirects c =
     \<lparr>hc_connect_timeout = ch_connect_timeout_secs (c_huggingface c), hc_timeout = timeout,
      hc_redirects = redirects, hc_proxy = ch_proxy (c_huggingface c)\<rparr>"

definition build_client :: "'c reqwest \<Rightarrow> config \<Rightarrow> 'c res" where
  "build_client rq c = builder rq (hf_settings (Some (ch_timeout_secs (c_huggingface c))) True c)"

definition build_head_client :: "'c reqwest \<Rightarrow> config \<Rightarrow> 'c res" where
  "build_head_client rq c = builder rq (hf_settings (Some (ch_timeout_secs (c_huggingface c))) False c)"

definition build_stream_client :: "'c reqwest \<Rightarrow> config \<Rightarrow> 'c res" where
  "build_stream_client rq c = builder rq (hf_settings None True c)"

definition ms_settings :: "bool \<Rightarrow> config \<Rightarrow> client_settings" where
  "ms_settings redirects c =
     \<lparr>hc_connect_timeout = cm_connect_timeout_secs (c_modelscope c),
      hc_timeout = Some (cm_timeout_secs (c_modelscope c)),
      hc_redirects = redirects, hc_proxy = cm_proxy (c_modelscope c)\<rparr>"

definition ms_http_client :: "'c reqwest \<Rightarrow> config \<Rightarrow> 'c res" where
  "ms_http_client rq c = builder rq (ms_settings True c)"

definition ms_head_client :: "'c reqwest \<Rightarrow> config \<Rightarrow> 'c res" where
  "ms_head_client rq c = builder rq (ms_settings False c)"

section \<open>The storage backend\<close>

text \<open>The region and the endpoint go to the S3 client, a parameter of the backend's operations.\<close>

datatype backend_choice =
    Use_local local_backend
  | Use_s3 s3_backend string "string option"

definition choose_backend :: "storage_config \<Rightarrow> backend_choice res" where
  "choose_backend c =
     (if cs_backend c = ''s3''
      then case cs_s3_bucket c of
             None \<Rightarrow> Inl (ConfigError S3BucketMissing)
           | Some bucket \<Rightarrow>
               (case cs_s3_region c of
                  None \<Rightarrow> Inl (ConfigError S3RegionMissing)
                | Some region \<Rightarrow> Inr (Use_s3 (s3_new bucket (cs_s3_prefix c)) region (cs_s3_endpoint c)))
      else Inr (Use_local \<lparr>lb_root = cs_local_root c, lb_compression = cs_compression c\<rparr>))"

section \<open>The service and the server\<close>

text \<open>
  \<open>CacheService\<close> with the session table it makes: the stream client and the number of retries go
  to the chunk reader, the limits and the other two clients stay in the service.
\<close>

record 'c cache_service =
  sv_database :: db
  sv_backend :: backend_choice
  sv_max_size :: "nat option"
  sv_http_client :: 'c
  sv_head_client :: 'c
  sv_prefetch_depth :: nat
  sv_prefetch_budget_base :: nat
  sv_reader :: chunk_reader
  sv_stream_client :: 'c
  sv_etag_timeout :: nat
  sv_fetched :: nat
  sv_served :: nat
  sv_sessions :: sessions

definition cache_service_new ::
  "db \<Rightarrow> backend_choice \<Rightarrow> nat option \<Rightarrow> 'c \<Rightarrow> 'c \<Rightarrow> nat \<Rightarrow> nat \<Rightarrow> bool \<Rightarrow> 'c \<Rightarrow> nat \<Rightarrow> nat \<Rightarrow> 'c cache_service" where
  "cache_service_new database backend max_sz http head depth budget verify stream etag_timeout retries =
     \<lparr>sv_database = database, sv_backend = backend, sv_max_size = max_sz, sv_http_client = http,
      sv_head_client = head, sv_prefetch_depth = depth, sv_prefetch_budget_base = budget,
      sv_reader = \<lparr>verify_sha256 = verify, chunk_retries = retries\<rparr>, sv_stream_client = stream,
      sv_etag_timeout = etag_timeout, sv_fetched = 0, sv_served = 0, sv_sessions = Map.empty\<rparr>"

text \<open>\<open>AppState\<close> as \<open>server::run\<close> makes it, and the address it listens on.\<close>

record 'c server_state =
  sr_service :: "'c cache_service"
  sr_config :: config
  sr_admin_token :: string
  sr_http_client :: 'c
  sr_head_client :: 'c
  sr_ms_http_client :: 'c
  sr_ms_head_client :: 'c
  sr_addr :: string

definition server_run ::
  "'c reqwest \<Rightarrow> (string \<Rightarrow> unit res) \<Rightarrow> nat \<Rightarrow> nat option \<Rightarrow> config \<Rightarrow> 'c cache_service \<Rightarrow> 'c \<Rightarrow> 'c \<Rightarrow> text_fs \<Rightarrow>
    'c server_state res \<times> text_fs" where
  "server_run rq bind pid clock config service ms_http ms_head fs =
     (case ensure_admin_token pid clock config fs of
        (Inl e, _, fs') \<Rightarrow> (Inl e, fs')
      | (Inr token, c, fs') \<Rightarrow>
          (res_bind (build_client rq c) (\<lambda>http.
           res_bind (build_head_client rq c) (\<lambda>head.
           let addr = cv_host (c_server c) @ '':'' @ show_nat (cv_port (c_server c))
           in res_bind (bind addr) (\<lambda>_.
                Inr \<lparr>sr_service = service, sr_config = c, sr_admin_token = token, sr_http_client = http,
                     sr_head_client = head, sr_ms_http_client = ms_http, sr_ms_head_client = ms_head,
                     sr_addr = addr\<rparr>))), fs'))"

text \<open>The part of \<open>main\<close> from the configuration to the service and the clients of ModelScope.\<close>

definition make_service :: "'c reqwest \<Rightarrow> db \<Rightarrow> config \<Rightarrow> 'c cache_service res" where
  "make_service rq database c =
     res_bind (choose_backend (c_storage c)) (\<lambda>backend.
     res_bind (build_client rq c) (\<lambda>http.
     res_bind (build_head_client rq c) (\<lambda>head.
     res_bind (build_stream_client rq c) (\<lambda>stream.
       Inr (cache_service_new database backend (cs_max_size (c_storage c)) http head
              (cs_prefetch_depth (c_storage c)) (cs_prefetch_budget_base (c_storage c))
              (cs_verify_sha256 (c_storage c)) stream
              (cs_etag_validation_timeout_secs (c_storage c)) (cs_chunk_retries (c_storage c)))))))"

definition daemon_main ::
  "figment \<Rightarrow> 'c reqwest \<Rightarrow> (string \<Rightarrow> db res) \<Rightarrow> (string \<Rightarrow> unit res) \<Rightarrow> host \<Rightarrow> nat \<Rightarrow> nat option \<Rightarrow> daemon_cli \<Rightarrow>
    text_fs \<Rightarrow> 'c server_state res \<times> text_fs" where
  "daemon_main fig rq open_store bind h pid clock cli fs =
     (case load fig h (overrides cli) fs of
        (Inl e, fs1) \<Rightarrow> (Inl e, fs1)
      | (Inr c, fs1) \<Rightarrow>
          (case res_bind (open_store (cd_path (c_database c))) (\<lambda>database.
                res_bind (make_service rq database c) (\<lambda>service.
                res_bind (ms_http_client rq c) (\<lambda>ms_http.
                res_bind (ms_head_client rq c) (\<lambda>ms_head. Inr (service, ms_http, ms_head))))) of
             Inl e \<Rightarrow> (Inl e, fs1)
           | Inr (service, ms_http, ms_head) \<Rightarrow> server_run rq bind pid clock c service ms_http ms_head fs1))"

end
