(* ===== verification/Startup_Props.thy ===== *)
theory Startup_Props
  imports Startup Config_Props
begin

text \<open>
  The properties of the start of the daemon: when it comes up, and which HTTP client serves
  which requests.
\<close>

lemma builder_Inr:
  "(\<exists>x. builder rq s = Inr x) \<longleftrightarrow>
     (\<forall>u. hc_proxy s = Some u \<longrightarrow> proxy_all rq u = Inr ()) \<and> (\<exists>x. build_client_with rq s = Inr x)"
  by (cases "hc_proxy s"; cases "proxy_all rq (the (hc_proxy s))") (auto simp: builder_def)

lemma choose_backend_Inr:
  "(\<exists>b. choose_backend c = Inr b) \<longleftrightarrow> (cs_backend c = ''s3'' \<longrightarrow> cs_s3_bucket c \<noteq> None \<and> cs_s3_region c \<noteq> None)"
  by (auto simp: choose_backend_def split: option.split)

lemma token_keeps_config:
  assumes "ensure_admin_token pid clock c fs = (Inr t, c', fs')"
  shows "c_storage c' = c_storage c" "c_huggingface c' = c_huggingface c" "c_modelscope c' = c_modelscope c"
    "c_server c' = c_server c"
  using assms by (auto simp: ensure_admin_token_def with_token_def Let_def split: option.splits if_splits prod.splits sum.splits)

lemma clients_of_token_config:
  assumes "ensure_admin_token pid clock c fs = (Inr t, c', fs')"
  shows "build_client rq c' = build_client rq c" "build_head_client rq c' = build_head_client rq c"
  using token_keeps_config [OF assms] by (simp_all add: build_client_def build_head_client_def hf_settings_def)

lemma make_service_Inr:
  "make_service rq database c = Inr s \<longleftrightarrow>
     (\<exists>b http head stream. choose_backend (c_storage c) = Inr b \<and> build_client rq c = Inr http \<and>
        build_head_client rq c = Inr head \<and> build_stream_client rq c = Inr stream \<and>
        s = cache_service_new database b (cs_max_size (c_storage c)) http head (cs_prefetch_depth (c_storage c))
              (cs_prefetch_budget_base (c_storage c)) (cs_verify_sha256 (c_storage c)) stream
              (cs_etag_validation_timeout_secs (c_storage c)) (cs_chunk_retries (c_storage c)))"
  by (auto simp: make_service_def res_bind_Inr_iff)

text \<open>What each step of the start needs, with a library that only rejects proxy URLs.\<close>

lemma hub_clients_Inr:
  assumes "\<forall>s. \<exists>x. build_client_with rq s = Inr x"
  shows "(\<exists>x. build_client rq c = Inr x) \<longleftrightarrow> (\<forall>u. ch_proxy (c_huggingface c) = Some u \<longrightarrow> proxy_all rq u = Inr ())"
    and "(\<exists>x. build_head_client rq c = Inr x) \<longleftrightarrow> (\<forall>u. ch_proxy (c_huggingface c) = Some u \<longrightarrow> proxy_all rq u = Inr ())"
    and "(\<exists>x. build_stream_client rq c = Inr x) \<longleftrightarrow> (\<forall>u. ch_proxy (c_huggingface c) = Some u \<longrightarrow> proxy_all rq u = Inr ())"
    and "(\<exists>x. ms_http_client rq c = Inr x) \<longleftrightarrow> (\<forall>u. cm_proxy (c_modelscope c) = Some u \<longrightarrow> proxy_all rq u = Inr ())"
    and "(\<exists>x. ms_head_client rq c = Inr x) \<longleftrightarrow> (\<forall>u. cm_proxy (c_modelscope c) = Some u \<longrightarrow> proxy_all rq u = Inr ())"
  using assms by (simp_all add: build_client_def build_head_client_def build_stream_client_def ms_http_client_def
      ms_head_client_def builder_Inr hf_settings_def ms_settings_def)

lemma server_run_with_token:
  assumes "ensure_admin_token pid clock c fs = (Inr t, c2, fs2)"
  shows "server_run rq bind pid clock c sv mh mhd fs =
    (res_bind (build_client rq c) (\<lambda>http. res_bind (build_head_client rq c) (\<lambda>head.
       res_bind (bind (cv_host (c_server c) @ '':'' @ show_nat (cv_port (c_server c)))) (\<lambda>_.
         Inr \<lparr>sr_service = sv, sr_config = c2, sr_admin_token = t, sr_http_client = http, sr_head_client = head,
              sr_ms_http_client = mh, sr_ms_head_client = mhd,
              sr_addr = cv_host (c_server c) @ '':'' @ show_nat (cv_port (c_server c))\<rparr>))), fs2)"
  unfolding server_run_def assms prod.case sum.case clients_of_token_config [OF assms]
  by (simp add: Let_def token_keeps_config(4) [OF assms])

text \<open>The whole start: one witness of each step, in the order of \<open>main\<close>.\<close>

lemma daemon_main_Inr:
  assumes "load fig h (overrides cli) fs = (Inr c, fs1)" "ensure_admin_token pid clock c fs1 = (Inr t, c2, fs2)"
    and "addr = cv_host (c_server c) @ '':'' @ show_nat (cv_port (c_server c))"
  shows "daemon_main fig rq open_store bind h pid clock cli fs = (Inr sr, fs') \<longleftrightarrow> fs' = fs2 \<and>
    (\<exists>database sv mh mhd http head. open_store (cd_path (c_database c)) = Inr database \<and> make_service rq database c = Inr sv \<and>
       ms_http_client rq c = Inr mh \<and> ms_head_client rq c = Inr mhd \<and> build_client rq c = Inr http \<and>
       build_head_client rq c = Inr head \<and> bind addr = Inr () \<and>
       sr = \<lparr>sr_service = sv, sr_config = c2, sr_admin_token = t, sr_http_client = http, sr_head_client = head,
             sr_ms_http_client = mh, sr_ms_head_client = mhd, sr_addr = addr\<rparr>)"
  unfolding daemon_main_def assms(1,3) prod.case sum.case server_run_with_token [OF assms(2)]
  by (auto simp: res_bind_Inr_iff split: sum.split)

lemma daemon_main_starts:
  assumes "load fig h (overrides cli) fs = (Inr c, fs1)" "ensure_admin_token pid clock c fs1 = (Inr t, c2, fs2)"
    and "addr = cv_host (c_server c) @ '':'' @ show_nat (cv_port (c_server c))"
  shows "(\<exists>sr. daemon_main fig rq open_store bind h pid clock cli fs = (Inr sr, fs2)) \<longleftrightarrow>
    (\<exists>database. open_store (cd_path (c_database c)) = Inr database) \<and>
    (\<exists>b. choose_backend (c_storage c) = Inr b) \<and> (\<exists>x. build_client rq c = Inr x) \<and> (\<exists>x. build_head_client rq c = Inr x) \<and>
    (\<exists>x. build_stream_client rq c = Inr x) \<and> (\<exists>x. ms_http_client rq c = Inr x) \<and> (\<exists>x. ms_head_client rq c = Inr x) \<and>
    bind addr = Inr ()" (is "?L \<longleftrightarrow> ?R")
proof
  assume ?L
  then show ?R unfolding daemon_main_Inr [OF assms] make_service_Inr by (elim exE conjE) (intro conjI exI, assumption+)
next
  assume ?R
  then obtain database b http head stream mh mhd where ok: "open_store (cd_path (c_database c)) = Inr database"
    "choose_backend (c_storage c) = Inr b" "build_client rq c = Inr http" "build_head_client rq c = Inr head"
    "build_stream_client rq c = Inr stream" "ms_http_client rq c = Inr mh" "ms_head_client rq c = Inr mhd"
    "bind addr = Inr ()" by (elim exE conjE) (rule that)
  then have "bind (cv_host (c_server c) @ '':'' @ show_nat (cv_port (c_server c))) = Inr ()" using assms(3) by simp
  with ok show ?L
    by (intro exI) (simp add: daemon_main_def assms(1) server_run_with_token [OF assms(2)] make_service_def)
qed


definition sample_args :: daemon_cli where
  "sample_args = \<lparr>d_config_file = None, d_db_path = None, d_storage_backend = None, d_local_root = None, d_s3_bucket = None, d_s3_region = None, d_s3_prefix = None, d_s3_endpoint = None, d_server_host = None, d_server_port = Some 5000, d_hf_endpoint = None, d_hf_token = None, d_hf_proxy = None, d_hf_timeout = None, d_hf_connect_timeout = None, d_ms_endpoint = None, d_ms_token = None, d_ms_proxy = None, d_ms_timeout = None, d_ms_connect_timeout = None, d_admin_token = None, d_admin_token_file = None, d_compression = None, d_max_size = None, d_prefetch_depth = None, d_prefetch_budget_base = None, d_enable_sha256_verify = None, d_etag_validation_timeout_secs = None, d_chunk_retries = None\<rparr>"

text \<open>A library whose clients are their settings, and which takes any proxy.\<close>

definition plain_reqwest :: "client_settings reqwest" where
  "plain_reqwest = \<lparr>proxy_all = (\<lambda>_. Inr ()), build_client_with = Inr\<rparr>"

lemma sample_settings:
  "cs_backend (c_storage sample_config) = ''local''" "ch_proxy (c_huggingface sample_config) = None"
  "cm_proxy (c_modelscope sample_config) = None" "cv_host (c_server sample_config) = ''0.0.0.0''"
  "cv_port (c_server sample_config) = 5000" "ca_token (c_admin sample_config) = None"
  "ca_token_file (c_admin sample_config) = ''/d/hugrs/admin.token''"
  by (simp_all add: effective_def effective_storage_def effective_server_def effective_hf_def effective_ms_def effective_admin_def
      port_override_def no_overrides_def overrides_def sample_host_def env_string_def env_value_def env_path_def config_default_def
      storage_default_def hf_default_def ms_default_def default_admin_token_file_path_def app_data_dir_def app_dir_def path_join_def
      starts_with_def)

lemma sample_config_token: "\<exists>c' fs'. ensure_admin_token 42 (Some 7) sample_config sample_fs = (Inr ''hugrs-42-7'', c', fs')"
proof -
  have n: "show_nat 42 = ''42''" "show_nat 7 = ''7''" by code_simp+
  show ?thesis unfolding ensure_admin_token_def sample_settings
    by (simp add: sample_fs_def Let_def create_dir_all_def write_text_def generated_token_def n path_parent_def trim_slashes_def
        starts_with_def ancestor_paths_def)
qed


text \<open>
  Which client asks whom: the requests for files, of both hubs, go through clients with the
  proxy and the timeouts of the HuggingFace section, and nothing in the ModelScope section
  reaches the service; the client that streams chunks has no limit on the whole request, and
  the clients for HEAD requests follow no redirects.
\<close>

theorem files_use_huggingface_clients:
  "make_service rq database (c\<lparr>c_modelscope := m\<rparr>) = make_service rq database c \<and>
   make_service plain_reqwest database c =
     res_bind (choose_backend (c_storage c)) (\<lambda>b. Inr
       (cache_service_new database b (cs_max_size (c_storage c))
          (hf_settings (Some (ch_timeout_secs (c_huggingface c))) True c)
          (hf_settings (Some (ch_timeout_secs (c_huggingface c))) False c)
          (cs_prefetch_depth (c_storage c)) (cs_prefetch_budget_base (c_storage c)) (cs_verify_sha256 (c_storage c))
          (hf_settings None True c) (cs_etag_validation_timeout_secs (c_storage c)) (cs_chunk_retries (c_storage c))))"
proof
  show "make_service rq database (c\<lparr>c_modelscope := m\<rparr>) = make_service rq database c"
    by (simp add: make_service_def build_client_def build_head_client_def build_stream_client_def hf_settings_def)
  have "builder plain_reqwest s = Inr s" for s by (simp add: builder_def plain_reqwest_def split: option.split)
  then show "make_service plain_reqwest database c =
     res_bind (choose_backend (c_storage c)) (\<lambda>b. Inr
       (cache_service_new database b (cs_max_size (c_storage c))
          (hf_settings (Some (ch_timeout_secs (c_huggingface c))) True c)
          (hf_settings (Some (ch_timeout_secs (c_huggingface c))) False c)
          (cs_prefetch_depth (c_storage c)) (cs_prefetch_budget_base (c_storage c)) (cs_verify_sha256 (c_storage c))
          (hf_settings None True c) (cs_etag_validation_timeout_secs (c_storage c)) (cs_chunk_retries (c_storage c))))"
    by (simp add: make_service_def build_client_def build_head_client_def build_stream_client_def)
qed

end
