(* ===== verification/Migrations.thy ===== *)
theory Migrations
  imports Metadata_Props
begin

text \<open>
  \<open>MetadataStore::new\<close> and \<open>init_schema\<close> (\<open>src/metadata.rs\<close>) with the scripts under
  \<open>src/migrations/\<close>. The crate \<open>rusqlite_migration\<close> runs the scripts after the version of the file in
  order, and undoes a script that fails. The first script makes the old tables, the second copies
  them into those of today, the fifth and the sixth change rows, and the others drop a table that
  nothing uses and make indexes. Failures of the disk are not modelled.
\<close>

section \<open>The scripts\<close>

text \<open>
  The old tables: their rows have the columns of today's but for the orphan mark, which is \<open>None\<close>;
  file names are unique whatever the source. \<open>http_cache\<close> is left out, its rows are never read.
\<close>

record old_db =
  o_files :: "file_row list"
  o_trunks :: "chunk list"
  o_file_trunks :: "file_chunk list"

datatype schema = No_tables | Old_tables old_db | Tables db

text \<open>\<open>001_initial_schema.sql\<close>: tables that exist are left alone.\<close>

definition migration_001 :: "schema \<Rightarrow> schema" where
  "migration_001 s =
     (case s of No_tables \<Rightarrow> Old_tables \<lparr>o_files = [], o_trunks = [], o_file_trunks = []\<rparr> | _ \<Rightarrow> s)"

text \<open>
  \<open>002_rename_trunk_to_chunk.sql\<close>: \<open>INSERT OR IGNORE\<close> skips a row whose id or whose name and source
  are taken; the counter of ids starts again from the largest copied. The check of the foreign keys
  afterwards fails on a link without a file or a chunk.
\<close>

definition new_source :: "string \<Rightarrow> string" where
  "new_source source = (if source = ''pull'' \<or> source = ''upload'' then ''hf'' else source)"

fun copy_files :: "file_row list \<Rightarrow> file_row list \<Rightarrow> file_row list" where
  "copy_files done [] = done"
| "copy_files done (f # fs) =
     (let g = f\<lparr>f_source := new_source (f_source f)\<rparr>
      in if list_ex (\<lambda>h. f_id h = f_id g \<or> (f_name h = f_name g \<and> f_source h = f_source g)) done
         then copy_files done fs else copy_files (done @ [g]) fs)"

definition migration_002 :: "old_db \<Rightarrow> db res" where
  "migration_002 s =
     (let d = \<lparr>files = copy_files [] (o_files s), chunks = o_trunks s, file_chunks = o_file_trunks s,
               last_file_id = fold (\<lambda>f m. max (f_id f) m) (copy_files [] (o_files s)) 0, poisoned = False\<rparr>
      in if list_all (\<lambda>r. list_ex (\<lambda>f. f_id f = fc_file_id r) (files d) \<and>
                          list_ex (\<lambda>c. c_sha256 c = fc_sha256 r) (chunks d)) (file_chunks d)
         then Inr d else Inl (DbError ForeignKeyViolation))"

definition headerless :: "file_row \<Rightarrow> bool" where
  "headerless f = (f_etag f = None \<and> f_content_type f = None)"

definition headerless_link :: "db \<Rightarrow> file_chunk \<Rightarrow> bool" where
  "headerless_link d r = list_ex (\<lambda>f. f_id f = fc_file_id r \<and> headerless f) (files d)"

text \<open>\<open>005_cleanup_headerless_files.sql\<close>: three statements.\<close>

definition migration_005 :: "db \<Rightarrow> db" where
  "migration_005 d =
     (let d1 = update_chunks (\<lambda>c. list_ex (\<lambda>r. headerless_link d r \<and> fc_sha256 r = c_sha256 c) (file_chunks d))
                 (\<lambda>c. c\<lparr>c_ref_count := c_ref_count c - 1\<rparr>) d;
          d2 = d1\<lparr>file_chunks := filter (\<lambda>r. \<not> headerless_link d1 r) (file_chunks d1)\<rparr>
      in d2\<lparr>files := filter (\<lambda>f. \<not> headerless f) (files d2)\<rparr>)"

text \<open>\<open>006_add_chunk_orphaned_at.sql\<close>: a new column, set where the count is zero.\<close>

definition migration_006 :: "string \<Rightarrow> db \<Rightarrow> db" where
  "migration_006 now d =
     update_chunks (\<lambda>c. c_ref_count c = 0) (\<lambda>c. c\<lparr>c_orphaned_at := Some now\<rparr>)
       (update_chunks (\<lambda>_. True) (\<lambda>c. c\<lparr>c_orphaned_at := None\<rparr>) d)"

definition on_tables :: "(db \<Rightarrow> db) \<Rightarrow> schema \<Rightarrow> schema res" where
  "on_tables g s = (case s of Tables d \<Rightarrow> Inr (Tables (g d)) | _ \<Rightarrow> Inr s)"

text \<open>
  The scripts in order. The version says which tables there are: none or, in a file from before the
  versions, the old ones at 0, the old ones at 1, those of today from 2 on. So \<open>on_tables\<close> never
  meets others.
\<close>

definition migrations :: "string \<Rightarrow> (schema \<Rightarrow> schema res) list" where
  "migrations now =
     [\<lambda>s. Inr (migration_001 s),
      \<lambda>s. case s of Old_tables old \<Rightarrow> res_bind (migration_002 old) (\<lambda>d. Inr (Tables d)) | _ \<Rightarrow> Inr s,
      on_tables id, on_tables id, on_tables migration_005, on_tables (migration_006 now), on_tables id]"

text \<open>\<open>to_latest\<close>: the result, the tables and the version that are left.\<close>

fun run_scripts :: "(schema \<Rightarrow> schema res) list \<Rightarrow> schema \<Rightarrow> nat \<Rightarrow> unit res \<times> schema \<times> nat" where
  "run_scripts [] s version = (Inr (), s, version)"
| "run_scripts (m # ms) s version =
     (case m s of Inl e \<Rightarrow> (Inl e, s, version) | Inr s' \<Rightarrow> run_scripts ms s' (version + 1))"

definition init_schema :: "string \<Rightarrow> nat \<Rightarrow> schema \<Rightarrow> unit res \<times> schema \<times> nat" where
  "init_schema now version s = run_scripts (drop version (migrations now)) s version"

section \<open>From the old tables to those of today\<close>

definition old_wf :: "old_db \<Rightarrow> bool" where
  "old_wf s \<longleftrightarrow> distinct (map f_id (o_files s)) \<and> distinct (map f_name (o_files s)) \<and>
     (\<forall>f \<in> set (o_files s). 0 < f_id f) \<and> distinct (map c_sha256 (o_trunks s)) \<and>
     distinct (map (\<lambda>r. (fc_file_id r, fc_chunk_index r)) (o_file_trunks s)) \<and>
     (\<forall>r \<in> set (o_file_trunks s). fc_file_id r \<in> f_id ` set (o_files s) \<and> fc_sha256 r \<in> c_sha256 ` set (o_trunks s))"

abbreviation resourced :: "file_row \<Rightarrow> file_row" where
  "resourced f \<equiv> f\<lparr>f_source := new_source (f_source f)\<rparr>"

lemma copy_files_all:
  assumes "distinct (map f_id (done @ fs))" "distinct (map f_name (done @ fs))"
  shows "copy_files done fs = done @ map resourced fs"
  using assms
proof (induction fs arbitrary: "done")
  case (Cons f fs)
  have "\<not> list_ex (\<lambda>h. f_id h = f_id f \<or> (f_name h = f_name f \<and> f_source h = f_source (resourced f))) done"
    using Cons.prems by (auto simp: list_ex_iff image_iff)
  moreover have "distinct (map f_id ((done @ [resourced f]) @ fs))" "distinct (map f_name ((done @ [resourced f]) @ fs))"
    using Cons.prems by auto
  ultimately show ?case using Cons.IH [of "done @ [resourced f]"] by (simp add: Let_def)
qed simp

lemma fold_max_ids: "m \<le> fold (\<lambda>f m. max (f_id f) m) fs m \<and> (\<forall>f \<in> set fs. f_id f \<le> fold (\<lambda>f m. max (f_id f) m) fs (m :: int))"
proof (induction fs arbitrary: m)
  case (Cons f fs)
  from Cons.IH [of "max (f_id f) m"] show ?case by auto
qed simp

text \<open>
  The copy of consistent old tables loses nothing: all files with their ids, all chunks and
  links, and the result is consistent in the sense of today's tables.
\<close>

lemma migration_002_ok:
  assumes "old_wf s"
  shows "\<exists>d. migration_002 s = Inr d \<and> db_wf d \<and> \<not> poisoned d \<and> files d = map resourced (o_files s) \<and>
    chunks d = o_trunks s \<and> file_chunks d = o_file_trunks s"
proof -
  note wf = assms [unfolded old_wf_def]
  have copy: "copy_files [] (o_files s) = map resourced (o_files s)" using wf copy_files_all [of "[]" "o_files s"] by simp
  have ids: "map f_id (map resourced (o_files s)) = map f_id (o_files s)" "map f_name (map resourced (o_files s)) = map f_name (o_files s)"
    by simp_all
  have names: "distinct (map (\<lambda>f. (f_name f, f_source f)) (map resourced (o_files s)))"
    using wf by (auto simp: distinct_map inj_on_def)
  let ?d = "\<lparr>files = map resourced (o_files s), chunks = o_trunks s, file_chunks = o_file_trunks s,
      last_file_id = fold (\<lambda>f m. max (f_id f) m) (map resourced (o_files s)) 0, poisoned = False\<rparr>"
  have links: "fk_ok (fc_file_id r) (fc_sha256 r) ?d" if "r \<in> set (o_file_trunks s)" for r
    using wf that unfolding fk_ok_keys by auto
  then have "migration_002 s = Inr ?d"
    by (auto simp: migration_002_def copy Let_def list_all_iff list_ex_iff fk_ok_def)
  moreover have "db_wf ?d"
    using wf names links fold_max_ids [of 0 "map resourced (o_files s)"] by (simp add: db_wf_def ids comp_def del: map_map)
  ultimately show ?thesis by (intro exI [of _ ?d]) simp
qed

text \<open>A new file gets empty tables; one that is up to date is not touched.\<close>

lemma init_schema_new:
  "init_schema now 0 No_tables = (Inr (), Tables empty_db, 7)" "init_schema now 7 s = (Inr (), s, 7)"
  by (simp_all add: init_schema_def migrations_def migration_001_def migration_002_def on_tables_def
      migration_005_def migration_006_def empty_db_def update_chunks_def Let_def)

section \<open>What they do to the reference counts\<close>

text \<open>The number of links that the fifth script deletes.\<close>

definition dropped_links :: "db \<Rightarrow> string \<Rightarrow> int" where
  "dropped_links d sha = count_rows (\<lambda>r. headerless_link d r \<and> fc_sha256 r = sha) (file_chunks d)"

lemma migration_005_sel:
  "files (migration_005 d) = filter (\<lambda>f. \<not> headerless f) (files d)"
  "file_chunks (migration_005 d) = filter (\<lambda>r. \<not> headerless_link d r) (file_chunks d)"
  "last_file_id (migration_005 d) = last_file_id d" "poisoned (migration_005 d) = poisoned d"
  "map c_sha256 (chunks (migration_005 d)) = map c_sha256 (chunks d)"
  by (simp_all add: migration_005_def Let_def headerless_link_def update_chunks_def)

lemma migration_005_chunks:
  "chunks (migration_005 d) =
     map (\<lambda>c. if 0 < dropped_links d (c_sha256 c) then c\<lparr>c_ref_count := c_ref_count c - 1\<rparr> else c) (chunks d)"
  by (auto simp: migration_005_def Let_def chunks_update_chunks dropped_links_def count_rows_pos list_ex_iff)

lemma refs_after_005: "actual_refs (migration_005 d) sha = actual_refs d sha - dropped_links d sha"
  using count_rows_split [of "\<lambda>r. fc_sha256 r = sha" "file_chunks d" "headerless_link d"]
  by (simp add: actual_refs_def dropped_links_def migration_005_sel count_rows_filter)

lemma migration_005_wf:
  assumes "db_wf d"
  shows "db_wf (migration_005 d)"
proof -
  have kept: "fc_file_id r \<in> f_id ` set (filter (\<lambda>f. \<not> headerless f) (files d))"
    if r: "r \<in> set (file_chunks d)" "\<not> headerless_link d r" for r
  proof -
    have "fc_file_id r \<in> f_id ` set (files d)" using assms r(1) by (auto simp: db_wf_def fk_ok_keys)
    then obtain f where "f \<in> set (files d)" "f_id f = fc_file_id r" by auto
    moreover from this r(2) have "\<not> headerless f" by (auto simp: headerless_link_def list_ex_iff)
    ultimately show ?thesis by (intro image_eqI [of _ f_id f]) simp_all
  qed
  with assms show ?thesis
    unfolding db_wf_def fk_ok_keys migration_005_sel
    by (auto intro: distinct_map_filter)
qed

text \<open>
  The clean-up migration keeps the keys and the links of the database intact, but it takes
  one reference from a chunk however many links it deletes: afterwards the count of a chunk is
  too high by the number of deleted links minus one, and it is exact only if no chunk lost more
  than one. A chunk with a count that is too high is never collected; the repair of
  \<open>reconcile_chunk_refs\<close> makes every count exact again.
\<close>

lemma migration_005_overcounts:
  assumes "db_inv d" "\<not> poisoned d"
  shows "db_wf (migration_005 d) \<and>
    (\<forall>c \<in> set (chunks (migration_005 d)).
       c_ref_count c = actual_refs (migration_005 d) (c_sha256 c) + max 0 (dropped_links d (c_sha256 c) - 1)) \<and>
    (db_inv (migration_005 d) \<longleftrightarrow> (\<forall>c \<in> set (chunks d). dropped_links d (c_sha256 c) \<le> 1)) \<and>
    (\<exists>r d'. reconcile_chunk_refs now False (migration_005 d) = (Inr r, d') \<and> db_inv d' \<and>
       files d' = files (migration_005 d) \<and> file_chunks d' = file_chunks (migration_005 d))"
proof -
  note wf = migration_005_wf [of d]
  have w: "db_wf d" and exact: "\<forall>c \<in> set (chunks d). c_ref_count c = actual_refs d (c_sha256 c)"
    using assms(1) by (auto simp: db_inv_def refs_exact_def)
  have nonneg: "0 \<le> dropped_links d sha" for sha by (simp add: dropped_links_def)
  have off: "\<forall>c \<in> set (chunks (migration_005 d)).
       c_ref_count c = actual_refs (migration_005 d) (c_sha256 c) + max 0 (dropped_links d (c_sha256 c) - 1)"
  proof
    fix c assume "c \<in> set (chunks (migration_005 d))"
    then obtain b where b: "b \<in> set (chunks d)"
      "c = (if 0 < dropped_links d (c_sha256 b) then b\<lparr>c_ref_count := c_ref_count b - 1\<rparr> else b)"
      by (auto simp: migration_005_chunks simp del: if_image_distrib)
    then have "c_sha256 c = c_sha256 b" by simp
    with b exact nonneg [of "c_sha256 b"] show "c_ref_count c = actual_refs (migration_005 d) (c_sha256 c) + max 0 (dropped_links d (c_sha256 c) - 1)"
      by (auto simp: refs_after_005)
  qed
  have "db_inv (migration_005 d) \<longleftrightarrow> (\<forall>sha \<in> set (map c_sha256 (chunks (migration_005 d))). dropped_links d sha \<le> 1)"
    using wf [OF w] off by (auto simp: db_inv_def refs_exact_def)
  also have "\<dots> \<longleftrightarrow> (\<forall>c \<in> set (chunks d). dropped_links d (c_sha256 c) \<le> 1)"
    unfolding migration_005_sel by simp
  finally have iff: "db_inv (migration_005 d) \<longleftrightarrow> (\<forall>c \<in> set (chunks d). dropped_links d (c_sha256 c) \<le> 1)" .
  have "\<not> poisoned (migration_005 d)" "distinct (map c_sha256 (chunks (migration_005 d)))"
    using assms(2) wf [OF w] by (simp_all add: migration_005_sel(4) db_wf_def)
  from reconcile_apply_eq [OF this, of now] repaired_table [OF wf [OF w], of now] have
    "\<exists>r d'. reconcile_chunk_refs now False (migration_005 d) = (Inr r, d') \<and> db_inv d' \<and>
       files d' = files (migration_005 d) \<and> file_chunks d' = file_chunks (migration_005 d)" by simp
  with wf [OF w] off iff show ?thesis by blast
qed

section \<open>Opening the database of an earlier version\<close>

text \<open>The sixth script sets the orphan marks, and nothing else.\<close>

lemma migration_006_sel:
  "files (migration_006 now d) = files d" "file_chunks (migration_006 now d) = file_chunks d"
  "chunks (migration_006 now d) =
     map (\<lambda>c. c\<lparr>c_orphaned_at := if c_ref_count c = 0 then Some now else None\<rparr>) (chunks d)"
  by (simp_all add: migration_006_def update_chunks_def)

lemma migration_006_keeps:
  "db_wf (migration_006 now d) = db_wf d" "actual_refs (migration_006 now d) sha = actual_refs d sha"
  "orphans_sound (migration_006 now d)" "orphans_marked (migration_006 now d)"
  by (simp_all add: migration_006_def actual_refs_def)
     (auto simp: orphans_sound_def orphans_marked_def update_chunks_def)

definition old_refs_exact :: "old_db \<Rightarrow> bool" where
  "old_refs_exact s \<longleftrightarrow>
     (\<forall>c \<in> set (o_trunks s). c_ref_count c = count_rows (\<lambda>r. fc_sha256 r = c_sha256 c) (o_file_trunks s))"

text \<open>
  C34: Opening a consistent database of the first version succeeds and brings it to the latest
  version: every file with headers stays, under its id and with its links, every chunk stays, the
  tables are consistent and the orphan marks agree with the counts. Counts that were exact stay
  exact but for the chunks of files without headers, from which the clean-up takes one
  reference however many links it deletes: such a count is too high by the number of deleted links
  minus one, so that the chunk is never collected before a repair, which makes all counts exact.
\<close>

theorem old_database_upgraded:
  assumes "old_wf s" "old_refs_exact s"
  shows "\<exists>d2 d. migration_002 s = Inr d2 \<and> init_schema now 1 (Old_tables s) = (Inr (), Tables d, 7) \<and>
    files d = filter (\<lambda>f. \<not> headerless f) (map resourced (o_files s)) \<and>
    file_chunks d = filter (\<lambda>r. \<not> headerless_link d2 r) (o_file_trunks s) \<and>
    map c_sha256 (chunks d) = map c_sha256 (o_trunks s) \<and>
    db_wf d \<and> orphans_sound d \<and> orphans_marked d \<and>
    (\<forall>c \<in> set (chunks d). c_ref_count c = actual_refs d (c_sha256 c) + max 0 (dropped_links d2 (c_sha256 c) - 1)) \<and>
    (\<exists>r d'. reconcile_chunk_refs now False d = (Inr r, d') \<and> db_inv d')"
proof -
  obtain d2 where d2: "migration_002 s = Inr d2" "db_wf d2" "\<not> poisoned d2"
    "files d2 = map resourced (o_files s)" "chunks d2 = o_trunks s" "file_chunks d2 = o_file_trunks s"
    using migration_002_ok [OF assms(1)] by blast
  have "refs_exact d2" using assms(2) d2 by (simp add: refs_exact_def old_refs_exact_def actual_refs_def)
  with d2 have inv: "db_inv d2" by (simp add: db_inv_def)
  note over = migration_005_overcounts [OF inv d2(3), of now]
  let ?d = "migration_006 now (migration_005 d2)"
  have wf: "db_wf ?d" using over by (simp add: migration_006_keeps)
  have "\<not> poisoned ?d" "distinct (map c_sha256 (chunks ?d))"
    using d2(3) wf by (simp_all add: migration_006_def migration_005_sel(4) db_wf_def)
  from reconcile_apply_eq [OF this, of now] repaired_table [OF wf, of now]
  have repair: "\<exists>r d'. reconcile_chunk_refs now False ?d = (Inr r, d') \<and> db_inv d'" by simp
  have run: "init_schema now 1 (Old_tables s) = (Inr (), Tables ?d, 7)"
    using d2(1) by (simp add: init_schema_def migrations_def on_tables_def)
  have counts: "\<forall>c \<in> set (chunks ?d). c_ref_count c = actual_refs ?d (c_sha256 c) + max 0 (dropped_links d2 (c_sha256 c) - 1)"
    using over by (auto simp: migration_006_sel migration_006_keeps)
  have shas: "map c_sha256 (chunks ?d) = map c_sha256 (o_trunks s)"
    using migration_005_sel(5) [of d2] d2(5) by (simp add: migration_006_sel comp_def)
  show ?thesis
    using d2 run counts wf shas repair
    by (intro exI [of _ d2] exI [of _ ?d]) (simp add: migration_006_sel migration_006_keeps migration_005_sel)
qed

text \<open>A file without headers that links a chunk twice.\<close>

definition twice_db :: old_db where
  "twice_db = \<lparr>o_files = [\<lparr>f_id = 1, f_name = ''o/r/a'', f_repo = ''o/r'', f_total_size = 8, f_created_at = ''t'',
       f_last_accessed = ''t'', f_source = ''pull'', f_etag = None, f_x_repo_commit = None, f_x_linked_size = None,
       f_x_linked_etag = None, f_content_type = None\<rparr>],
     o_trunks = [\<lparr>c_sha256 = ''aa'', c_backend = ''local'', c_path = ''p'', c_size = 4, c_compressed_size = None,
       c_ref_count = 2, c_orphaned_at = None\<rparr>],
     o_file_trunks = [link_row 1 ''aa'' 0 4, link_row 1 ''aa'' 1 4]\<rparr>"

theorem old_database_upgraded_witness:
  "\<exists>d. init_schema ''t'' 1 (Old_tables twice_db) = (Inr (), Tables d, 7) \<and> files d = [] \<and> file_chunks d = [] \<and>
     map c_ref_count (chunks d) = [1] \<and> map c_orphaned_at (chunks d) = [None]"
proof -
  have "old_wf twice_db" "old_refs_exact twice_db" by (simp_all add: twice_db_def old_wf_def old_refs_exact_def)
  from old_database_upgraded [OF this, of "''t''"] obtain d where
    d: "init_schema ''t'' 1 (Old_tables twice_db) = (Inr (), Tables d, 7)" "files d = []"
    by (auto simp: twice_db_def headerless_def)
  have "case init_schema ''t'' 1 (Old_tables twice_db) of (_, Tables d, _) \<Rightarrow>
      file_chunks d = [] \<and> map c_ref_count (chunks d) = [1] \<and> map c_orphaned_at (chunks d) = [None] | _ \<Rightarrow> False"
    by code_simp
  with d show ?thesis by auto
qed

end
