(* ===== verification/Spec2Isabelle.thy ===== *)
theory Spec2Isabelle
  imports Storage_Props Gc_Props Metadata_Props Session_Sharing Fetch_Props Fetch_Table Cached_Props
    Upstream_Props Singleflight Config_Props Control_Props Proxy_Props Download_Cycle
    Routes Startup_Props Migrations
begin

text \<open>
  HugRS is a caching proxy for the model hubs HuggingFace and ModelScope, written in Rust. Clients
  ask it for files as they would ask a hub; it streams them through, keeps them in chunks of four
  MiB named by their SHA-256, and serves them from the cache while the hub's entity tag has not
  changed. A command-line tool, \<open>hugrsctl\<close>, talks to the running daemon. This development models
  the program under \<open>src/src/\<close> as HOL functions and step relations and proves what makes it
  correct, and where it is not.

  The parts, bottom up, with the theories that model them and those that hold their properties:

  \<^item> \<open>Prelude\<close>, \<open>Rust_Str\<close>, \<open>Float64\<close>: bytes, the errors that stand for \<open>anyhow::Error\<close> (one
    constructor per error site), results and Rust's \<open>?\<close> (\<open>res_bind\<close>), casts between \<open>i64\<close> and \<open>u64\<close>,
    slices that panic, counting rows; the operations of \<open>str\<close> and of \<open>f64\<close> that the program uses.
  \<^item> \<open>Reach\<close>: runs of a state machine, and the locale \<open>state_invariant\<close>, interpreted on the three
    machines below: the database under its operations, the table that shares downloads, and the
    single flight of probes.
  \<^item> \<open>Chunker\<close> (\<open>chunker.rs\<close>), \<open>Storage\<close> (\<open>storage/\<close>), \<open>Storage_Props\<close>: splitting and joining files;
    the trait \<open>StorageBackend\<close> as a record of operations over a store, the local backend over a map
    from paths to contents, the S3 backend over an object store. The locale \<open>storage_laws\<close> is the
    contract (a map from hashes to contents) that every client below relies on; it is interpreted
    on the local backend, and proved for the compressing and the S3 backend.
  \<^item> \<open>Metadata\<close>, \<open>Metadata_Inv\<close>, \<open>Metadata_Props\<close>, \<open>Migrations\<close> (\<open>metadata.rs\<close>, \<open>migrations/\<close>): the SQLite
    tables as lists of rows and every operation of \<open>MetadataStore\<close>; the invariant \<open>db_inv\<close> (unique
    keys, no dangling link, exact reference counts) kept by every operation; deletion, linking,
    repair, and what opening the database of an earlier version leaves.
  \<^item> \<open>Gc\<close>, \<open>Gc_Props\<close> (\<open>service.rs\<close>): completeness of a file, deletion, garbage collection in batches,
    eviction, over database and store together.
  \<^item> \<open>Session\<close>, \<open>Session_Props\<close>, \<open>Session_Deliver\<close>, \<open>Session_Sharing\<close> (\<open>session.rs\<close>): the actor that
    serves all readers of one file: its state, the choice of the next chunk by urgency, forwarding,
    prefetching, its loop. What happens between two steps of the actor (messages that arrive,
    readers that go away, what a download gives) is the input \<open>round\<close> of each turn.
  \<^item> \<open>Fetch\<close>, \<open>Fetch_Props\<close>, \<open>Fetch_Table\<close> (\<open>session.rs\<close>): reading a chunk from the store, downloading it
    with retries, storing and announcing it; the table by which all tasks that need a chunk share
    one download, a state machine over the tasks' atomic actions.
  \<^item> \<open>Cached_Stream\<close>, \<open>Cached_Props\<close> (\<open>service.rs\<close>): streaming a file from the store with a queue of
    prefetching tasks that may run at any time.
  \<^item> \<open>Download_Cycle\<close>: the composition of the parts above for the life of a file in the cache.
  \<^item> \<open>Upstream\<close>, \<open>Upstream_Props\<close> (\<open>service.rs\<close>, \<open>server.rs\<close>): probing the hub for metadata with its
    redirects, comparing entity tags, reconciling the database, starting a stream.
  \<^item> \<open>Singleflight\<close> (\<open>server.rs\<close>): concurrent HEAD requests for a file share one probe; a state machine.
  \<^item> \<open>Proxy\<close>, \<open>Proxy_Props\<close>, \<open>Git_Proxy\<close>, \<open>Routes\<close> (\<open>server.rs\<close>, \<open>git.rs\<close>): the handlers for files, model
    information, git and LFS, ranges and response headers, and the table of routes.
  \<^item> \<open>Control\<close>, \<open>Admin_Client\<close>, \<open>Ctl\<close>, \<open>Control_Props\<close> (\<open>control.rs\<close>, \<open>server.rs\<close>, \<open>admin_client.rs\<close>,
    \<open>hugrsctl_cli.rs\<close>): the administration interface, its client, and what the tool prints.
  \<^item> \<open>Config\<close>, \<open>Config_Props\<close>, \<open>Startup\<close>, \<open>Startup_Props\<close> (\<open>config.rs\<close>, \<open>daemon_cli.rs\<close>, \<open>hf.rs\<close>,
    \<open>main.rs\<close>): the layers of the configuration, the admin token, and the start of the daemon.

  Conventions. A definition has the name of the function, type or field it models, with a prefix
  for fields and where a name is taken. The state a function changes (database \<open>db\<close>, store \<open>'s\<close>,
  both with the sessions in \<open>world\<close>, files \<open>text_fs\<close>) is passed in and returned; \<open>Inl\<close> is an error,
  and a panic is the error \<open>Panicked\<close>. Integers of 64 bits are \<open>nat\<close> or \<open>int\<close>, with \<open>mod 2 ^ 64\<close> and
  the casts written out where the code can wrap. The clock, the process id and the environment are
  arguments.

  What is proved, by group. Data: round trip of chunking, both backends refine a map, exact
  reference counts in every reachable database, the effect of deletion, linking and repair.
  Streams: the actor ends; a reader alone, or together with others from the start, gets exactly its
  bytes; a GET delivers what its headers promise; prefetching is invisible; a downloaded file is
  complete and served from the store, and collection does not harm it; nothing unverified is
  sent. Downloads: success after transient failures, giving up after the configured attempts, one
  download per chunk, every subscriber gets the result. Maintenance: collection removes orphans
  only, eviction ends within its limit, \<open>hugrsctl service gc\<close> leaves no orphan. Metadata of the hub:
  what a reconciliation leaves, what HEAD answers. Interface: which ranges are understood, who is
  let in to the administration routes, what listings say, the routes are well typed, which
  configuration results and when the daemon comes up. Among the theorems are those that show what
  goes wrong: order and losses when readers share an actor, blocked keys and chunks, a 304 for stale
  content, eviction of the streamed file, counts after the migration, the route that cannot work.

  Bounds and termination. The loops are total functions with measures: retries (attempts left),
  prefetch queue (free places), eviction (rows of the database), digits of numbers. The actor's loop
  is a function of the list of its rounds, and \<open>session_run_terminates\<close> says how many are enough:
  one more than the chunks not yet completed. The loop of \<open>hugrsctl service gc\<close> may run for ever
  against an arbitrary server; it is a \<open>partial_function\<close>, and \<open>gc_command_collects_everything\<close> proves
  that it returns against the daemon.

  Parameters, which stand for code outside the repository: the digest of \<open>sha2\<close> (32 bytes), the
  \<open>zstd\<close> functions, the S3 client, the HTTP clients with the hubs behind them, \<open>figment\<close> and the
  TOML reader, \<open>serde_json\<close>, the opening of the database file and the socket. What a theorem needs
  of them is a named hypothesis (\<open>storage_laws\<close>, \<open>s3_service_ok\<close>, \<open>figment_merges\<close>,
  \<open>documented_json\<close>), with a concrete instance in the theorem's witness. SHA-256 collisions are
  excluded by hypothesis where that matters (\<open>no_collision\<close>), never in general.

  Not modelled: the matching of routes and the parsing of HTTP by \<open>axum\<close>, tracing and the request
  log, the parsing of command lines by \<open>clap\<close>, the rendering of JSON answers, failures of the disk
  below SQLite and of the runtime, and the tests.
\<close>

end
